(* ===== verification/Prelude.thy ===== *)
theory Prelude
  imports Complex_Main "HOL-Library.Word" "HOL-Library.Char_ord" "HOL-Library.List_Lexorder"
    "HOL-Library.Sublist" "HOL-Library.Multiset" "HOL-Library.Code_Target_Nat"
begin

section \<open>Prelude: machine integers, results, lists and maps\<close>

text \<open>
  What every component shares. Go's \<open>int\<close> and \<open>int64\<close> (both 64 bits wide on the
  targets of the Dockerfile) are modelled as \<open>int\<close>, and \<open>wrap64\<close> writes the
  two's-complement wrap-around out wherever the code can leave the range; \<open>wrap64_word\<close> ties it
  to the 64-bit words of the library. A Go function that returns \<open>(T, error)\<close> returns a value of
  \<open>error + T\<close> here, \<open>Inl\<close> for the non-nil error.
\<close>

named_theorems go_int \<open>facts about the 64-bit range and its wrap-around\<close>

subsection \<open>64-bit integers\<close>

definition wrap64 :: "int \<Rightarrow> int" where
  "wrap64 n = (n + 2 ^ 63) mod 2 ^ 64 - 2 ^ 63"

definition int64_range :: "int \<Rightarrow> bool" where
  "int64_range n \<longleftrightarrow> - (2 ^ 63) \<le> n \<and> n < 2 ^ 63"

lemma wrap64_word: "wrap64 n = sint (word_of_int n :: 64 word)"
  by (simp add: wrap64_def int_word_sint)

lemma wrap64_id [simp, go_int]: "int64_range n \<Longrightarrow> wrap64 n = n"
  by (simp add: wrap64_def int64_range_def)

lemma int64_range_wrap64 [simp, go_int]: "int64_range (wrap64 n)"
proof -
  have "0 \<le> (n + 2 ^ 63) mod 2 ^ 64" "(n + 2 ^ 63) mod 2 ^ 64 < (2 :: int) ^ 64"
    by (rule pos_mod_sign, simp, rule pos_mod_bound, simp)
  then show ?thesis by (simp add: wrap64_def int64_range_def)
qed

lemma int64_rangeI [intro]: "- (2 ^ 63) \<le> n \<Longrightarrow> n < 2 ^ 63 \<Longrightarrow> int64_range n"
  by (simp add: int64_range_def)

subsection \<open>Results\<close>

lemma case_sum_Inl_iff:
  "(case r of Inl e \<Rightarrow> Inl (f e) | Inr x \<Rightarrow> g x) = Inr y \<longleftrightarrow> (\<exists>x. r = Inr x \<and> g x = Inr y)"
  by (cases r) auto

fun is_ok :: "'e + 'a \<Rightarrow> bool" where
  "is_ok (Inl e) = False"
| "is_ok (Inr x) = True"

lemma is_ok_iff: "is_ok r \<longleftrightarrow> (\<exists>x. r = Inr x)"
  by (cases r) auto

lemma is_ok_projr: "is_ok r \<Longrightarrow> r = Inr (projr r)"
  by (cases r) auto

subsection \<open>Tables: lists of rows with a key\<close>

text \<open>
  An SQL table with a primary key is a list of rows in insertion order; \<open>key\<close> reads the key of a
  row. \<open>upsert_by\<close> is \<open>INSERT ... ON CONFLICT DO UPDATE\<close>, \<open>insert_new_by\<close> is
  \<open>INSERT ... ON CONFLICT DO NOTHING\<close>.
\<close>

named_theorems table_simps \<open>lookups after table updates\<close>

definition lookup_by :: "('r \<Rightarrow> 'k) \<Rightarrow> 'k \<Rightarrow> 'r list \<Rightarrow> 'r option" where
  "lookup_by key k rows = find (\<lambda>r. key r = k) rows"

definition has_key :: "('r \<Rightarrow> 'k) \<Rightarrow> 'k \<Rightarrow> 'r list \<Rightarrow> bool" where
  "has_key key k rows \<longleftrightarrow> list_ex (\<lambda>r. key r = k) rows"

definition upsert_by :: "('r \<Rightarrow> 'k) \<Rightarrow> 'r \<Rightarrow> 'r list \<Rightarrow> 'r list" where
  "upsert_by key row rows =
     (if has_key key (key row) rows then map (\<lambda>r. if key r = key row then row else r) rows
      else rows @ [row])"

definition insert_new_by :: "('r \<Rightarrow> 'k) \<Rightarrow> 'r \<Rightarrow> 'r list \<Rightarrow> 'r list" where
  "insert_new_by key row rows = (if has_key key (key row) rows then rows else rows @ [row])"

definition delete_by :: "('r \<Rightarrow> 'k) \<Rightarrow> 'k \<Rightarrow> 'r list \<Rightarrow> 'r list" where
  "delete_by key k rows = filter (\<lambda>r. key r \<noteq> k) rows"

lemma has_key_iff [table_simps]: "has_key key k rows \<longleftrightarrow> k \<in> key ` set rows"
  by (auto simp: has_key_def list_ex_iff)

lemma lookup_by_None: "lookup_by key k rows = None \<longleftrightarrow> k \<notin> key ` set rows"
  by (auto simp: lookup_by_def find_None_iff)

lemma lookup_by_Some: "lookup_by key k rows = Some r \<Longrightarrow> r \<in> set rows \<and> key r = k"
  by (auto simp: lookup_by_def find_Some_iff)

lemma lookup_by_distinct:
  "distinct (map key rows) \<Longrightarrow> r \<in> set rows \<Longrightarrow> lookup_by key (key r) rows = Some r"
  by (induction rows) (auto simp: lookup_by_def)

lemma lookup_append: "lookup_by key k (xs @ ys) =
   (case lookup_by key k xs of None \<Rightarrow> lookup_by key k ys | Some r \<Rightarrow> Some r)"
  by (induction xs) (auto simp: lookup_by_def)

lemma lookup_single: "lookup_by key k [row] = (if key row = k then Some row else None)"
  by (simp add: lookup_by_def)

lemma lookup_map_replace:
  "lookup_by key k (map (\<lambda>r. if key r = key row then row else r) rows) =
     (if k = key row then (if has_key key k rows then Some row else None) else lookup_by key k rows)"
  by (induction rows) (auto simp: lookup_by_def has_key_def)

lemma lookup_upsert [table_simps]:
  "lookup_by key k (upsert_by key row rows) = (if k = key row then Some row else lookup_by key k rows)"
proof (cases "has_key key (key row) rows")
  case False
  then have "lookup_by key (key row) rows = None" by (simp add: lookup_by_None has_key_iff)
  then show ?thesis
    using False by (auto simp: upsert_by_def lookup_append lookup_single split: option.split)
qed (simp add: upsert_by_def lookup_map_replace)

lemma lookup_delete [table_simps]:
  "lookup_by key k (delete_by key k' rows) = (if k = k' then None else lookup_by key k rows)"
  by (induction rows) (auto simp: lookup_by_def delete_by_def)

lemma lookup_insert_new [table_simps]:
  "lookup_by key k (insert_new_by key row rows) =
     (if k = key row \<and> lookup_by key k rows = None then Some row else lookup_by key k rows)"
proof (cases "has_key key (key row) rows")
  case True
  then show ?thesis by (auto simp: insert_new_by_def has_key_iff lookup_by_None)
next
  case False
  then have "lookup_by key (key row) rows = None" by (simp add: lookup_by_None has_key_iff)
  with False show ?thesis
    by (auto simp: insert_new_by_def lookup_append lookup_single split: option.split)
qed

lemma key_set_upsert [table_simps]: "key ` set (upsert_by key row rows) = insert (key row) (key ` set rows)"
  by (auto simp: upsert_by_def has_key_iff image_iff)

lemma set_upsert: "set (upsert_by key row rows) = insert row {r \<in> set rows. key r \<noteq> key row}"
  by (auto simp: upsert_by_def has_key_iff image_iff split: if_splits)

lemma distinct_upsert [table_simps]:
  "distinct (map key rows) \<Longrightarrow> distinct (map key (upsert_by key row rows))"
proof -
  have "map key (map (\<lambda>r. if key r = key row then row else r) rows) = map key rows" by simp
  then show "distinct (map key rows) \<Longrightarrow> ?thesis"
    by (simp add: upsert_by_def has_key_iff del: map_map)
qed

lemma distinct_insert_new [table_simps]:
  "distinct (map key rows) \<Longrightarrow> distinct (map key (insert_new_by key row rows))"
  by (auto simp: insert_new_by_def has_key_iff)

lemma distinct_delete [table_simps]:
  "distinct (map key rows) \<Longrightarrow> distinct (map key (delete_by key k rows))"
  by (simp add: delete_by_def distinct_map_filter)

lemma set_delete: "set (delete_by key k rows) = {r \<in> set rows. key r \<noteq> k}"
  by (auto simp: delete_by_def)

end
