(* ===== verification/GoStrings.thy ===== *)
theory GoStrings
  imports Prelude
begin

section \<open>Go strings: bytes, trimming, case, decimal numbers\<close>

text \<open>
  A Go string is a sequence of bytes: a \<open>string\<close> (list of 8-bit \<open>char\<close>s) here, compared
  bytewise. This theory holds what the server uses of the packages \<open>strings\<close>,
  \<open>strconv\<close> and \<open>fmt\<close>. \<open>TrimSpace\<close> strips the UTF-8 encodings of every rune that
  \<open>unicode.IsSpace\<close> accepts. \<open>ToLower\<close> lowers the ASCII letters and keeps every other byte;
  Go also maps non-ASCII letters through its Unicode tables, which are not reproduced, so the
  model of \<open>ToLower\<close> (and of \<open>EqualFold\<close>) is exact on ASCII text only.
\<close>

subsection \<open>Bytes\<close>

definition code :: "char \<Rightarrow> nat" where
  "code c = of_char c"

lemma code_less [simp]: "code c < 256"
  by (simp add: code_def)

lemma code_inject [simp]: "code c = code d \<longleftrightarrow> c = d"
  by (simp add: code_def)

lemma code_char_of [simp]: "n < 256 \<Longrightarrow> code (char_of n) = n"
  by (simp add: code_def)

lemma char_of_code [simp]: "char_of (code c) = c"
  by (simp add: code_def)

subsection \<open>\<open>strings.HasPrefix\<close>, \<open>TrimPrefix\<close>, \<open>TrimRight\<close>, \<open>Trim\<close>, \<open>Split\<close>\<close>

definition HasPrefix :: "string \<Rightarrow> string \<Rightarrow> bool" where
  "HasPrefix s p \<longleftrightarrow> prefix p s"

definition TrimPrefix :: "string \<Rightarrow> string \<Rightarrow> string" where
  "TrimPrefix s p = (if HasPrefix s p then drop (length p) s else s)"

text \<open>\<open>TrimLeft(s, cutset)\<close> and \<open>TrimRight(s, cutset)\<close> for a one-byte cutset.\<close>

definition TrimLeft :: "string \<Rightarrow> char \<Rightarrow> string" where
  "TrimLeft s c = dropWhile (\<lambda>x. x = c) s"

definition TrimRight :: "string \<Rightarrow> char \<Rightarrow> string" where
  "TrimRight s c = rev (dropWhile (\<lambda>x. x = c) (rev s))"

definition Trim :: "string \<Rightarrow> char \<Rightarrow> string" where
  "Trim s c = TrimRight (TrimLeft s c) c"

text \<open>\<open>strings.Split(s, sep)\<close> for a one-byte separator: never the empty list.\<close>

fun Split :: "string \<Rightarrow> char \<Rightarrow> string list" where
  "Split [] sep = [[]]"
| "Split (c # cs) sep =
     (if c = sep then [] # Split cs sep
      else (case Split cs sep of [] \<Rightarrow> [[c]] | w # ws \<Rightarrow> (c # w) # ws))"

lemma TrimPrefix_append [simp]: "TrimPrefix (p @ s) p = s"
  by (simp add: TrimPrefix_def HasPrefix_def)

lemma TrimRight_last: "TrimRight s c = [] \<or> last (TrimRight s c) \<noteq> c"
  using hd_dropWhile [of "\<lambda>x. x = c" "rev s"] by (auto simp: TrimRight_def last_rev)

subsection \<open>\<open>strings.TrimSpace\<close>\<close>

text \<open>The UTF-8 encodings of the runes of the Unicode White Space property.\<close>

definition spaces :: "string list" where
  "spaces =
     [[CHR 0x09], [CHR 0x0A], [CHR 0x0B], [CHR 0x0C], [CHR 0x0D], [CHR 0x20],
      [CHR 0xC2, CHR 0x85], [CHR 0xC2, CHR 0xA0], [CHR 0xE1, CHR 0x9A, CHR 0x80]]
     @ map (\<lambda>n. [CHR 0xE2, CHR 0x80, char_of n]) [0x80 ..< 0x8B]
     @ [[CHR 0xE2, CHR 0x80, CHR 0xA8], [CHR 0xE2, CHR 0x80, CHR 0xA9],
        [CHR 0xE2, CHR 0x80, CHR 0xAF], [CHR 0xE2, CHR 0x81, CHR 0x9F],
        [CHR 0xE3, CHR 0x80, CHR 0x80]]"

lemma space_nonempty: "w \<in> set spaces \<Longrightarrow> w \<noteq> []"
  by (auto simp: spaces_def)

function trim_left_space :: "string \<Rightarrow> string" where
  "trim_left_space s =
     (case find (\<lambda>w. prefix w s) spaces of
        None \<Rightarrow> s
      | Some w \<Rightarrow> trim_left_space (drop (length w) s))"
  by pat_completeness auto
termination
proof (relation "measure length", simp)
  fix s w assume "find (\<lambda>w. prefix w s) spaces = Some w"
  then have "w \<in> set spaces" "prefix w s"
    by (auto simp: find_Some_iff)
  then have "w \<noteq> []" "length w \<le> length s"
    by (auto dest: space_nonempty prefix_length_le)
  then show "(drop (length w) s, s) \<in> measure length"
    by (cases w; cases s) auto
qed

declare trim_left_space.simps [simp del]

function trim_right_space :: "string \<Rightarrow> string" where
  "trim_right_space s =
     (case find (\<lambda>w. suffix w s) spaces of
        None \<Rightarrow> s
      | Some w \<Rightarrow> trim_right_space (take (length s - length w) s))"
  by pat_completeness auto
termination
proof (relation "measure length", simp)
  fix s w assume "find (\<lambda>w. suffix w s) spaces = Some w"
  then have "w \<in> set spaces" "suffix w s"
    by (auto simp: find_Some_iff)
  then have "w \<noteq> []" "length w \<le> length s"
    by (auto dest: space_nonempty suffix_length_le)
  then show "(take (length s - length w) s, s) \<in> measure length"
    by (cases w; cases s) auto
qed

declare trim_right_space.simps [simp del]

definition TrimSpace :: "string \<Rightarrow> string" where
  "TrimSpace s = trim_right_space (trim_left_space s)"

subsection \<open>\<open>strings.ToLower\<close> and \<open>strings.EqualFold\<close>\<close>

definition lower :: "char \<Rightarrow> char" where
  "lower c = (if 65 \<le> code c \<and> code c \<le> 90 then char_of (code c + 32) else c)"

definition ToLower :: "string \<Rightarrow> string" where
  "ToLower s = map lower s"

definition EqualFold :: "string \<Rightarrow> string \<Rightarrow> bool" where
  "EqualFold s t \<longleftrightarrow> ToLower s = ToLower t"

lemma lower_lower [simp]: "lower (lower c) = lower c"
  by (simp add: lower_def)

lemma ToLower_ToLower [simp]: "ToLower (ToLower s) = ToLower s"
  by (simp add: ToLower_def)

lemma ToLower_Nil_iff [simp]: "ToLower s = [] \<longleftrightarrow> s = []"
  by (simp add: ToLower_def)

lemma EqualFold_refl [simp]: "EqualFold s s"
  by (simp add: EqualFold_def)

subsection \<open>Trimming is idempotent\<close>

definition clean_left :: "string \<Rightarrow> bool" where
  "clean_left s \<longleftrightarrow> (\<forall>w \<in> set spaces. \<not> prefix w s)"

definition clean_right :: "string \<Rightarrow> bool" where
  "clean_right s \<longleftrightarrow> (\<forall>w \<in> set spaces. \<not> suffix w s)"

lemma trim_left_clean: "clean_left s \<Longrightarrow> trim_left_space s = s"
  by (subst trim_left_space.simps)
    (auto simp: clean_left_def find_Some_iff split: option.splits)

lemma trim_right_clean: "clean_right s \<Longrightarrow> trim_right_space s = s"
  by (subst trim_right_space.simps)
    (auto simp: clean_right_def find_Some_iff split: option.splits)

lemma clean_left_trim_left: "clean_left (trim_left_space s)"
proof (induction s rule: trim_left_space.induct)
  case (1 s)
  then show ?case
    by (subst trim_left_space.simps)
      (auto simp: clean_left_def find_None_iff split: option.splits)
qed

lemma clean_right_trim_right: "clean_right (trim_right_space s)"
proof (induction s rule: trim_right_space.induct)
  case (1 s)
  then show ?case
    by (subst trim_right_space.simps)
      (auto simp: clean_right_def find_None_iff split: option.splits)
qed

lemma prefix_trim_right: "prefix (trim_right_space s) s"
proof (induction s rule: trim_right_space.induct)
  case (1 s)
  then show ?case
    by (subst trim_right_space.simps)
      (auto split: option.splits intro: prefix_order.trans take_is_prefix)
qed

lemma clean_left_prefix: "clean_left s \<Longrightarrow> prefix t s \<Longrightarrow> clean_left t"
  by (auto simp: clean_left_def dest: prefix_order.trans)

lemma TrimSpace_clean:
  "clean_left (TrimSpace s)" "clean_right (TrimSpace s)"
  using clean_left_prefix [OF clean_left_trim_left prefix_trim_right]
  by (simp_all add: TrimSpace_def clean_right_trim_right)

lemma TrimSpace_id: "clean_left s \<Longrightarrow> clean_right s \<Longrightarrow> TrimSpace s = s"
  by (simp add: TrimSpace_def trim_left_clean trim_right_clean)

lemma TrimSpace_TrimSpace [simp]: "TrimSpace (TrimSpace s) = TrimSpace s"
  by (intro TrimSpace_id TrimSpace_clean)

text \<open>A space contains no ASCII letter, so lowering cannot make or break one.\<close>

lemma space_code: "w \<in> set spaces \<Longrightarrow> c \<in> set w \<Longrightarrow> code c < 65 \<or> 128 \<le> code c"
  by (auto simp: spaces_def code_def)

lemma lower_eq_iff: "code x < 65 \<or> 128 \<le> code x \<Longrightarrow> lower c = x \<longleftrightarrow> c = x"
  by (auto simp: lower_def)

lemma map_lower_eq_iff:
  "\<forall>c \<in> set w. code c < 65 \<or> 128 \<le> code c \<Longrightarrow> map lower u = w \<longleftrightarrow> u = w"
  by (induction w arbitrary: u) (auto simp: lower_eq_iff map_eq_Cons_conv)

lemma prefix_iff_take: "prefix w s \<longleftrightarrow> take (length w) s = w"
  by (metis append_eq_conv_conj prefix_def take_is_prefix)

lemma prefix_space_ToLower: "w \<in> set spaces \<Longrightarrow> prefix w (ToLower s) \<longleftrightarrow> prefix w s"
proof -
  assume "w \<in> set spaces"
  then have "\<forall>c \<in> set w. code c < 65 \<or> 128 \<le> code c" by (auto dest: space_code)
  then show ?thesis
    by (simp only: prefix_iff_take ToLower_def take_map map_lower_eq_iff)
qed

lemma suffix_space_ToLower: "w \<in> set spaces \<Longrightarrow> suffix w (ToLower s) \<longleftrightarrow> suffix w s"
proof -
  assume "w \<in> set spaces"
  then have "\<forall>c \<in> set (rev w). code c < 65 \<or> 128 \<le> code c" by (auto dest: space_code)
  then show ?thesis
    by (simp only: suffix_to_prefix prefix_iff_take ToLower_def take_map rev_map map_lower_eq_iff)
qed

lemma TrimSpace_ToLower_TrimSpace [simp]: "TrimSpace (ToLower (TrimSpace s)) = ToLower (TrimSpace s)"
  using TrimSpace_clean [of s]
  by (intro TrimSpace_id)
    (simp_all add: clean_left_def clean_right_def prefix_space_ToLower suffix_space_ToLower)

text \<open>A string that begins and ends with visible ASCII bytes has nothing to trim.\<close>

definition visible :: "char \<Rightarrow> bool" where
  "visible c \<longleftrightarrow> 32 < code c \<and> code c < 128"

lemma space_not_visible: "w \<in> set spaces \<Longrightarrow> c \<in> set w \<Longrightarrow> \<not> visible c"
  by (auto simp: spaces_def code_def visible_def)

lemma TrimSpace_visible:
  assumes "s \<noteq> []" "visible (hd s)" "visible (last s)"
  shows "TrimSpace s = s"
proof (rule TrimSpace_id)
  show "clean_left s"
    using assms(1,2) space_nonempty space_not_visible
    by (fastforce simp: clean_left_def prefix_def neq_Nil_conv)
  show "clean_right s"
    using assms(1,3) space_nonempty space_not_visible
    by (fastforce simp: clean_right_def suffix_def last_append)
qed

end
