(* ===== verification/GoNum.thy ===== *)
theory GoNum
  imports GoStrings
begin

section \<open>Go numbers: \<open>strconv\<close>, \<open>math/big\<close> and \<open>float64\<close>\<close>

text \<open>
  What the server uses of \<open>strconv\<close> and \<open>math/big\<close>, written out from the Go 1.24
  standard library: decimal printing, \<open>ParseInt\<close>, \<open>ParseBool\<close>, the number scanner behind
  \<open>big.Int.SetString\<close> and \<open>big.Rat.SetString\<close> (base prefixes, separators, radix point,
  exponent), rationals in lowest terms, \<open>Rat.FloatString\<close>, and the exact values of
  \<open>float64\<close>. A \<open>big.Int\<close> is an \<open>int\<close>.
\<close>

subsection \<open>Decimal digits\<close>

definition digit :: "nat \<Rightarrow> char" where
  "digit d = char_of (48 + d)"

definition is_digit :: "char \<Rightarrow> bool" where
  "is_digit c \<longleftrightarrow> 48 \<le> code c \<and> code c \<le> 57"

definition digit_value :: "char \<Rightarrow> nat" where
  "digit_value c =
     (if 48 \<le> code c \<and> code c \<le> 57 then code c - 48
      else if 97 \<le> code c \<and> code c \<le> 122 then code c - 87
      else if 65 \<le> code c \<and> code c \<le> 90 then code c - 55
      else 63)"

fun dval :: "nat \<Rightarrow> string \<Rightarrow> nat" where
  "dval a [] = a"
| "dval a (c # cs) = dval (10 * a + digit_value c) cs"

lemma is_digit_digit [simp]: "d < 10 \<Longrightarrow> is_digit (digit d)"
  by (simp add: is_digit_def digit_def)

lemma digit_value_digit [simp]: "d < 10 \<Longrightarrow> digit_value (digit d) = d"
  by (simp add: digit_value_def digit_def)

lemma digit_value_less: "is_digit c \<Longrightarrow> digit_value c < 10"
  by (auto simp: digit_value_def is_digit_def)

lemma dval_append [simp]: "dval a (xs @ ys) = dval (dval a xs) ys"
  by (induction xs arbitrary: a) auto

lemma dval_acc: "dval a ds = 10 ^ length ds * a + dval 0 ds"
proof (induction ds arbitrary: a)
  case (Cons c cs)
  have "dval a (c # cs) = 10 ^ length cs * (10 * a + digit_value c) + dval 0 cs"
    unfolding dval.simps by (rule Cons.IH)
  also have "\<dots> = 10 ^ length (c # cs) * a + (10 ^ length cs * digit_value c + dval 0 cs)"
    by (simp add: algebra_simps)
  also have "10 ^ length cs * digit_value c + dval 0 cs = dval 0 (c # cs)"
    using Cons.IH [of "digit_value c"] by simp
  finally show ?case .
qed simp

lemma dval_zeros [simp]: "dval 0 (replicate n (CHR ''0'')) = 0"
  by (induction n) (auto simp: digit_value_def code_def)

lemma dval_less: "\<forall>c \<in> set ds. is_digit c \<Longrightarrow> dval 0 ds < 10 ^ length ds"
proof (induction ds rule: rev_induct)
  case (snoc c cs)
  then have "dval 0 cs < 10 ^ length cs" "digit_value c < 10"
    by (auto intro: digit_value_less)
  then show ?case by simp
qed simp

subsection \<open>Printing: \<open>big.Int.String\<close> and \<open>%d\<close>\<close>

fun utoa :: "nat \<Rightarrow> string" where
  "utoa n = (if n < 10 then [digit n] else utoa (n div 10) @ [digit (n mod 10)])"

declare utoa.simps [simp del]

definition itoa :: "int \<Rightarrow> string" where
  "itoa n = (if n < 0 then CHR ''-'' # utoa (nat (- n)) else utoa (nat n))"

lemma utoa_nonempty [simp]: "utoa n \<noteq> []"
  by (subst utoa.simps) simp

lemma utoa_digits: "c \<in> set (utoa n) \<Longrightarrow> is_digit c"
proof (induction n rule: utoa.induct)
  case (1 n)
  then show ?case
    by (cases "n < 10") (auto simp: utoa.simps [of n])
qed

lemma dval_utoa [simp]: "dval 0 (utoa n) = n"
proof (induction n rule: utoa.induct)
  case (1 n)
  then show ?case
    by (cases "n < 10") (auto simp: utoa.simps [of n])
qed

lemma length_utoa: "n < 10 ^ k \<Longrightarrow> 0 < k \<Longrightarrow> length (utoa n) \<le> k"
proof (induction n arbitrary: k rule: utoa.induct)
  case (1 n)
  show ?case
  proof (cases "n < 10")
    case False
    then obtain j where j: "k = Suc j" "0 < j"
      using "1.prems" by (cases k; cases "k - 1") auto
    then have "n div 10 < 10 ^ j" using "1.prems" by auto
    with "1.IH" [OF False, of j] j False show ?thesis by (simp add: utoa.simps [of n])
  qed (use "1.prems" in \<open>simp add: utoa.simps [of n]\<close>)
qed

lemma utoa_0 [simp]: "utoa 0 = ''0''"
  by code_simp

lemma utoa_inject [simp]: "utoa m = utoa n \<longleftrightarrow> m = n"
  by (metis dval_utoa)

subsection \<open>\<open>strconv.ParseInt(s, 10, 64)\<close>, \<open>strconv.Atoi\<close> and \<open>strconv.ParseBool\<close>\<close>

text \<open>\<open>None\<close> is the \<open>*NumError\<close>, whether for syntax or for range.\<close>

definition ParseInt :: "string \<Rightarrow> int option" where
  "ParseInt s =
     (let neg = (case s of c # _ \<Rightarrow> c = CHR ''-'' | [] \<Rightarrow> False);
          ds = (case s of c # r \<Rightarrow> if c = CHR ''-'' \<or> c = CHR ''+'' then r else s | [] \<Rightarrow> s);
          n = int (dval 0 ds)
      in if ds = [] \<or> \<not> list_all is_digit ds then None
         else if \<not> neg \<and> 2 ^ 63 \<le> n \<or> neg \<and> 2 ^ 63 < n then None
         else Some (if neg then - n else n))"

definition ParseBool :: "string \<Rightarrow> bool option" where
  "ParseBool s =
     (if s \<in> {''1'', ''t'', ''T'', ''TRUE'', ''true'', ''True''} then Some True
      else if s \<in> {''0'', ''f'', ''F'', ''FALSE'', ''false'', ''False''} then Some False
      else None)"

lemma ParseInt_range: "ParseInt s = Some n \<Longrightarrow> int64_range n"
  by (auto simp: ParseInt_def Let_def int64_range_def split: if_splits)

lemma hd_utoa_digit: "utoa n = c # r \<Longrightarrow> is_digit c"
  using utoa_digits [of c n] by simp

lemma ParseInt_itoa: "int64_range n \<Longrightarrow> ParseInt (itoa n) = Some n"
proof -
  assume r: "int64_range n"
  obtain c cs where u: "utoa (nat \<bar>n\<bar>) = c # cs" by (meson utoa_nonempty neq_Nil_conv)
  then have c: "is_digit c" by (rule hd_utoa_digit)
  then have ns: "c \<noteq> CHR ''-''" "c \<noteq> CHR ''+''" by (auto simp: is_digit_def code_def)
  have all: "list_all is_digit (c # cs)"
    using utoa_digits [of _ "nat \<bar>n\<bar>"] u by (auto simp: list_all_iff)
  have v: "dval 0 (c # cs) = nat \<bar>n\<bar>" using dval_utoa [of "nat \<bar>n\<bar>"] u by simp
  show ?thesis
    using r u ns all v by (cases "n < 0") (auto simp: ParseInt_def itoa_def Let_def int64_range_def)
qed

subsection \<open>The number scanner \<open>nat.scan\<close>\<close>

text \<open>
  \<open>sc_prev\<close> is the class of the last byte: an underscore (\<open>Sep\<close>), a digit (\<open>Digit\<close>) or
  anything else; \<open>sc_dp\<close> is the number of digits before the radix point, once one was read. The
  loop stops at the first byte that is no digit of base \<open>b\<close>; \<open>sep\<close> says that underscores
  are accepted (the base argument was 0).
\<close>

datatype mark = Other | Digit | Sep

record scan =
  sc_frac :: bool
  sc_prev :: mark
  sc_inval :: bool
  sc_cnt :: nat
  sc_dp :: "nat option"
  sc_acc :: nat

fun scan_digits :: "nat \<Rightarrow> bool \<Rightarrow> scan \<Rightarrow> string \<Rightarrow> scan \<times> string" where
  "scan_digits b sep st [] = (st, [])"
| "scan_digits b sep st (ch # r) =
     (if ch = CHR ''.'' \<and> sc_frac st then
        scan_digits b sep
          (st\<lparr>sc_frac := False, sc_inval := sc_inval st \<or> sc_prev st = Sep, sc_prev := Other,
              sc_dp := Some (sc_cnt st)\<rparr>) r
      else if ch = CHR ''_'' \<and> sep then
        scan_digits b sep (st\<lparr>sc_inval := sc_inval st \<or> sc_prev st \<noteq> Digit, sc_prev := Sep\<rparr>) r
      else if b \<le> digit_value ch then (st, ch # r)
      else scan_digits b sep
             (st\<lparr>sc_prev := Digit, sc_cnt := sc_cnt st + 1, sc_acc := b * sc_acc st + digit_value ch\<rparr>) r)"

declare scan_digits.simps(2) [simp del]

text \<open>
  The base prefix, for base argument 0: the base, whether the prefix was a bare \<open>0\<close> (octal), the
  digits already counted, the class of the last byte and the bytes left.
\<close>

definition scan_prefix :: "bool \<Rightarrow> bool \<Rightarrow> string \<Rightarrow> nat \<times> bool \<times> nat \<times> mark \<times> string" where
  "scan_prefix base0 fracOk s =
     (case s of
        [] \<Rightarrow> (10, False, 0, Other, s)
      | c # r \<Rightarrow>
          if base0 \<and> c = CHR ''0'' then
            (case r of
               [] \<Rightarrow> (10, False, 1, Digit, r)
             | d # r' \<Rightarrow>
                 if d \<in> {CHR ''b'', CHR ''B''} then (2, False, 0, Digit, r')
                 else if d \<in> {CHR ''o'', CHR ''O''} then (8, False, 0, Digit, r')
                 else if d \<in> {CHR ''x'', CHR ''X''} then (16, False, 0, Digit, r')
                 else if \<not> fracOk then (8, True, 0, Digit, r)
                 else (10, False, 1, Digit, r))
          else (10, False, 0, Other, s))"

text \<open>\<open>nat.scan(r, base, fracOk)\<close> for base 0 or 10: value, base, digit count and the rest.\<close>

definition nat_scan :: "bool \<Rightarrow> bool \<Rightarrow> string \<Rightarrow> ((nat \<times> nat \<times> int) \<times> string) option" where
  "nat_scan base0 fracOk s =
     (case scan_prefix base0 fracOk s of (b, octal, n0, p0, r) \<Rightarrow>
        case scan_digits b base0
            \<lparr>sc_frac = fracOk, sc_prev = p0, sc_inval = False, sc_cnt = n0, sc_dp = None, sc_acc = 0\<rparr> r of
          (st, rest) \<Rightarrow>
            if sc_inval st \<or> sc_prev st = Sep then None
            else if sc_cnt st = 0 then (if octal then Some ((0, 10, 1), rest) else None)
            else Some ((sc_acc st, b, case sc_dp st of None \<Rightarrow> int (sc_cnt st) | Some d \<Rightarrow> int d - int (sc_cnt st)),
                       rest))"

text \<open>\<open>scanSign\<close> fails on the empty string.\<close>

definition scan_sign :: "string \<Rightarrow> (bool \<times> string) option" where
  "scan_sign s =
     (case s of
        [] \<Rightarrow> None
      | c # r \<Rightarrow>
          Some (if c = CHR ''-'' then (True, r)
                else if c = CHR ''+'' then (False, r) else (False, s)))"

text \<open>\<open>big.Int.SetString(s, base)\<close>, for base 0 or 10; the whole string must be consumed.\<close>

definition int_SetString :: "bool \<Rightarrow> string \<Rightarrow> int option" where
  "int_SetString base0 s =
     (case scan_sign s of
        None \<Rightarrow> None
      | Some (neg, r) \<Rightarrow>
          (case nat_scan base0 False r of
             Some ((v, _, _), []) \<Rightarrow> Some (if neg then - int v else int v)
           | _ \<Rightarrow> None))"

subsection \<open>Scanning plain decimals\<close>

lemma scan_digits_decimal:
  "\<forall>c \<in> set ds. is_digit c \<Longrightarrow>
   scan_digits 10 sep st (ds @ r) =
   scan_digits 10 sep
     (st\<lparr>sc_prev := if ds = [] then sc_prev st else Digit, sc_cnt := sc_cnt st + length ds,
         sc_acc := dval (sc_acc st) ds\<rparr>) r"
proof (induction ds arbitrary: st)
  case (Cons c cs)
  then have "is_digit c" by simp
  then have "digit_value c < 10" "c \<noteq> CHR ''.''" "c \<noteq> CHR ''_''"
    by (auto simp: digit_value_less is_digit_def code_def)
  with Cons show ?case by (simp add: Cons.IH scan_digits.simps(2))
qed simp

text \<open>
  A leading \<open>0\<close> is a plain digit unless a base letter follows (where a radix point is allowed),
  so the prefix scan leaves the loop in a state from which the whole decimal is read.
\<close>

lemma scan_prefix_decimal:
  assumes "is_digit c" "\<forall>x \<in> set cs. is_digit x" "r = [] \<or> hd r = CHR ''.''"
  shows "scan_prefix True True (c # cs @ r) =
     (if c = CHR ''0'' then (10, False, 1, Digit, cs @ r) else (10, False, 0, Other, c # cs @ r))"
proof (cases "cs @ r")
  case (Cons d r')
  then have "is_digit d \<or> d = CHR ''.''"
    using assms(2,3) by (cases cs) auto
  then have "d \<notin> {CHR ''b'', CHR ''B''}" "d \<notin> {CHR ''o'', CHR ''O''}" "d \<notin> {CHR ''x'', CHR ''X''}"
    by (auto simp: is_digit_def code_def)
  with Cons show ?thesis by (simp add: scan_prefix_def)
qed (simp add: scan_prefix_def)

lemma scan_digits_start:
  assumes ds: "ds \<noteq> []" "\<forall>c \<in> set ds. is_digit c" and r: "r = [] \<or> hd r = CHR ''.''"
  obtains n0 p0 r0 where "scan_prefix True True (ds @ r) = (10, False, n0, p0, r0)"
    "scan_digits 10 True
       \<lparr>sc_frac = True, sc_prev = p0, sc_inval = False, sc_cnt = n0, sc_dp = None, sc_acc = 0\<rparr> r0 =
     scan_digits 10 True
       \<lparr>sc_frac = True, sc_prev = Digit, sc_inval = False, sc_cnt = length ds, sc_dp = None,
        sc_acc = dval 0 ds\<rparr> r"
proof -
  obtain c cs where d: "ds = c # cs" using ds(1) by (cases ds) auto
  have c: "is_digit c" "\<forall>x \<in> set cs. is_digit x" using ds(2) d by auto
  note pre = scan_prefix_decimal [OF c r]
  show thesis
  proof (cases "c = CHR ''0''")
    case True
    then have "digit_value c = 0" by (simp add: digit_value_def code_def)
    with True pre d c that [of 1 Digit "cs @ r"] show ?thesis
      by (simp add: scan_digits_decimal)
  next
    case False
    show ?thesis
    proof (rule that)
      show "scan_prefix True True (ds @ r) = (10, False, 0, Other, ds @ r)"
        using pre False by (simp add: d)
    qed (use ds(1) in \<open>simp add: scan_digits_decimal [OF ds(2)]\<close>)
  qed
qed

lemma nat_scan_decimal:
  assumes ds: "ds \<noteq> []" "\<forall>c \<in> set ds. is_digit c" and fs: "\<forall>c \<in> set fs. is_digit c"
  shows "nat_scan True True (ds @ CHR ''.'' # fs) =
           Some ((dval 0 (ds @ fs), 10, - int (length fs)), [])"
    and "nat_scan True True ds = Some ((dval 0 ds, 10, int (length ds)), [])"
proof -
  obtain n0 p0 r0 where
    "scan_prefix True True (ds @ CHR ''.'' # fs) = (10, False, n0, p0, r0)"
    "scan_digits 10 True
       \<lparr>sc_frac = True, sc_prev = p0, sc_inval = False, sc_cnt = n0, sc_dp = None, sc_acc = 0\<rparr> r0 =
     scan_digits 10 True
       \<lparr>sc_frac = True, sc_prev = Digit, sc_inval = False, sc_cnt = length ds, sc_dp = None,
        sc_acc = dval 0 ds\<rparr> (CHR ''.'' # fs)"
    by (rule scan_digits_start [OF ds, of "CHR ''.'' # fs"]) auto
  then show "nat_scan True True (ds @ CHR ''.'' # fs) =
           Some ((dval 0 (ds @ fs), 10, - int (length fs)), [])"
    using ds(1) scan_digits_decimal [OF fs, of True _ "[]"]
    by (simp add: nat_scan_def scan_digits.simps(2))
  obtain n0 p0 r0 where
    "scan_prefix True True (ds @ []) = (10, False, n0, p0, r0)"
    "scan_digits 10 True
       \<lparr>sc_frac = True, sc_prev = p0, sc_inval = False, sc_cnt = n0, sc_dp = None, sc_acc = 0\<rparr> r0 =
     scan_digits 10 True
       \<lparr>sc_frac = True, sc_prev = Digit, sc_inval = False, sc_cnt = length ds, sc_dp = None,
        sc_acc = dval 0 ds\<rparr> []"
    by (rule scan_digits_start [OF ds, of "[]"]) auto
  then show "nat_scan True True ds = Some ((dval 0 ds, 10, int (length ds)), [])"
    using ds(1) by (simp add: nat_scan_def)
qed

lemma nat_scan_base10:
  assumes ds: "ds \<noteq> []" "\<forall>c \<in> set ds. is_digit c"
  shows "nat_scan False False ds = Some ((dval 0 ds, 10, int (length ds)), [])"
proof -
  have "scan_prefix False False ds = (10, False, 0, Other, ds)"
    using ds(1) by (cases ds) (auto simp: scan_prefix_def)
  then show ?thesis
    using ds(1) scan_digits_decimal [OF ds(2), of False _ "[]"] by (simp add: nat_scan_def)
qed

lemma scan_sign_digit: "is_digit c \<Longrightarrow> scan_sign (c # r) = Some (False, c # r)"
  by (auto simp: scan_sign_def is_digit_def code_def)

lemma scan_sign_utoa [simp]: "scan_sign (utoa n) = Some (False, utoa n)"
proof -
  obtain c cs where "utoa n = c # cs" by (meson utoa_nonempty neq_Nil_conv)
  then show ?thesis using hd_utoa_digit [of n c cs] by (simp add: scan_sign_digit)
qed

text \<open>\<open>SetString(x.String(), 10)\<close> gives \<open>x\<close> back.\<close>

lemma nat_scan_utoa [simp]: "nat_scan False False (utoa n) = Some ((n, 10, int (length (utoa n))), [])"
  by (subst nat_scan_base10) (auto intro: utoa_digits)

lemma int_SetString_itoa [simp]: "int_SetString False (itoa n) = Some n"
proof (cases "n < 0")
  case True
  have "scan_sign (CHR ''-'' # utoa (nat (- n))) = Some (True, utoa (nat (- n)))"
    by (simp add: scan_sign_def)
  with True show ?thesis by (simp add: int_SetString_def itoa_def)
qed (simp add: int_SetString_def itoa_def)

end
