(* ===== verification/GoRat.thy ===== *)
theory GoRat
  imports GoNum
begin

section \<open>\<open>big.Rat\<close> and \<open>float64\<close> values\<close>

text \<open>
  A \<open>big.Rat\<close> is a numerator and a positive denominator in lowest terms; every operation ends in
  \<open>norm\<close>, which divides by the greatest common divisor. \<open>rval\<close> is the rational number it
  stands for. \<open>SetString\<close> and \<open>FloatString\<close> follow the library's code step by step.
\<close>

subsection \<open>Normalised fractions\<close>

datatype brat = BRat (Num: int) (Denom: int)

definition brat_norm :: "int \<Rightarrow> int \<Rightarrow> brat" where
  "brat_norm a b = (let g = gcd a b in BRat (a div g) (b div g))"

definition brat_wf :: "brat \<Rightarrow> bool" where
  "brat_wf r \<longleftrightarrow> 0 < Denom r \<and> coprime (Num r) (Denom r)"

definition rval :: "brat \<Rightarrow> rat" where
  "rval r = of_int (Num r) / of_int (Denom r)"

definition brat_of_int :: "int \<Rightarrow> brat" where
  "brat_of_int n = BRat n 1"

definition brat_mul :: "brat \<Rightarrow> brat \<Rightarrow> brat" where
  "brat_mul x y = brat_norm (Num x * Num y) (Denom x * Denom y)"

definition IsInt :: "brat \<Rightarrow> bool" where
  "IsInt r \<longleftrightarrow> Denom r = 1"

lemma brat_norm_wf [simp]: "0 < b \<Longrightarrow> brat_wf (brat_norm a b)"
  by (auto simp: brat_norm_def brat_wf_def Let_def pos_imp_zdiv_pos_iff zdvd_imp_le
      intro!: div_gcd_coprime)

lemma rval_norm: "0 < b \<Longrightarrow> rval (brat_norm a b) = of_int a / of_int b"
proof -
  assume b: "0 < b"
  then have g: "gcd a b \<noteq> 0" by simp
  have "rval (brat_norm a b) =
      (of_int (a div gcd a b) * of_int (gcd a b)) / (of_int (b div gcd a b) * of_int (gcd a b))"
    using g by (simp add: rval_def brat_norm_def Let_def)
  also have "\<dots> = of_int a / of_int b"
    by (simp flip: of_int_mult)
  finally show ?thesis .
qed

lemma brat_of_int_wf [simp]: "brat_wf (brat_of_int n)"
  by (simp add: brat_of_int_def brat_wf_def)

lemma rval_of_int [simp]: "rval (brat_of_int n) = of_int n"
  by (simp add: brat_of_int_def rval_def)

lemma rval_inject: "brat_wf x \<Longrightarrow> brat_wf y \<Longrightarrow> rval x = rval y \<longleftrightarrow> x = y"
proof
  assume wf: "brat_wf x" "brat_wf y" and eq: "rval x = rval y"
  have q: "quotient_of (rval z) = (Num z, Denom z)" if "brat_wf z" for z
    using that by (simp add: rval_def brat_wf_def quotient_of_Fract normalize_def flip: Fract_of_int_quotient)
  show "x = y"
    using q [OF wf(1)] q [OF wf(2)] eq by (auto intro: brat.expand)
qed simp

lemma brat_mul_wf [simp]: "brat_wf x \<Longrightarrow> brat_wf y \<Longrightarrow> brat_wf (brat_mul x y)"
  by (simp add: brat_mul_def brat_wf_def [of x] brat_wf_def [of y])

lemma rval_mul: "brat_wf x \<Longrightarrow> brat_wf y \<Longrightarrow> rval (brat_mul x y) = rval x * rval y"
  by (simp add: brat_mul_def rval_norm brat_wf_def) (simp add: rval_def)

lemma rval_pos_iff: "brat_wf r \<Longrightarrow> 0 < rval r \<longleftrightarrow> 0 < Num r"
  by (simp add: rval_def brat_wf_def zero_less_divide_iff)

lemma rval_nonneg_iff: "brat_wf r \<Longrightarrow> 0 \<le> rval r \<longleftrightarrow> 0 \<le> Num r"
  by (simp add: rval_def brat_wf_def zero_le_divide_iff)

lemma IsInt_iff: "brat_wf r \<Longrightarrow> IsInt r \<longleftrightarrow> rval r \<in> \<int>"
proof
  assume wf: "brat_wf r" and "rval r \<in> \<int>"
  then obtain n where "rval r = of_int n" by (auto elim: Ints_cases)
  then have "r = brat_of_int n" using rval_inject [OF wf, of "brat_of_int n"] by simp
  then show "IsInt r" by (simp add: IsInt_def brat_of_int_def)
qed (simp add: IsInt_def rval_def)

lemma brat_norm_mul_int: "0 < b \<Longrightarrow> brat_mul (brat_norm a b) (brat_of_int c) = brat_norm (a * c) b"
  by (subst rval_inject [symmetric]) (simp_all add: rval_mul rval_norm)

lemma brat_norm_int: "0 < b \<Longrightarrow> brat_norm (a * b) b = brat_of_int a"
  by (subst rval_inject [symmetric]) (simp_all add: rval_norm)

subsection \<open>\<open>Rat.SetString\<close>\<close>

text \<open>The exponent loop of \<open>scanExponent\<close>: digits read so far, last byte class, bad separator.\<close>

fun scan_exp_digits :: "string \<Rightarrow> mark \<Rightarrow> bool \<Rightarrow> string \<Rightarrow> string \<times> mark \<times> bool \<times> string" where
  "scan_exp_digits ds p inval [] = (ds, p, inval, [])"
| "scan_exp_digits ds p inval (ch # r) =
     (if is_digit ch then scan_exp_digits (ds @ [ch]) Digit inval r
      else if ch = CHR ''_'' then scan_exp_digits ds Sep (inval \<or> p \<noteq> Digit) r
      else (ds, p, inval, ch # r))"

text \<open>\<open>scanExponent(r, true, true)\<close>: exponent and its base, and the rest of the string.\<close>

definition scan_exponent :: "string \<Rightarrow> ((int \<times> nat) \<times> string) option" where
  "scan_exponent s =
     (case s of
        [] \<Rightarrow> Some ((0, 10), [])
      | ch # r \<Rightarrow>
          if ch \<notin> {CHR ''e'', CHR ''E'', CHR ''p'', CHR ''P''} then Some ((0, 10), s)
          else
            (let base = (if ch \<in> {CHR ''e'', CHR ''E''} then 10 else 2);
                 neg = (r \<noteq> [] \<and> hd r = CHR ''-'');
                 r' = (if r \<noteq> [] \<and> hd r \<in> {CHR ''+'', CHR ''-''} then tl r else r)
             in case scan_exp_digits [] Other False r' of (ds, p, inval, rest) \<Rightarrow>
               if ds = [] then None
               else case ParseInt ((if neg then ''-'' else '''') @ ds) of
                      None \<Rightarrow> None
                    | Some e \<Rightarrow> if inval \<or> p = Sep then None else Some ((e, base), rest)))"

text \<open>
  Scaling the mantissa by the powers of 5 and 2; excessive exponents are refused. The library adds
  exponents in \<open>int64\<close>: a sum that wraps is refused by the same bounds, so it is exact here.
\<close>

definition rat_scale :: "bool \<Rightarrow> nat \<Rightarrow> int \<Rightarrow> int \<Rightarrow> brat option" where
  "rat_scale neg m exp5 exp2 =
     (if 10 ^ 6 < \<bar>exp5\<bar> \<or> 10 ^ 7 < \<bar>exp2\<bar> then None
      else
        let a = int m * 5 ^ nat exp5 * 2 ^ nat exp2;
            b = 5 ^ nat (- exp5) * 2 ^ nat (- exp2)
        in Some (brat_norm (if neg then - a else a) b))"

definition rat_SetString :: "string \<Rightarrow> brat option" where
  "rat_SetString s =
     (if CHR ''/'' \<in> set s then
        (case (int_SetString True (takeWhile (\<lambda>c. c \<noteq> CHR ''/'') s),
               nat_scan True False (tl (dropWhile (\<lambda>c. c \<noteq> CHR ''/'') s))) of
           (Some a, Some ((b, _, _), [])) \<Rightarrow> if b = 0 then None else Some (brat_norm a (int b))
         | _ \<Rightarrow> None)
      else
        case scan_sign s of
          None \<Rightarrow> None
        | Some (neg, r) \<Rightarrow>
            case nat_scan True True r of
              None \<Rightarrow> None
            | Some ((m, base, fcount), r') \<Rightarrow>
                case scan_exponent r' of
                  Some ((e, ebase), []) \<Rightarrow>
                    if m = 0 then Some (BRat 0 1)
                    else
                      let d = (if fcount < 0 then fcount else 0);
                          exp5 = (if base = 10 then d else 0) + (if ebase = 10 then e else 0);
                          exp2 = (if base = 8 then 3 * d else if base = 16 then 4 * d else d) + e
                      in rat_scale neg m exp5 exp2
                | _ \<Rightarrow> None)"

lemma rat_scale_wf: "rat_scale neg m e5 e2 = Some r \<Longrightarrow> brat_wf r"
  by (auto simp: rat_scale_def Let_def split: if_splits)

lemma rat_SetString_wf: "rat_SetString s = Some r \<Longrightarrow> brat_wf r"
  by (auto simp: rat_SetString_def Let_def brat_wf_def [of "BRat 0 1"] split: if_splits option.splits
      prod.splits list.splits dest: rat_scale_wf)

text \<open>A plain decimal \<open>ds.fs\<close> is read exactly.\<close>

lemma rat_SetString_decimal:
  assumes ds: "ds \<noteq> []" "\<forall>c \<in> set ds. is_digit c"
    and fs: "\<forall>c \<in> set fs. is_digit c" "length fs \<le> 10 ^ 6"
  shows "rat_SetString (ds @ CHR ''.'' # fs) = Some (brat_norm (int (dval 0 (ds @ fs))) (10 ^ length fs))"
    and "rat_SetString ds = Some (brat_of_int (int (dval 0 ds)))"
proof -
  have dig: "CHR ''/'' \<notin> set xs" if "\<forall>c \<in> set xs. is_digit c" for xs
    using that by (auto simp: is_digit_def code_def)
  obtain c cs where d: "ds = c # cs" "is_digit c" using ds by (cases ds) auto
  let ?s = "ds @ CHR ''.'' # fs"
  have sgn: "scan_sign ?s = Some (False, ?s)" "scan_sign ds = Some (False, ds)"
    using d by (simp_all add: scan_sign_digit)
  show "rat_SetString ?s = Some (brat_norm (int (dval 0 (ds @ fs))) (10 ^ length fs))"
  proof (cases "dval 0 (ds @ fs) = 0")
    case True
    then show ?thesis
      using dig [OF ds(2)] dig [OF fs(1)] sgn nat_scan_decimal(1) [OF ds fs(1)]
      by (simp add: rat_SetString_def scan_exponent_def brat_norm_def)
  next
    case False
    have "(5::int) ^ length fs * 2 ^ length fs = 10 ^ length fs"
      by (simp flip: power_mult_distrib)
    then show ?thesis
      using dig [OF ds(2)] dig [OF fs(1)] sgn nat_scan_decimal(1) [OF ds fs(1)] False fs(2)
      by (simp add: rat_SetString_def scan_exponent_def rat_scale_def Let_def)
  qed
  show "rat_SetString ds = Some (brat_of_int (int (dval 0 ds)))"
    using dig [OF ds(2)] sgn nat_scan_decimal(2) [OF ds fs(1)]
    by (simp add: rat_SetString_def scan_exponent_def rat_scale_def brat_of_int_def brat_norm_def)
qed

subsection \<open>\<open>Rat.FloatString\<close>\<close>

definition zeros :: "nat \<Rightarrow> string" where
  "zeros n = replicate n (CHR ''0'')"

text \<open>Rounding is to the nearest multiple of \<open>10 ^ - prec\<close>, halves away from zero.\<close>

definition FloatString :: "brat \<Rightarrow> nat \<Rightarrow> string" where
  "FloatString x prec =
     (if IsInt x then itoa (Num x) @ (if 0 < prec then CHR ''.'' # zeros prec else [])
      else
        let a = nat \<bar>Num x\<bar>; b = nat (Denom x);
            p = 10 ^ prec;
            q = a div b; r = (a mod b) * p div b; r2 = (a mod b) * p mod b;
            (q, r) = (if b \<le> r2 + r2
                      then if p \<le> r + 1 then (q + 1, r + 1 - p) else (q, r + 1)
                      else (q, r));
            rs = utoa r
        in (if Num x < 0 then ''-'' else '''') @ utoa q
           @ (if 0 < prec then CHR ''.'' # zeros (prec - length rs) @ rs else []))"

text \<open>
  The digits of \<open>n\<close> with the point \<open>prec\<close> places from the right: what a fixed-point printer
  would give.
\<close>

definition fixed :: "nat \<Rightarrow> nat \<Rightarrow> string" where
  "fixed prec n =
     utoa (n div 10 ^ prec) @ CHR ''.'' #
     zeros (prec - length (utoa (n mod 10 ^ prec))) @ utoa (n mod 10 ^ prec)"

lemma zeros_digits [simp]: "c \<in> set (zeros n) \<Longrightarrow> is_digit c"
  by (auto simp: zeros_def is_digit_def code_def)

lemma dval_zeros_append [simp]: "dval 0 (zeros n @ s) = dval 0 s"
  by (simp add: zeros_def)

lemma length_zeros [simp]: "length (zeros n) = n"
  by (simp add: zeros_def)

lemma length_frac:
  "0 < prec \<Longrightarrow> length (zeros (prec - length (utoa (n mod 10 ^ prec))) @ utoa (n mod 10 ^ prec)) = prec"
  using length_utoa [of "n mod 10 ^ prec" prec] by simp

lemma length_fixed_frac:
  assumes "0 < prec"
  shows "dval 0 (utoa (n div 10 ^ prec) @ zeros (prec - length (utoa (n mod 10 ^ prec))) @
           utoa (n mod 10 ^ prec)) = n"
proof -
  let ?fs = "zeros (prec - length (utoa (n mod 10 ^ prec))) @ utoa (n mod 10 ^ prec)"
  have "dval 0 (utoa (n div 10 ^ prec) @ ?fs) = dval (n div 10 ^ prec) ?fs"
    by simp
  also have "\<dots> = 10 ^ length ?fs * (n div 10 ^ prec) + dval 0 ?fs"
    by (rule dval_acc)
  also have "dval 0 ?fs = n mod 10 ^ prec"
    by (simp only: dval_zeros_append dval_utoa)
  also have "length ?fs = prec"
    using assms by (rule length_frac)
  finally show ?thesis by simp
qed

text \<open>Reading back a fixed-point numeral gives the number of units over the scale.\<close>

lemma rat_SetString_fixed:
  assumes "0 < prec" "prec \<le> 10 ^ 6"
  shows "rat_SetString (fixed prec n) = Some (brat_norm (int n) (10 ^ prec))"
proof -
  let ?fs = "zeros (prec - length (utoa (n mod 10 ^ prec))) @ utoa (n mod 10 ^ prec)"
  have "\<forall>c \<in> set (utoa (n div 10 ^ prec)). is_digit c" by (auto intro: utoa_digits)
  moreover have "\<forall>c \<in> set ?fs. is_digit c" by (auto intro: utoa_digits)
  ultimately show ?thesis
    using rat_SetString_decimal(1) [of "utoa (n div 10 ^ prec)" ?fs]
      length_fixed_frac [OF assms(1), of n] length_frac [OF assms(1), of n] assms(2)
    by (simp add: fixed_def)
qed

lemma itoa_div_dvd:
  assumes "B dvd n" "0 < B"
  shows "itoa (n div B) = (if n < 0 then ''-'' else '''') @ utoa (nat \<bar>n\<bar> div nat B)"
proof -
  obtain k where k: "n = B * k" using assms(1) by auto
  then have "nat \<bar>n\<bar> div nat B = nat \<bar>k\<bar>" "n < 0 \<longleftrightarrow> k < 0"
    using assms(2) by (simp_all add: abs_mult nat_mult_distrib mult_less_0_iff)
  then show ?thesis using k assms(2) by (simp add: itoa_def)
qed

text \<open>
  A number of units over a power of ten is printed without rounding: the general routine is the
  fixed-point printer there.
\<close>

lemma FloatString_norm:
  assumes prec: "0 < prec"
  shows "FloatString (brat_norm n (10 ^ prec)) prec =
     (if n < 0 then ''-'' else '''') @ fixed prec (nat \<bar>n\<bar>)"
proof -
  define B :: int where "B = 10 ^ prec"
  define g where "g = gcd n B"
  have B: "0 < B" by (simp add: B_def)
  have g: "0 < g" using B by (simp add: g_def)
  obtain a' b where ab: "n = g * a'" "B = g * b"
    by (metis dvdE g_def gcd_dvd1 gcd_dvd2)
  have b: "0 < b" using ab(2) B g by (metis zero_less_mult_pos)
  have x: "brat_norm n B = BRat a' b"
  proof -
    have "n div g = a'" "B div g = b" using g by (simp_all add: ab)
    then show ?thesis by (simp add: brat_norm_def Let_def flip: g_def)
  qed
  have nB: "nat B = 10 ^ prec" by (simp add: B_def nat_power_eq)
  have na: "nat \<bar>n\<bar> = nat g * nat \<bar>a'\<bar>" "nat B = nat g * nat b"
    using ab g by (simp_all add: abs_mult nat_mult_distrib)
  show ?thesis
  proof (cases "b = 1")
    case True
    then have "B dvd n" using ab by simp
    then have d: "nat B dvd nat \<bar>n\<bar>" using na True by simp
    have "a' = n div B" using ab g True by simp
    moreover have "zeros (prec - Suc 0) @ ''0'' = zeros prec"
      using prec by (cases prec) (simp_all add: zeros_def replicate_append_same)
    ultimately show ?thesis
      using itoa_div_dvd [OF \<open>B dvd n\<close> B] d prec x True
      by (simp add: FloatString_def IsInt_def fixed_def nB mod_eq_0_iff_dvd
          flip: B_def)
  next
    case False
    have q: "nat \<bar>a'\<bar> div nat b = nat \<bar>n\<bar> div nat B"
      using na g by simp
    have r: "(nat \<bar>a'\<bar> mod nat b) * nat B div nat b = nat \<bar>n\<bar> mod nat B"
    proof -
      have "(nat \<bar>a'\<bar> mod nat b) * nat B = (nat g * (nat \<bar>a'\<bar> mod nat b)) * nat b"
        unfolding na(2) by (simp only: mult.assoc mult.commute mult.left_commute)
      moreover have "nat b \<noteq> 0" using b by simp
      ultimately have "(nat \<bar>a'\<bar> mod nat b) * nat B div nat b = nat g * (nat \<bar>a'\<bar> mod nat b)"
        by (metis nonzero_mult_div_cancel_right)
      then show ?thesis by (simp only: na mult_mod_right)
    qed
    have r2: "(nat \<bar>a'\<bar> mod nat b) * nat B mod nat b = 0"
      using na by simp
    have s: "a' < 0 \<longleftrightarrow> n < 0" using ab g by (simp add: mult_less_0_iff)
    show ?thesis
      using False b prec x q r r2 s
      by (simp add: FloatString_def IsInt_def fixed_def nB Let_def flip: B_def)
  qed
qed

subsection \<open>\<open>float64\<close>\<close>

text \<open>
  The value of a \<open>float64\<close>: a finite one is the exact rational it stands for (the sign of zero
  does not matter here), otherwise an infinity (\<open>Inf True\<close> is the negative one) or \<open>NaN\<close>.
  Comparisons with \<open>NaN\<close> are false.
\<close>

datatype f64 = Fin brat | Inf bool | NaN

fun f64_pos :: "f64 \<Rightarrow> bool" where
  "f64_pos (Fin r) = (0 < Num r)"
| "f64_pos (Inf neg) = (\<not> neg)"
| "f64_pos NaN = False"

fun f64_le_zero :: "f64 \<Rightarrow> bool" where
  "f64_le_zero (Fin r) = (Num r \<le> 0)"
| "f64_le_zero (Inf neg) = neg"
| "f64_le_zero NaN = False"

definition f64_one :: f64 where
  "f64_one = Fin (BRat 1 1)"

fun f64_wf :: "f64 \<Rightarrow> bool" where
  "f64_wf (Fin r) = brat_wf r"
| "f64_wf _ = True"

text \<open>\<open>Rat.SetFloat64\<close>: the exact value, or nil for a value that is not finite.\<close>

fun SetFloat64 :: "f64 \<Rightarrow> brat option" where
  "SetFloat64 (Fin r) = Some r"
| "SetFloat64 _ = None"

end
