(* ===== verification/GoFloat.thy ===== *)
theory GoFloat
  imports GoRat
begin

section \<open>Reading and printing \<open>float64\<close>\<close>

text \<open>
  \<open>strconv.ParseFloat(s, 64)\<close> and \<open>strconv.FormatFloat(x, 'f', -1, 64)\<close>. Reading scans the Go
  literal into an exact fraction and rounds it to the nearest double, ties to even; an overflow is
  an error. Printing gives the shortest decimal that reads back as the same double.
  \<open>ParseFloat_FormatFloat\<close> is the round trip.
\<close>

subsection \<open>Rounding a fraction to a double\<close>

fun bitlen :: "nat \<Rightarrow> nat" where
  "bitlen n = (if n = 0 then 0 else Suc (bitlen (n div 2)))"

declare bitlen.simps [simp del]

text \<open>\<open>n / d\<close> in units of \<open>2 ^ e\<close>, as a fraction.\<close>

definition scale2 :: "nat \<Rightarrow> nat \<Rightarrow> int \<Rightarrow> nat \<times> nat" where
  "scale2 n d e = (if 0 \<le> e then (n, d * 2 ^ nat e) else (n * 2 ^ nat (- e), d))"

definition units :: "nat \<Rightarrow> nat \<Rightarrow> int \<Rightarrow> nat" where
  "units n d e = (case scale2 n d e of (a, b) \<Rightarrow> a div b)"

text \<open>The exponent of the last bit kept: 53 significant bits, but never below \<open>2 ^ -1074\<close>.\<close>

definition round_exp :: "nat \<Rightarrow> nat \<Rightarrow> int" where
  "round_exp n d =
     (let e = max (int (bitlen n) - int (bitlen d) - 53) (- 1074)
      in if 2 ^ 53 \<le> units n d e then e + 1 else e)"

definition half_even :: "nat \<Rightarrow> nat \<Rightarrow> nat" where
  "half_even a b =
     (let q = a div b; r = a mod b in if b < 2 * r \<or> (b = 2 * r \<and> odd q) then q + 1 else q)"

definition of_units :: "nat \<Rightarrow> int \<Rightarrow> brat" where
  "of_units q e = (if 0 \<le> e then brat_norm (int (q * 2 ^ nat e)) 1 else brat_norm (int q) (2 ^ nat (- e)))"

text \<open>\<open>None\<close> when the rounded value is too large for a finite double.\<close>

definition round_f64 :: "nat \<Rightarrow> nat \<Rightarrow> brat option" where
  "round_f64 n d =
     (if n = 0 then Some (BRat 0 1)
      else
        let e = round_exp n d; r = (case scale2 n d e of (a, b) \<Rightarrow> of_units (half_even a b) e)
        in if 2 ^ 1024 * Denom r \<le> Num r then None else Some r)"

subsection \<open>\<open>strconv.ParseFloat\<close>\<close>

datatype last_seen = Start | DigitSeen | Underscore | Other

fun underscores_from :: "bool \<Rightarrow> last_seen \<Rightarrow> string \<Rightarrow> bool" where
  "underscores_from hex saw [] = (saw \<noteq> Underscore)"
| "underscores_from hex saw (c # cs) =
     (if is_digit c \<or> (hex \<and> 97 \<le> code (lower c) \<and> code (lower c) \<le> 102)
      then underscores_from hex DigitSeen cs
      else if c = CHR ''_'' then saw = DigitSeen \<and> underscores_from hex Underscore cs
      else saw \<noteq> Underscore \<and> underscores_from hex Other cs)"

definition drop_sign :: "string \<Rightarrow> string" where
  "drop_sign s = (if HasPrefix s ''-'' \<or> HasPrefix s ''+'' then tl s else s)"

definition underscoreOK :: "string \<Rightarrow> bool" where
  "underscoreOK s0 =
     (let s = drop_sign s0; p = ToLower (take 2 s)
      in if p = ''0b'' \<or> p = ''0o'' \<or> p = ''0x'' then underscores_from (p = ''0x'') DigitSeen (drop 2 s)
         else underscores_from False Start s)"

text \<open>The mantissa: seen a digit, its value, digits after the point, what follows.\<close>

fun float_mant :: "bool \<Rightarrow> bool \<Rightarrow> bool \<Rightarrow> nat \<Rightarrow> nat \<Rightarrow> string \<Rightarrow> bool \<times> nat \<times> nat \<times> string" where
  "float_mant hex dot dig m f [] = (dig, m, f, [])"
| "float_mant hex dot dig m f (c # cs) =
     (if c = CHR ''_'' then float_mant hex dot dig m f cs
      else if c = CHR ''.'' \<and> \<not> dot then float_mant hex True dig m f cs
      else if is_digit c \<or> (hex \<and> 97 \<le> code (lower c) \<and> code (lower c) \<le> 102) then
        float_mant hex dot True (m * (if hex then 16 else 10) + digit_value c)
          (if dot then f + 1 else f) cs
      else (dig, m, f, c # cs))"

text \<open>The exponent stops growing once it has five digits.\<close>

fun float_exp :: "nat \<Rightarrow> string \<Rightarrow> nat \<times> string" where
  "float_exp e [] = (e, [])"
| "float_exp e (c # cs) =
     (if c = CHR ''_'' then float_exp e cs
      else if is_digit c then float_exp (if e < 10000 then e * 10 + digit_value c else e) cs
      else (e, c # cs))"

definition float_exponent :: "bool \<Rightarrow> string \<Rightarrow> (int \<times> string) option" where
  "float_exponent hex s =
     (case s of
        c # cs \<Rightarrow>
          if lower c = (if hex then CHR ''p'' else CHR ''e'') then
            (let neg = HasPrefix cs ''-''; ds = drop_sign cs
             in if ds = [] \<or> \<not> is_digit (hd ds) then None
                else case float_exp 0 ds of (e, rest) \<Rightarrow> Some (if neg then - int e else int e, rest))
          else if hex then None
          else Some (0, s)
      | [] \<Rightarrow> if hex then None else Some (0, []))"

definition float_sign :: "bool \<Rightarrow> brat \<Rightarrow> f64" where
  "float_sign neg r = Fin (BRat (if neg then - Num r else Num r) (Denom r))"

text \<open>\<open>m * base ^ k\<close>, rounded.\<close>

definition read_scaled :: "nat \<Rightarrow> nat \<Rightarrow> int \<Rightarrow> brat option" where
  "read_scaled base m k =
     (if 0 \<le> k then round_f64 (m * base ^ nat k) 1 else round_f64 m (base ^ nat (- k)))"

definition ParseFloat :: "string \<Rightarrow> f64 option" where
  "ParseFloat s0 =
     (let s = drop_sign s0; neg = HasPrefix s0 ''-''
      in if ToLower s = ''inf'' \<or> ToLower s = ''infinity'' then Some (Inf neg)
         else if ToLower s0 = ''nan'' then Some NaN
         else
           let hex = (ToLower (take 2 s) = ''0x'');
               (dig, m, f, r) = float_mant hex False False 0 0 (if hex then drop 2 s else s)
           in if \<not> dig then None
              else case float_exponent hex r of
                Some (e, []) \<Rightarrow>
                  if CHR ''_'' \<in> set s0 \<and> \<not> underscoreOK s0 then None
                  else
                    map_option (float_sign neg)
                      (read_scaled (if hex then 2 else 10) m (e - int (if hex then 4 * f else f)))
              | _ \<Rightarrow> None)"

subsection \<open>\<open>strconv.FormatFloat\<close>\<close>

text \<open>\<open>c\<close> units of \<open>10 ^ - j\<close>, read back; and printed without an exponent.\<close>

definition read_decimal :: "nat \<Rightarrow> int \<Rightarrow> brat option" where
  "read_decimal c j = read_scaled 10 c (- j)"

definition print_decimal :: "nat \<Rightarrow> int \<Rightarrow> string" where
  "print_decimal c j = (if 0 < j then fixed (nat j) c else utoa (c * 10 ^ nat (- j)))"

text \<open>The two multiples of \<open>10 ^ - j\<close> around \<open>n / d\<close>, the nearer one first.\<close>

definition decimals_near :: "nat \<Rightarrow> nat \<Rightarrow> int \<Rightarrow> nat list" where
  "decimals_near n d j =
     (let (a, b) = (if 0 \<le> j then (n * 10 ^ nat j, d) else (n, d * 10 ^ nat (- j)));
          q = a div b; r = a mod b
      in if b < 2 * r then [q + 1, q] else [q, q + 1])"

text \<open>The first numeral, by increasing number of decimals, that reads back as \<open>n / d\<close>.\<close>

definition candidates :: "nat \<Rightarrow> nat \<Rightarrow> (nat \<times> int) list" where
  "candidates n d =
     concat (map (\<lambda>j. map (\<lambda>c. (c, j)) (decimals_near n d j))
       (map (\<lambda>k. int k - int (length (utoa (n div d)))) [1 ..< length (utoa (n div d)) + bitlen d + 1]))"

definition shortest :: "brat \<Rightarrow> (nat \<times> int) option" where
  "shortest r = find (\<lambda>(c, j). read_decimal c j = Some r) (candidates (nat (Num r)) (nat (Denom r)))"

definition format_abs :: "brat \<Rightarrow> string" where
  "format_abs r =
     (if Num r = 0 then ''0''
      else case shortest r of Some (c, j) \<Rightarrow> print_decimal c j | None \<Rightarrow> '''')"

fun FormatFloat :: "f64 \<Rightarrow> string" where
  "FormatFloat (Fin r) =
     (if Num r < 0 then CHR ''-'' # format_abs (BRat (- Num r) (Denom r)) else format_abs r)"
| "FormatFloat (Inf neg) = (if neg then ''-Inf'' else ''+Inf'')"
| "FormatFloat NaN = ''NaN''"

subsection \<open>Rounding is exact on doubles\<close>

text \<open>A non-negative finite double: 53 bits at most, in units of \<open>2 ^ -1074\<close> or more, below \<open>2 ^ 1024\<close>.\<close>

definition double :: "brat \<Rightarrow> bool" where
  "double r \<longleftrightarrow> brat_wf r \<and> 0 \<le> Num r \<and> Num r < 2 ^ 1024 * Denom r \<and>
     (\<exists>q e. q < 2 ^ 53 \<and> - 1074 \<le> e \<and> rval r = of_nat q * 2 powi e)"

lemma bitlen_bounds: "0 < n \<Longrightarrow> n < 2 ^ bitlen n \<and> 2 ^ (bitlen n - 1) \<le> n \<and> 0 < bitlen n"
proof (induction n rule: bitlen.induct)
  case (1 n)
  show ?case
  proof (cases "n div 2 = 0")
    case True
    then have "n = 1" using "1.prems" by simp
    moreover have "bitlen 1 = 1" by code_simp
    ultimately show ?thesis by simp
  next
    case False
    then have "n div 2 < 2 ^ bitlen (n div 2)" "2 ^ (bitlen (n div 2) - 1) \<le> n div 2" "0 < bitlen (n div 2)"
      using 1 by auto
    then have "n < 2 * 2 ^ bitlen (n div 2)" "2 * 2 ^ (bitlen (n div 2) - 1) \<le> n" by linarith+
    moreover have "2 * 2 ^ (bitlen (n div 2) - 1) = (2 :: nat) ^ bitlen (n div 2)"
      using \<open>0 < bitlen (n div 2)\<close> by (cases "bitlen (n div 2)") simp_all
    ultimately show ?thesis using "1.prems" by (simp add: bitlen.simps [of n])
  qed
qed

lemma powi_nat: "(2 :: rat) powi int k = 2 ^ k"
  by (simp add: power_int_of_nat)

lemma powi_diff_nat: "(2 :: rat) powi (int j - int k) = 2 ^ j / 2 ^ k"
proof -
  have "(2 :: rat) powi (int j - int k) = 2 powi int j / 2 powi int k" by (rule power_int_diff) simp
  then show ?thesis unfolding powi_nat .
qed

lemma powi_less_D: "(2 :: rat) powi j < 2 powi k \<Longrightarrow> j < k"
  by (meson not_less one_le_numeral power_int_increasing)

lemma fraction_bounds:
  assumes "0 < n" "0 < d"
  shows "2 powi (int (bitlen n) - int (bitlen d) - 1) < (of_nat n / of_nat d :: rat)"
    and "(of_nat n / of_nat d :: rat) < 2 powi (int (bitlen n) - int (bitlen d) + 1)"
proof -
  note bn = bitlen_bounds [OF assms(1)] and bd = bitlen_bounds [OF assms(2)]
  have pos: "(0 :: rat) < of_nat d" using assms(2) by simp
  have "(2 :: rat) ^ (bitlen n - 1) \<le> of_nat n" "(of_nat d :: rat) < 2 ^ bitlen d"
    using bn bd by (metis of_nat_le_iff of_nat_numeral of_nat_power, metis of_nat_less_iff of_nat_numeral of_nat_power)
  then have "(2 :: rat) ^ (bitlen n - 1) * of_nat d < of_nat n * 2 ^ bitlen d"
    using pos by (intro mult_le_less_imp_less) simp_all
  then have "(2 :: rat) ^ (bitlen n - 1) / 2 ^ bitlen d < of_nat n / of_nat d"
    using pos by (simp add: field_simps)
  moreover have "(2 :: rat) powi (int (bitlen n) - int (bitlen d) - 1) = 2 ^ (bitlen n - 1) / 2 ^ bitlen d"
  proof -
    have "int (bitlen n) - int (bitlen d) - 1 = int (bitlen n - 1) - int (bitlen d)" using bn by simp
    then show ?thesis by (metis powi_diff_nat)
  qed
  ultimately show "2 powi (int (bitlen n) - int (bitlen d) - 1) < (of_nat n / of_nat d :: rat)" by simp
  have "(of_nat n :: rat) < 2 ^ bitlen n" "(2 :: rat) ^ (bitlen d - 1) \<le> of_nat d"
    using bn bd by (metis of_nat_less_iff of_nat_numeral of_nat_power, metis of_nat_le_iff of_nat_numeral of_nat_power)
  then have "(of_nat n :: rat) * 2 ^ (bitlen d - 1) < 2 ^ bitlen n * of_nat d"
    using pos by (intro mult_less_le_imp_less) simp_all
  then have "of_nat n / of_nat d < (2 :: rat) ^ bitlen n / 2 ^ (bitlen d - 1)"
    using pos by (simp add: field_simps)
  moreover have "(2 :: rat) powi (int (bitlen n) - int (bitlen d) + 1) = 2 ^ bitlen n / 2 ^ (bitlen d - 1)"
  proof -
    have "int (bitlen n) - int (bitlen d) + 1 = int (bitlen n) - int (bitlen d - 1)" using bd by simp
    then show ?thesis by (metis powi_diff_nat)
  qed
  ultimately show "(of_nat n / of_nat d :: rat) < 2 powi (int (bitlen n) - int (bitlen d) + 1)" by simp
qed

lemma scale2_value:
  assumes "scale2 n d e = (a, b)" "0 < d"
  shows "0 < b" and "(of_nat a / of_nat b :: rat) = of_nat n / of_nat d / 2 powi e"
proof -
  show "0 < b" using assms by (auto simp: scale2_def split: if_splits)
  show "(of_nat a / of_nat b :: rat) = of_nat n / of_nat d / 2 powi e"
    using assms by (auto simp: scale2_def power_int_def field_simps split: if_splits)
qed

lemma of_units_value: "brat_wf (of_units q e)" "rval (of_units q e) = of_nat q * 2 powi e"
  by (simp_all add: of_units_def rval_norm power_int_def field_simps)

lemma half_even_exact: "b dvd a \<Longrightarrow> 0 < b \<Longrightarrow> half_even a b = a div b"
  by (auto simp: half_even_def Let_def)

lemma half_even_le: "0 < b \<Longrightarrow> half_even a b \<le> a div b + 1"
  by (simp add: half_even_def Let_def)

lemma units_less_iff:
  assumes "0 < d"
  shows "units n d e < 2 ^ 53 \<longleftrightarrow> (of_nat n / of_nat d :: rat) / 2 powi e < 2 ^ 53"
proof -
  obtain a b where s: "scale2 n d e = (a, b)" by (cases "scale2 n d e")
  note v = scale2_value [OF s assms]
  have "a div b < 2 ^ 53 \<longleftrightarrow> a < 2 ^ 53 * b" using v(1) by (simp add: div_less_iff_less_mult)
  also have "\<dots> \<longleftrightarrow> (of_nat a :: rat) < 2 ^ 53 * of_nat b"
    by (metis of_nat_less_iff of_nat_mult of_nat_numeral of_nat_power)
  also have "\<dots> \<longleftrightarrow> (of_nat a / of_nat b :: rat) < 2 ^ 53"
    using v(1) by (simp add: divide_less_eq)
  finally show ?thesis unfolding v(2) [symmetric] by (simp add: units_def s)
qed

text \<open>After the correction the kept part has 53 bits at most.\<close>

lemma scaled_less: "0 < p \<Longrightarrow> x < p * c \<Longrightarrow> x / p < (c :: rat)"
  by (simp add: divide_less_eq mult.commute)

lemma scaled_le: "0 < p \<Longrightarrow> c \<le> x / p \<Longrightarrow> p * c \<le> (x :: rat)"
  by (simp add: le_divide_eq mult.commute)

lemma round_exp_units:
  assumes "0 < n" "0 < d"
  shows "units n d (round_exp n d) < 2 ^ 53"
proof -
  define e0 where "e0 = max (int (bitlen n) - int (bitlen d) - 53) (- 1074)"
  show ?thesis
  proof (cases "2 ^ 53 \<le> units n d e0")
    case True
    have "(of_nat n / of_nat d :: rat) < 2 powi (int (bitlen n) - int (bitlen d) + 1)"
      by (rule fraction_bounds [OF assms])
    also have "\<dots> \<le> 2 powi (e0 + 1 + 53)"
      by (rule power_int_increasing) (simp_all add: e0_def)
    also have "\<dots> = 2 powi (e0 + 1) * 2 ^ 53" by (subst power_int_add) simp_all
    finally have "(of_nat n / of_nat d :: rat) / 2 powi (e0 + 1) < 2 ^ 53"
      by (rule scaled_less [rotated]) simp
    then have "units n d (e0 + 1) < 2 ^ 53" using units_less_iff [OF assms(2)] by blast
    then show ?thesis using True by (simp add: round_exp_def Let_def flip: e0_def)
  next
    case False
    then show ?thesis by (simp add: round_exp_def Let_def flip: e0_def)
  qed
qed

lemma round_exp_le:
  assumes "0 < n" "0 < d" "(of_nat n / of_nat d :: rat) = of_nat q * 2 powi e" "q < 2 ^ 53" "- 1074 \<le> e"
  shows "round_exp n d \<le> e"
proof -
  define e0 where "e0 = max (int (bitlen n) - int (bitlen d) - 53) (- 1074)"
  have "(of_nat q :: rat) < 2 ^ 53" using assms(4) by (metis of_nat_less_iff of_nat_numeral of_nat_power)
  then have less: "(of_nat n / of_nat d :: rat) < 2 powi (e + 53)"
    unfolding assms(3) by (subst power_int_add) simp_all
  show ?thesis
  proof (cases "2 ^ 53 \<le> units n d e0")
    case True
    then have "(2 :: rat) ^ 53 \<le> (of_nat n / of_nat d) / 2 powi e0"
      using units_less_iff [OF assms(2)] not_less by metis
    then have "(2 :: rat) powi e0 * 2 ^ 53 \<le> of_nat n / of_nat d" by (rule scaled_le [rotated]) simp
    then have "(2 :: rat) powi (e0 + 53) \<le> of_nat n / of_nat d" by (subst power_int_add) simp_all
    then have "(2 :: rat) powi (e0 + 53) < 2 powi (e + 53)" using less by simp
    then have "e0 + 53 < e + 53" by (rule powi_less_D)
    then show ?thesis using True by (simp add: round_exp_def Let_def flip: e0_def)
  next
    case False
    have "(2 :: rat) powi (int (bitlen n) - int (bitlen d) - 1) < 2 powi (e + 53)"
      using fraction_bounds(1) [OF assms(1,2)] less by simp
    then have "int (bitlen n) - int (bitlen d) - 1 < e + 53"
      by (rule powi_less_D)
    then show ?thesis using False assms(5) by (simp add: round_exp_def e0_def Let_def)
  qed
qed

text \<open>A fraction whose value is a double is rounded to that double.\<close>

lemma round_f64_exact:
  assumes "double r" "0 < d" "rval r = of_nat n / of_nat d"
  shows "round_f64 n d = Some r"
proof (cases "n = 0")
  case True
  then have "rval r = rval (BRat 0 1)" using assms(3) by (simp add: rval_def)
  moreover have "brat_wf r" "brat_wf (BRat 0 1)" using assms(1) by (simp_all add: double_def brat_wf_def)
  ultimately show ?thesis using True rval_inject by (simp add: round_f64_def)
next
  case False
  obtain q e where qe: "q < 2 ^ 53" "- 1074 \<le> e" "rval r = of_nat q * 2 powi e"
    using assms(1) by (auto simp: double_def)
  define e' where "e' = round_exp n d"
  have le: "e' \<le> e"
    unfolding e'_def using round_exp_le [of n d q e] False assms qe by simp
  obtain a b where s: "scale2 n d e' = (a, b)" by (cases "scale2 n d e'")
  note v = scale2_value [OF s assms(2)]
  have "(of_nat a / of_nat b :: rat) = of_nat q * (2 powi e / 2 powi e')"
    unfolding v(2) using assms(3) qe(3) by simp
  also have "(2 powi e / 2 powi e' :: rat) = 2 ^ nat (e - e')"
    using le powi_nat [of "nat (e - e')"] by (simp add: power_int_diff)
  finally have ab: "(of_nat a :: rat) = of_nat (b * (q * 2 ^ nat (e - e')))"
    using v(1) by (simp add: divide_eq_eq mult_ac)
  then have a: "a = b * (q * 2 ^ nat (e - e'))" using of_nat_eq_iff by blast
  then have "half_even a b = q * 2 ^ nat (e - e')" using v(1) by (simp add: half_even_exact)
  moreover have "(of_nat a / of_nat b :: rat) = of_nat (q * 2 ^ nat (e - e'))" using a v(1) by simp
  ultimately have "rval (of_units (half_even a b) e') = of_nat a / of_nat b * 2 powi e'"
    by (simp add: of_units_value)
  then have "rval (of_units (half_even a b) e') = rval r"
    unfolding v(2) using assms(3) by simp
  then have "of_units (half_even a b) e' = r"
    using rval_inject of_units_value(1) assms(1) by (auto simp: double_def)
  then show ?thesis
    using False s assms(1) by (simp add: round_f64_def Let_def double_def flip: e'_def)
qed

text \<open>Whatever is rounded, the result is a double.\<close>

lemma round_f64_double:
  assumes "round_f64 n d = Some r" "0 < d"
  shows "double r"
proof (cases "n = 0")
  case True
  then have "r = BRat 0 1" using assms(1) by (simp add: round_f64_def)
  then show ?thesis by (auto simp: double_def brat_wf_def rval_def intro!: exI [of _ 0])
next
  case False
  define e where "e = round_exp n d"
  obtain a b where s: "scale2 n d e = (a, b)" by (cases "scale2 n d e")
  have b: "0 < b" using scale2_value [OF s assms(2)] by blast
  have r: "r = of_units (half_even a b) e" "Num r < 2 ^ 1024 * Denom r"
    using assms(1) False s by (auto simp: round_f64_def Let_def simp flip: e_def split: if_splits)
  have wf: "brat_wf r" using r(1) of_units_value by simp
  have "rval r = of_nat (half_even a b) * 2 powi e" using r(1) of_units_value by simp
  then have "0 \<le> rval r" by simp
  then have pos: "0 \<le> Num r" using wf by (simp add: rval_def brat_wf_def zero_le_divide_iff)
  have "a div b < 2 ^ 53" using round_exp_units [of n d] False assms(2) s by (simp add: units_def flip: e_def)
  then have h: "half_even a b \<le> 2 ^ 53" using half_even_le [OF b, of a] by simp
  have low: "- 1074 \<le> e" unfolding e_def round_exp_def Let_def by (auto simp: max_def)
  show ?thesis
  proof (cases "half_even a b = 2 ^ 53")
    case True
    have "rval r = of_nat (2 ^ 52) * 2 powi (e + 1)"
      using r(1) True by (simp add: of_units_value power_int_add)
    moreover have "(2 :: nat) ^ 52 < 2 ^ 53" "- 1074 \<le> e + 1" using low by simp_all
    ultimately show ?thesis unfolding double_def using wf pos r(2) by blast
  next
    case False
    then have "half_even a b < 2 ^ 53" using h by simp
    then show ?thesis unfolding double_def using wf pos r low of_units_value(2) by blast
  qed
qed

subsection \<open>The round trip\<close>

lemma digits_safe:
  assumes "\<forall>c \<in> set ds. is_digit c"
  shows "CHR ''_'' \<notin> set ds" "CHR ''.'' \<notin> set ds"
  using assms by (auto simp: is_digit_def code_def)

lemma float_mant_digits:
  "\<forall>c \<in> set ds. is_digit c \<Longrightarrow>
   float_mant False dot dig m f (ds @ r) =
   float_mant False dot (dig \<or> ds \<noteq> []) (dval m ds) (if dot then f + length ds else f) r"
proof (induction ds arbitrary: dig m f)
  case (Cons c ds)
  then have "c \<noteq> CHR ''_''" "c \<noteq> CHR ''.''" "is_digit c" by (auto simp: is_digit_def code_def)
  with Cons show ?case by (simp add: mult.commute)
qed simp

text \<open>A numeral starts with a digit, so it is no special value and has no sign or hex prefix.\<close>

lemma ParseFloat_digits:
  assumes ds: "ds \<noteq> []" "\<forall>c \<in> set ds. is_digit c" and fs: "\<forall>c \<in> set fs. is_digit c"
  shows "ParseFloat (ds @ CHR ''.'' # fs) =
      map_option (float_sign False) (read_scaled 10 (dval 0 (ds @ fs)) (- int (length fs)))"
    and "ParseFloat ds = map_option (float_sign False) (read_scaled 10 (dval 0 ds) 0)"
proof -
  obtain c cs where c: "ds = c # cs" "is_digit c" using ds by (cases ds) auto
  have plain: "drop_sign (c # r) = c # r" "\<not> HasPrefix (c # r) ''-''" "ToLower (c # r) \<noteq> ''inf''"
      "ToLower (c # r) \<noteq> ''infinity''" "ToLower (c # r) \<noteq> ''nan''" for r
    using c(2) by (auto simp: drop_sign_def HasPrefix_def ToLower_def lower_def is_digit_def code_def
        split: if_splits)
  have hex: "ToLower (take 2 (c # x # r)) \<noteq> ''0x''" "ToLower (take 2 [c]) \<noteq> ''0x''"
    if "is_digit x \<or> x = CHR ''.''" for x r
    using that by (auto simp: ToLower_def lower_def is_digit_def code_def split: if_splits)
  have h1: "ToLower (take 2 (ds @ CHR ''.'' # fs)) \<noteq> ''0x''"
  proof (cases cs)
    case (Cons x xs)
    then show ?thesis using hex(1) [of x "xs @ CHR ''.'' # fs"] ds(2) c(1) by simp
  qed (use hex(1) [of "CHR ''.''" fs] c(1) in simp)
  have h2: "ToLower (take 2 ds) \<noteq> ''0x''"
  proof (cases cs)
    case (Cons x xs)
    then show ?thesis using hex(1) [of x xs] ds(2) c(1) by simp
  qed (use hex(2) [of "CHR ''.''"] c(1) in simp)
  have mant: "float_mant False False False 0 0 (ds @ CHR ''.'' # fs) = (True, dval 0 (ds @ fs), length fs, [])"
    using ds(1) float_mant_digits [OF ds(2), of False False 0 0 "CHR ''.'' # fs"]
      float_mant_digits [OF fs, of True True "dval 0 ds" 0 "[]"] by simp
  have mant2: "float_mant False False False 0 0 ds = (True, dval 0 ds, 0, [])"
    using ds(1) float_mant_digits [OF ds(2), of False False 0 0 "[]"] by simp
  have us: "CHR ''_'' \<notin> set (ds @ CHR ''.'' # fs)" using digits_safe(1) [OF ds(2)] digits_safe(1) [OF fs] by simp
  show "ParseFloat (ds @ CHR ''.'' # fs) =
      map_option (float_sign False) (read_scaled 10 (dval 0 (ds @ fs)) (- int (length fs)))"
    using plain [of "cs @ CHR ''.'' # fs"] h1 mant us c(1)
    by (auto simp: ParseFloat_def Let_def float_exponent_def)
  show "ParseFloat ds = map_option (float_sign False) (read_scaled 10 (dval 0 ds) 0)"
    using plain [of cs] h2 mant2 digits_safe(1) [OF ds(2)] c(1)
    by (auto simp: ParseFloat_def Let_def float_exponent_def)
qed

lemma ParseFloat_print_decimal:
  "ParseFloat (print_decimal c j) = map_option (float_sign False) (read_decimal c j)"
proof (cases "0 < j")
  case True
  let ?k = "nat j"
  let ?fs = "zeros (?k - length (utoa (c mod 10 ^ ?k))) @ utoa (c mod 10 ^ ?k)"
  have k: "0 < ?k" using True by simp
  have "\<forall>x \<in> set (utoa (c div 10 ^ ?k)). is_digit x" "\<forall>x \<in> set ?fs. is_digit x"
    by (auto intro: utoa_digits)
  then show ?thesis
    using ParseFloat_digits(1) [of "utoa (c div 10 ^ ?k)" ?fs] True
      length_fixed_frac [OF k, of c] length_frac [OF k, of c]
    by (simp add: print_decimal_def read_decimal_def fixed_def)
next
  case False
  then show ?thesis
    using ParseFloat_digits(2) [of "utoa (c * 10 ^ nat (- j))" "[]"] utoa_digits
    by (simp add: print_decimal_def read_decimal_def read_scaled_def)
qed

text \<open>The denominator of a double is a power of two, so enough decimals write it exactly.\<close>

lemma dvd_power_of_two: "(d :: int) dvd 2 ^ k \<Longrightarrow> 0 < d \<Longrightarrow> \<exists>t. d = 2 ^ t"
proof (induction k arbitrary: d)
  case 0
  then have "d = 1" using zdvd_imp_le by fastforce
  then show ?case by (intro exI [of _ 0]) simp
next
  case (Suc k)
  show ?case
  proof (cases "even d")
    case True
    then obtain c where c: "d = 2 * c" by auto
    then have "c dvd 2 ^ k" "0 < c" using Suc.prems by auto
    then obtain t where "c = 2 ^ t" using Suc.IH by blast
    then show ?thesis using c by (intro exI [of _ "Suc t"]) simp
  next
    case False
    then have "coprime d 2" by simp
    then have "d dvd 2 ^ k" using Suc.prems(1) by (simp add: coprime_dvd_mult_right_iff)
    then show ?thesis using Suc.IH Suc.prems(2) by blast
  qed
qed

lemma double_denom: "double r \<Longrightarrow> \<exists>t. Denom r = 2 ^ t"
proof -
  assume "double r"
  then obtain q e where r: "brat_wf r" "rval r = of_nat q * 2 powi e" by (auto simp: double_def)
  define k where "k = nat (- e)"
  have "rval r = rval (brat_norm (int (q * 2 ^ nat e)) (2 ^ k))"
    unfolding r(2) k_def by (subst rval_norm) (simp_all add: power_int_def field_simps)
  then have "r = brat_norm (int (q * 2 ^ nat e)) (2 ^ k)" using rval_inject r(1) brat_norm_wf by simp
  then have "Denom r dvd 2 ^ k" by (simp add: brat_norm_def Let_def div_dvd_iff_mult)
  moreover have "0 < Denom r" using r(1) by (simp add: brat_wf_def)
  ultimately show ?thesis using dvd_power_of_two by blast
qed

lemma bitlen_power: "bitlen (2 ^ t) = Suc t"
proof (induction t)
  case 0
  have "bitlen 1 = 1" by code_simp
  then show ?case by simp
next
  case (Suc t)
  then show ?case by (simp add: bitlen.simps [of "2 * 2 ^ t"])
qed

lemma find_Some_holds: "find P xs = Some x \<Longrightarrow> P x"
  by (induction xs) (auto split: if_splits)

lemma shortest_found:
  assumes "double r" "Num r \<noteq> 0"
  shows "\<exists>c j. shortest r = Some (c, j) \<and> read_decimal c j = Some r"
proof -
  define n d where "n = nat (Num r)" and "d = nat (Denom r)"
  obtain t where t: "Denom r = 2 ^ t" using double_denom [OF assms(1)] by blast
  then have d: "d = 2 ^ t" by (simp add: d_def nat_power_eq)
  have pos: "0 \<le> Num r" "brat_wf r" using assms(1) by (simp_all add: double_def)
  then have val: "rval r = of_nat n / of_nat d"
    by (simp add: rval_def n_def d_def brat_wf_def)
  define j :: int where "j = int (bitlen d)"
  define c where "c = n * 10 ^ Suc t div d"
  have j: "j = int (Suc t)" by (simp add: j_def d bitlen_power)
  have dvd: "d dvd n * 10 ^ Suc t"
  proof -
    have "(10 :: nat) ^ Suc t = 2 ^ t * (10 * 5 ^ t)" by (simp flip: power_mult_distrib)
    then show ?thesis unfolding d by (metis dvd_mult dvd_triv_left)
  qed
  then have cd: "c * d = n * 10 ^ Suc t" by (simp add: c_def)
  have "read_decimal c j = round_f64 c (10 ^ Suc t)" by (simp add: read_decimal_def read_scaled_def j del: of_nat_Suc power_Suc)
  also have "\<dots> = Some r"
  proof (rule round_f64_exact [OF assms(1)])
    have "(of_nat c * of_nat d :: rat) = of_nat n * 10 ^ Suc t"
      using cd by (metis of_nat_mult of_nat_numeral of_nat_power)
    moreover have "(of_nat d :: rat) \<noteq> 0" by (simp add: d)
    ultimately show "rval r = of_nat c / of_nat (10 ^ Suc t)" unfolding val by (simp add: field_simps)
  qed simp
  finally have read: "read_decimal c j = Some r" .
  have "c \<in> set (decimals_near n d j)"
    using dvd by (auto simp: decimals_near_def j c_def Let_def nat_add_distrib)
  moreover have "j \<in> set (map (\<lambda>k. int k - int (length (utoa (n div d))))
      [1 ..< length (utoa (n div d)) + bitlen d + 1])"
    by (auto simp: j_def image_iff intro!: bexI [of _ "length (utoa (n div d)) + bitlen d"])
      (simp add: bitlen_power d)
  ultimately have "(c, j) \<in> set (candidates n d)" unfolding candidates_def by force
  then have "shortest r \<noteq> None"
    using read by (auto simp: shortest_def find_None_iff simp flip: n_def d_def)
  then obtain x where "shortest r = Some x" by blast
  then show ?thesis by (cases x) (auto simp: shortest_def dest: find_Some_holds)
qed

lemma ParseFloat_FormatFloat:
  assumes "double r"
  shows "ParseFloat (FormatFloat (Fin r)) = Some (Fin r)"
proof (cases "Num r = 0")
  case True
  have "brat_wf r" using assms by (simp add: double_def)
  then have "r = BRat 0 1" using True by (cases r) (auto simp: brat_wf_def abs_if split: if_splits)
  moreover have "ParseFloat ''0'' = Some (Fin (BRat 0 1))" by code_simp
  ultimately show ?thesis by (simp add: format_abs_def)
next
  case False
  obtain c j where cj: "shortest r = Some (c, j)" "read_decimal c j = Some r"
    using shortest_found [OF assms False] by blast
  have "\<not> Num r < 0" using assms by (simp add: double_def)
  then show ?thesis
    using False cj by (simp add: format_abs_def ParseFloat_print_decimal float_sign_def)
qed

lemma read_scaled_double: "read_scaled base m k = Some r \<Longrightarrow> 0 < base \<Longrightarrow> double r"
  by (auto simp: read_scaled_def split: if_splits intro: round_f64_double)

text \<open>What \<open>ParseFloat\<close> accepts as a positive number is a double.\<close>

lemma ParseFloat_double:
  assumes "ParseFloat s = Some (Fin r)" "0 < Num r"
  shows "double r"
proof -
  obtain neg base m k r0 where r0: "read_scaled base m k = Some r0" "base = 2 \<or> base = 10" "float_sign neg r0 = Fin r"
    using assms(1)
    by (auto simp: ParseFloat_def Let_def split: if_splits prod.splits option.splits list.splits)
  have d0: "double r0" using read_scaled_double [OF r0(1)] r0(2) by auto
  then have "0 \<le> Num r0" by (simp add: double_def)
  then have "r = r0" using r0(3) assms(2) by (cases r0) (auto simp: float_sign_def split: if_splits)
  then show ?thesis using d0 by simp
qed

end
