(* ===== verification/Pricing.thy ===== *)
theory Pricing
  imports GoRat "HOL-Library.AList"
begin

section \<open>Pricing: model price table and cost of a call\<close>

text \<open>
  The package \<open>internal/pricing\<close> (\<open>pricing.go\<close>): prices in micro-USD per million tokens,
  parsed from decimal strings; the table that resolves a model id (exact match, then longest
  configured prefix, then the default); the cost of a call in USDC base units; and the printers for
  the response headers. \<open>int64\<close> prices are kept in range with \<open>wrap64\<close>, as
  \<open>big.Int.Int64\<close> does.
\<close>

subsection \<open>Data\<close>

record ModelPrice =
  InputPerM :: string
  OutputPerM :: string
  CachedInputPerM :: string

record compiledPrice =
  InputMicrosPerM :: int
  OutputMicrosPerM :: int
  CachedInputMicrosPerM :: int

record ModelPriceEntry =
  Model :: string
  Input :: string
  Output :: string
  CachedInput :: string
  IsDefault :: bool

record Usage =
  PromptTokens :: int
  CompletionTokens :: int
  CachedTokens :: int

record Table =
  defaultPrice :: compiledPrice
  models :: "string \<rightharpoonup> compiledPrice"
  prefixes :: "string list"

text \<open>\<open>Field f e\<close> is \<open>e\<close> wrapped by \<open>fmt.Errorf\<close> with the field or model it is about.\<close>

datatype price_error =
    EmptyPrice
  | InvalidPrice string
  | NegativePrice
  | TooPrecise string
  | EmptyModelId
  | Field string price_error

definition microsPerUSD :: int where
  "microsPerUSD = 1000000"

subsection \<open>Parsing prices\<close>

definition parseUSDToMicros :: "string \<Rightarrow> price_error + int" where
  "parseUSDToMicros s0 =
     (let s = TrimSpace s0 in
      if s = [] then Inl EmptyPrice
      else case rat_SetString s of
        None \<Rightarrow> Inl (InvalidPrice s)
      | Some r \<Rightarrow>
          if Num r < 0 then Inl NegativePrice
          else
            let r' = brat_mul r (brat_of_int microsPerUSD)
            in if \<not> IsInt r' then Inl (TooPrecise s) else Inr (wrap64 (Num r')))"

definition compilePrice :: "ModelPrice \<Rightarrow> price_error + compiledPrice" where
  "compilePrice p =
     (case parseUSDToMicros (InputPerM p) of
        Inl e \<Rightarrow> Inl (Field ''input'' e)
      | Inr input \<Rightarrow>
          case parseUSDToMicros (OutputPerM p) of
            Inl e \<Rightarrow> Inl (Field ''output'' e)
          | Inr output \<Rightarrow>
              if TrimSpace (CachedInputPerM p) \<noteq> [] then
                (case parseUSDToMicros (CachedInputPerM p) of
                   Inl e \<Rightarrow> Inl (Field ''cached_input'' e)
                 | Inr cachedInput \<Rightarrow>
                     Inr \<lparr>InputMicrosPerM = input, OutputMicrosPerM = output,
                          CachedInputMicrosPerM = cachedInput\<rparr>)
              else Inr \<lparr>InputMicrosPerM = input, OutputMicrosPerM = output,
                        CachedInputMicrosPerM = input\<rparr>)"

definition normalizeModel :: "string \<Rightarrow> string" where
  "normalizeModel model = ToLower (TrimSpace model)"

subsection \<open>Building a table\<close>

text \<open>
  A Go map is ranged over in an unspecified order. The models come as the list of the map's entries
  in the order the loop visits them; \<open>NewTable_order\<close> below shows that lookups do not depend
  on it. \<open>sort.Slice\<close> by decreasing length leaves the order of equally long keys open too.
\<close>

fun add_models :: "(string \<times> ModelPrice) list \<Rightarrow> Table \<Rightarrow> price_error + Table" where
  "add_models [] t = Inr t"
| "add_models ((model, price) # rest) t =
     (let key = normalizeModel model in
      if key = [] then Inl EmptyModelId
      else case compilePrice price of
        Inl e \<Rightarrow> Inl (Field model e)
      | Inr compiled \<Rightarrow>
          add_models rest
            (t\<lparr>models := (models t)(key \<mapsto> compiled), prefixes := prefixes t @ [key]\<rparr>))"

definition fill_default :: "ModelPrice \<Rightarrow> ModelPrice" where
  "fill_default dp =
     (let dp = (if InputPerM dp = [] then dp\<lparr>InputPerM := ''5''\<rparr> else dp)
      in if OutputPerM dp = [] then dp\<lparr>OutputPerM := ''15''\<rparr> else dp)"

definition NewTable :: "ModelPrice \<Rightarrow> (string \<times> ModelPrice) list \<Rightarrow> price_error + Table" where
  "NewTable dp ms =
     (case compilePrice (fill_default dp) of
        Inl e \<Rightarrow> Inl (Field ''default price'' e)
      | Inr d \<Rightarrow>
          case add_models ms \<lparr>defaultPrice = d, models = Map.empty, prefixes = []\<rparr> of
            Inl e \<Rightarrow> Inl e
          | Inr t \<Rightarrow> Inr (t\<lparr>prefixes := sort_key (\<lambda>p. - int (length p)) (prefixes t)\<rparr>))"

definition entry_price :: "ModelPriceEntry \<Rightarrow> ModelPrice" where
  "entry_price entry =
     \<lparr>InputPerM = Input entry, OutputPerM = Output entry, CachedInputPerM = CachedInput entry\<rparr>"

definition NewTableFromEntries :: "ModelPrice \<Rightarrow> ModelPriceEntry list \<Rightarrow> price_error + Table" where
  "NewTableFromEntries dp entries =
     NewTable dp (fold (\<lambda>entry. AList.update (Model entry) (entry_price entry)) entries [])"

definition DefaultPrice :: ModelPrice where
  "DefaultPrice = \<lparr>InputPerM = ''5.00'', OutputPerM = ''15.00'', CachedInputPerM = ''''\<rparr>"

definition mk_price :: "string \<Rightarrow> string \<Rightarrow> string \<Rightarrow> ModelPrice" where
  "mk_price i c out = \<lparr>InputPerM = i, OutputPerM = out, CachedInputPerM = c\<rparr>"

definition DefaultPrices :: "(string \<times> ModelPrice) list" where
  "DefaultPrices =
     [(''gpt-4o'', mk_price ''2.50'' '''' ''10.00''),
      (''gpt-4o-mini'', mk_price ''0.15'' '''' ''0.60''),
      (''gpt-4.1'', mk_price ''2.00'' '''' ''8.00''),
      (''gpt-4.1-mini'', mk_price ''0.40'' '''' ''1.60''),
      (''gpt-4.1-nano'', mk_price ''0.10'' '''' ''0.40''),
      (''gpt-5'', mk_price ''1.25'' '''' ''10.00''),
      (''gpt-5-mini'', mk_price ''0.25'' '''' ''2.00''),
      (''gpt-5-nano'', mk_price ''0.05'' '''' ''0.40''),
      (''gpt-5.5'', mk_price ''5.00'' ''0.50'' ''30.00''),
      (''gpt-5.5-pro'', mk_price ''30.00'' '''' ''180.00''),
      (''claude-opus-4'', mk_price ''15.00'' '''' ''75.00''),
      (''claude-sonnet-4'', mk_price ''3.00'' '''' ''15.00''),
      (''claude-haiku-4.5'', mk_price ''1.00'' '''' ''5.00''),
      (''claude-haiku-4-5'', mk_price ''1.00'' '''' ''5.00''),
      (''deepseek-chat'', mk_price ''0.27'' '''' ''1.10''),
      (''deepseek-reasoner'', mk_price ''0.55'' '''' ''2.19'')]"

definition DefaultTable :: "price_error + Table" where
  "DefaultTable = NewTable DefaultPrice DefaultPrices"

definition DefaultEntries :: "ModelPriceEntry list" where
  "DefaultEntries =
     sort_key Model
       (map (\<lambda>(model, price).
          \<lparr>Model = model, Input = InputPerM price, Output = OutputPerM price,
           CachedInput = CachedInputPerM price, IsDefault = True\<rparr>) DefaultPrices)"

subsection \<open>Resolving a model\<close>

definition zero_price :: compiledPrice where
  "zero_price = \<lparr>InputMicrosPerM = 0, OutputMicrosPerM = 0, CachedInputMicrosPerM = 0\<rparr>"

text \<open>A nil table stands for the default one (\<open>DefaultTable_ok\<close>: it has no error).\<close>

definition table_or_default :: "Table option \<Rightarrow> Table" where
  "table_or_default t = (case t of Some t \<Rightarrow> t | None \<Rightarrow> projr DefaultTable)"

definition priceFor :: "Table option \<Rightarrow> string \<Rightarrow> compiledPrice" where
  "priceFor t0 model =
     (let t = table_or_default t0; key = normalizeModel model in
      case models t key of
        Some p \<Rightarrow> p
      | None \<Rightarrow>
          case find (\<lambda>pre. HasPrefix key pre) (prefixes t) of
            Some pre \<Rightarrow> (case models t pre of Some p \<Rightarrow> p | None \<Rightarrow> zero_price)
          | None \<Rightarrow> defaultPrice t)"

subsection \<open>Cost\<close>

text \<open>\<open>big.Int.Quo\<close> truncates, \<open>big.Int.Mod\<close> is Euclidean; the denominator is positive.\<close>

definition ceilRat :: "brat \<Rightarrow> int" where
  "ceilRat r =
     (let q = sgn (Num r) * (\<bar>Num r\<bar> div Denom r)
      in if Num r mod Denom r \<noteq> 0 then q + 1 else q)"

definition CostMicroUSDC :: "Table option \<Rightarrow> string \<Rightarrow> Usage \<Rightarrow> f64 \<Rightarrow> int" where
  "CostMicroUSDC t model u markup =
     (let p = priceFor t model;
          promptTokens = max (PromptTokens u) 0;
          cachedTokens = min (max (CachedTokens u) 0) promptTokens;
          uncachedTokens = promptTokens - cachedTokens;
          input = uncachedTokens * InputMicrosPerM p;
          cachedInput = cachedTokens * CachedInputMicrosPerM p;
          output = max (CompletionTokens u) 0 * OutputMicrosPerM p;
          total = (input + cachedInput + output + 999999) div 1000000;
          total = (if f64_pos markup \<and> markup \<noteq> f64_one then
                     let markupRat = (case SetFloat64 markup of Some r \<Rightarrow> r | None \<Rightarrow> BRat 1 1)
                     in ceilRat (brat_mul (brat_of_int total) markupRat)
                   else total)
      in if total = 0 \<and> (0 < PromptTokens u \<or> 0 < CompletionTokens u) then 1 else total)"

subsection \<open>The shared manager\<close>

text \<open>
  \<open>Manager\<close> guards one table pointer with a lock; every method is one atomic step on it. The
  package-level \<open>CostMicroUSDC\<close> is the method on a nil table.
\<close>

record Manager =
  mtable :: "Table option"

definition NewManager :: "Table option \<Rightarrow> Manager" where
  "NewManager t = \<lparr>mtable = Some (table_or_default t)\<rparr>"

definition Replace :: "Manager \<Rightarrow> Table option \<Rightarrow> Manager" where
  "Replace m t = (case t of None \<Rightarrow> m | Some _ \<Rightarrow> m\<lparr>mtable := t\<rparr>)"

definition Manager_CostMicroUSDC :: "Manager \<Rightarrow> string \<Rightarrow> Usage \<Rightarrow> f64 \<Rightarrow> int" where
  "Manager_CostMicroUSDC m model u markup = CostMicroUSDC (mtable m) model u markup"

definition package_CostMicroUSDC :: "string \<Rightarrow> Usage \<Rightarrow> f64 \<Rightarrow> int" where
  "package_CostMicroUSDC model u markup = CostMicroUSDC (Some (projr DefaultTable)) model u markup"

subsection \<open>Printing amounts\<close>

definition USDCUnitsToUSD :: "int option \<Rightarrow> string" where
  "USDCUnitsToUSD units =
     (case units of None \<Rightarrow> ''0'' | Some n \<Rightarrow> FloatString (brat_norm n 1000000) 6)"

definition microsToUSD :: "int \<Rightarrow> string" where
  "microsToUSD micros = FloatString (brat_norm micros microsPerUSD) 6"

definition PricesFor :: "Table option \<Rightarrow> string \<Rightarrow> string \<times> string \<times> string" where
  "PricesFor t model =
     (let p = priceFor t model
      in (microsToUSD (InputMicrosPerM p), microsToUSD (CachedInputMicrosPerM p),
          microsToUSD (OutputMicrosPerM p)))"

definition Manager_PricesFor :: "Manager \<Rightarrow> string \<Rightarrow> string \<times> string \<times> string" where
  "Manager_PricesFor m model = PricesFor (mtable m) model"

subsection \<open>Prices are read exactly\<close>

lemma microsPerUSD_pow: "microsPerUSD = 10 ^ 6"
  by (simp add: microsPerUSD_def)

lemma visible_digit: "is_digit c \<Longrightarrow> visible c"
  by (simp add: visible_def is_digit_def)

lemma TrimSpace_decimal:
  assumes "ds \<noteq> []" "\<forall>c \<in> set ds. is_digit c" "\<forall>c \<in> set fs. is_digit c"
  shows "TrimSpace (ds @ CHR ''.'' # fs) = ds @ CHR ''.'' # fs"
proof (rule TrimSpace_visible)
  show "visible (hd (ds @ CHR ''.'' # fs))"
    using assms by (cases ds) (auto intro: visible_digit)
  have "visible (CHR ''.'')" by (simp add: visible_def code_def)
  then show "visible (last (ds @ CHR ''.'' # fs))"
    using assms(3) by (cases fs rule: rev_cases) (auto intro: visible_digit)
qed simp

lemma Num_brat_norm_nonneg: "0 \<le> a \<Longrightarrow> 0 < b \<Longrightarrow> 0 \<le> Num (brat_norm a b)"
  using rval_nonneg_iff [of "brat_norm a b"] by (simp add: rval_norm)

lemma IsInt_brat_norm: "0 < b \<Longrightarrow> IsInt (brat_norm a b) \<longleftrightarrow> b dvd a"
proof
  assume b: "0 < b" and "IsInt (brat_norm a b)"
  then have "b div gcd a b = 1" by (simp add: IsInt_def brat_norm_def Let_def)
  then have "b = gcd a b" by (metis dvd_mult_div_cancel gcd_dvd2 mult.right_neutral)
  then show "b dvd a" by (metis gcd_dvd1)
next
  assume "0 < b" "b dvd a"
  then show "IsInt (brat_norm a b)"
    by (auto simp: brat_norm_int IsInt_def brat_of_int_def mult.commute elim!: dvdE)
qed

lemma Num_brat_norm_dvd: "0 < b \<Longrightarrow> b dvd a \<Longrightarrow> Num (brat_norm a b) = a div b"
  by (auto simp: brat_norm_int brat_of_int_def mult.commute [of b] elim!: dvdE)

lemma parse_price_scaled:
  assumes "TrimSpace s = s" "s \<noteq> []" "rat_SetString s = Some (brat_norm n (10 ^ k))" "0 \<le> n"
  shows "parseUSDToMicros s =
     (if 10 ^ k dvd n * 10 ^ 6 then Inr (wrap64 (n * 10 ^ 6 div 10 ^ k)) else Inl (TooPrecise s))"
proof -
  have "brat_mul (brat_norm n (10 ^ k)) (brat_of_int microsPerUSD) = brat_norm (n * 10 ^ 6) (10 ^ k)"
    by (simp add: brat_norm_mul_int microsPerUSD_pow)
  moreover have "0 \<le> Num (brat_norm n (10 ^ k))"
    using assms(4) by (rule Num_brat_norm_nonneg) simp
  ultimately show ?thesis
    using assms by (simp add: parseUSDToMicros_def Let_def IsInt_brat_norm Num_brat_norm_dvd)
qed

text \<open>A price written as a plain decimal \<open>ds.fs\<close> is accepted exactly when it is a whole
  number of micro-dollars, and is then read without rounding; the only loss is the conversion to
  \<open>int64\<close>, which wraps.\<close>

theorem parse_price_decimal:
  assumes "ds \<noteq> []" "\<forall>c \<in> set ds. is_digit c" "\<forall>c \<in> set fs. is_digit c" "length fs \<le> 10 ^ 6"
  shows "parseUSDToMicros (ds @ CHR ''.'' # fs) =
     (let n = int (dval 0 (ds @ fs)) * 10 ^ 6
      in if 10 ^ length fs dvd n then Inr (wrap64 (n div 10 ^ length fs))
         else Inl (TooPrecise (ds @ CHR ''.'' # fs)))"
  using parse_price_scaled [OF TrimSpace_decimal [OF assms(1-3)] _ rat_SetString_decimal(1) [OF assms]]
  by (simp add: Let_def)

theorem parse_price_decimal_witness:
  "parseUSDToMicros (''0'' @ CHR ''.'' # ''15'') = Inr 150000"
proof -
  have "\<forall>c \<in> set ''0''. is_digit c" "\<forall>c \<in> set ''15''. is_digit c" by code_simp+
  from parse_price_decimal [OF _ this]
  have "parseUSDToMicros (''0'' @ CHR ''.'' # ''15'') =
     (let n = int (dval 0 (''0'' @ ''15'')) * 10 ^ 6
      in if 10 ^ 2 dvd n then Inr (wrap64 (n div 10 ^ 2))
         else Inl (TooPrecise (''0'' @ CHR ''.'' # ''15'')))" by simp
  also have "dval 0 (''0'' @ ''15'') = 15" by code_simp
  finally show ?thesis by (simp add: wrap64_def Let_def)
qed

lemma TrimSpace_fixed: "TrimSpace (fixed prec n) = fixed prec n"
  unfolding fixed_def by (rule TrimSpace_decimal) (auto intro: utoa_digits)

text \<open>A minus sign before a decimal: read as the negative number, and refused.\<close>

lemma rat_SetString_minus:
  assumes ds: "ds \<noteq> []" "\<forall>c \<in> set ds. is_digit c" and fs: "\<forall>c \<in> set fs. is_digit c" "length fs \<le> 10 ^ 6"
    and pos: "0 < dval 0 (ds @ fs)"
  shows "rat_SetString (CHR ''-'' # ds @ CHR ''.'' # fs) =
    Some (brat_norm (- int (dval 0 (ds @ fs))) (10 ^ length fs))"
proof -
  have dig: "CHR ''/'' \<notin> set xs" if "\<forall>c \<in> set xs. is_digit c" for xs
    using that by (auto simp: is_digit_def code_def)
  have sgn: "scan_sign (CHR ''-'' # ds @ CHR ''.'' # fs) = Some (True, ds @ CHR ''.'' # fs)"
    using ds(1) by (cases ds) (simp_all add: scan_sign_def)
  have "(5::int) ^ length fs * 2 ^ length fs = 10 ^ length fs" by (simp flip: power_mult_distrib)
  then show ?thesis
    using dig [OF ds(2)] dig [OF fs(1)] sgn nat_scan_decimal(1) [OF ds fs(1)] pos fs(2)
    by (simp add: rat_SetString_def scan_exponent_def rat_scale_def Let_def)
qed

lemma TrimSpace_minus:
  assumes "\<forall>c \<in> set fs. is_digit c"
  shows "TrimSpace (CHR ''-'' # ds @ CHR ''.'' # fs) = CHR ''-'' # ds @ CHR ''.'' # fs"
proof (rule TrimSpace_visible)
  show "visible (hd (CHR ''-'' # ds @ CHR ''.'' # fs))" by (simp add: visible_def code_def)
  have "visible (CHR ''.'')" by (simp add: visible_def code_def)
  then show "visible (last (CHR ''-'' # ds @ CHR ''.'' # fs))"
    using assms by (cases fs rule: rev_cases) (auto intro: visible_digit)
qed simp

lemma parse_negative_price:
  assumes "0 < n"
  shows "parseUSDToMicros (CHR ''-'' # fixed 6 n) = Inl NegativePrice"
proof -
  let ?ds = "utoa (n div 10 ^ 6)" and ?fs = "zeros (6 - length (utoa (n mod 10 ^ 6))) @ utoa (n mod 10 ^ 6)"
  have d: "\<forall>c \<in> set ?ds. is_digit c" "\<forall>c \<in> set ?fs. is_digit c" by (auto intro: utoa_digits)
  have v: "dval 0 (?ds @ ?fs) = n" by (rule length_fixed_frac) simp
  have l: "length ?fs = 6" by (rule length_frac) simp
  have "?ds \<noteq> []" "length ?fs \<le> 10 ^ 6" "0 < dval 0 (?ds @ ?fs)"
    unfolding v l using assms by simp_all
  from rat_SetString_minus [OF this(1) d this(2,3)]
  have "rat_SetString (CHR ''-'' # fixed 6 n) = Some (brat_norm (- int n) (10 ^ 6))"
    unfolding fixed_def v l .
  moreover have "TrimSpace (CHR ''-'' # fixed 6 n) = CHR ''-'' # fixed 6 n"
    unfolding fixed_def by (rule TrimSpace_minus [OF d(2)])
  moreover have "\<not> 0 \<le> Num (brat_norm (- int n) (10 ^ 6))"
    using rval_nonneg_iff [of "brat_norm (- int n) (10 ^ 6)"] assms by (simp add: rval_norm)
  ultimately show ?thesis by (simp add: parseUSDToMicros_def)
qed

text \<open>C32: What happens to a price that is printed for the response headers and read again, for every
  price an \<open>int64\<close> can hold: a price that is not negative comes back as the same number of
  micro-dollars, and a negative one is refused.\<close>

theorem parse_print_price:
  assumes "m < 2 ^ 63"
  shows "parseUSDToMicros (microsToUSD m) = (if m < 0 then Inl NegativePrice else Inr m)"
proof (cases "m < 0")
  case True
  then have "microsToUSD m = CHR ''-'' # fixed 6 (nat (- m))"
    using FloatString_norm [of 6 m] by (simp add: microsToUSD_def microsPerUSD_pow)
  then show ?thesis using True by (simp add: parse_negative_price)
next
  case False
  have "microsToUSD m = fixed 6 (nat m)"
    using FloatString_norm [of 6 m] False by (simp add: microsToUSD_def microsPerUSD_pow)
  moreover have "fixed 6 (nat m) \<noteq> []" by (simp add: fixed_def)
  moreover have "rat_SetString (fixed 6 (nat m)) = Some (brat_norm m (10 ^ 6))"
    using rat_SetString_fixed [of 6 "nat m"] False by simp
  ultimately show ?thesis
    using parse_price_scaled [OF TrimSpace_fixed, of 6 "nat m" m 6] assms False
    by (simp add: int64_range_def)
qed

theorem parse_print_price_witness:
  "parseUSDToMicros (microsToUSD 2500000) = Inr 2500000 \<and>
   parseUSDToMicros (microsToUSD (- 1)) = Inl NegativePrice"
  using parse_print_price [of 2500000] parse_print_price [of "- 1"] by simp

text \<open>The printer for amounts (\<open>X-Cost\<close>, \<open>totalSpentUSD\<close>) writes exactly the units with six
  decimals, the sign first: the general rational routine never rounds here.\<close>

theorem USDCUnitsToUSD_exact:
  "USDCUnitsToUSD (Some n) = (if n < 0 then ''-'' else '''') @ fixed 6 (nat \<bar>n\<bar>)"
  using FloatString_norm [of 6 n] by (simp add: USDCUnitsToUSD_def)

subsection \<open>Table construction\<close>

lemma add_models_Inr:
  "add_models ms t = Inr t' \<Longrightarrow>
   defaultPrice t' = defaultPrice t \<and> prefixes t' = prefixes t @ map (normalizeModel \<circ> fst) ms \<and>
   models t' = models t ++
     map_of (rev (map (\<lambda>(m, p). (normalizeModel m, projr (compilePrice p))) ms)) \<and>
   (\<forall>(m, p) \<in> set ms. normalizeModel m \<noteq> [] \<and> is_ok (compilePrice p))"
proof (induction ms t rule: add_models.induct)
  case (2 model price rest t)
  from "2.prems" obtain c where c: "normalizeModel model \<noteq> []" "compilePrice price = Inr c"
    "add_models rest (t\<lparr>models := (models t)(normalizeModel model \<mapsto> c),
       prefixes := prefixes t @ [normalizeModel model]\<rparr>) = Inr t'"
    by (auto simp: Let_def split: if_splits sum.splits)
  show ?case
    using "2.IH" [OF refl c(1,2,3)] c(1,2) by (auto simp: map_add_def split: option.splits)
qed simp

lemma add_models_total:
  "\<forall>(m, p) \<in> set ms. normalizeModel m \<noteq> [] \<and> is_ok (compilePrice p) \<Longrightarrow> is_ok (add_models ms t)"
  by (induction ms t rule: add_models.induct) (auto simp: Let_def split: sum.splits)

text \<open>
  The well-formedness of a table: \<open>prefixes\<close> lists the keys of \<open>models\<close>, longest first, and
  prices that are not negative.
\<close>

definition table_wf :: "Table \<Rightarrow> bool" where
  "table_wf t \<longleftrightarrow>
     set (prefixes t) = dom (models t) \<and> sorted_wrt (\<lambda>p q. length q \<le> length p) (prefixes t)"

definition price_nonneg :: "compiledPrice \<Rightarrow> bool" where
  "price_nonneg p \<longleftrightarrow>
     0 \<le> InputMicrosPerM p \<and> 0 \<le> OutputMicrosPerM p \<and> 0 \<le> CachedInputMicrosPerM p"

definition table_nonneg :: "Table \<Rightarrow> bool" where
  "table_nonneg t \<longleftrightarrow> price_nonneg (defaultPrice t) \<and> (\<forall>p \<in> ran (models t). price_nonneg p)"

lemma dom_map_of_rev: "dom (map_of (rev xs)) = fst ` set xs"
  by (simp add: dom_map_of_conv_image_fst)

lemma NewTable_Inr:
  assumes "NewTable dp ms = Inr t"
  shows "table_wf t"
    and "models t = map_of (rev (map (\<lambda>(m, p). (normalizeModel m, projr (compilePrice p))) ms))"
    and "\<forall>(m, p) \<in> set ms. normalizeModel m \<noteq> [] \<and> is_ok (compilePrice p)"
proof -
  obtain d t0 where t0: "add_models ms \<lparr>defaultPrice = d, models = Map.empty, prefixes = []\<rparr> = Inr t0"
    and t: "t = t0\<lparr>prefixes := sort_key (\<lambda>p. - int (length p)) (prefixes t0)\<rparr>"
    using assms by (auto simp: NewTable_def split: sum.splits)
  note a = add_models_Inr [OF t0]
  show "models t = map_of (rev (map (\<lambda>(m, p). (normalizeModel m, projr (compilePrice p))) ms))"
    using a t by simp
  then have "set (prefixes t) = dom (models t)"
    using a t by (force simp: dom_map_of_rev)
  moreover have "sorted (map (\<lambda>p. - int (length p)) (prefixes t))"
    using t by simp
  ultimately show "table_wf t"
    by (simp add: table_wf_def sorted_map)
  show "\<forall>(m, p) \<in> set ms. normalizeModel m \<noteq> [] \<and> is_ok (compilePrice p)"
    using a by blast
qed

subsection \<open>Resolution is longest-prefix match\<close>

text \<open>
  The specification: look the id up, and while it is not configured drop its last byte; when
  nothing is left, take the default.
\<close>

function longest_prefix_price :: "(string \<rightharpoonup> compiledPrice) \<Rightarrow> compiledPrice \<Rightarrow> string \<Rightarrow> compiledPrice" where
  "longest_prefix_price m d key =
     (case m key of
        Some p \<Rightarrow> p
      | None \<Rightarrow> if key = [] then d else longest_prefix_price m d (butlast key))"
  by pat_completeness auto
termination
  by (relation "measure (\<lambda>(m, d, key). length key)") auto

declare longest_prefix_price.simps [simp del]

lemma longest_prefix_price_none:
  "\<forall>q. prefix q key \<longrightarrow> m q = None \<Longrightarrow> longest_prefix_price m d key = d"
proof (induction key rule: rev_induct)
  case (snoc x xs)
  then show ?case by (subst longest_prefix_price.simps) (auto simp: prefix_snoc)
qed (subst longest_prefix_price.simps, simp)

lemma longest_prefix_price_some:
  assumes "prefix q key" "m q = Some p" "\<forall>q'. prefix q' key \<and> m q' \<noteq> None \<longrightarrow> length q' \<le> length q"
  shows "longest_prefix_price m d key = p"
  using assms
proof (induction key rule: rev_induct)
  case (snoc x xs)
  show ?case
  proof (cases "q = xs @ [x]")
    case False
    then have "prefix q xs" using snoc.prems(1) by (simp add: prefix_snoc)
    moreover have "m (xs @ [x]) = None"
      using snoc.prems(3) False \<open>prefix q xs\<close> prefix_length_le [of q xs] by fastforce
    ultimately show ?thesis
      using snoc by (subst longest_prefix_price.simps) (simp add: prefix_snoc)
  qed (use snoc.prems(2) in \<open>subst longest_prefix_price.simps, simp\<close>)
qed (subst longest_prefix_price.simps, simp)

lemma priceFor_wf:
  assumes "table_wf t"
  shows "priceFor (Some t) model = longest_prefix_price (models t) (defaultPrice t) (normalizeModel model)"
proof -
  let ?key = "normalizeModel model"
  show ?thesis
  proof (cases "models t ?key")
    case (Some p)
    then show ?thesis
      by (subst longest_prefix_price.simps) (simp add: priceFor_def table_or_default_def Let_def)
  next
    case None
    show ?thesis
    proof (cases "find (\<lambda>pre. HasPrefix ?key pre) (prefixes t)")
      case none: None
      then have "\<forall>q. prefix q ?key \<longrightarrow> models t q = None"
        using assms by (auto simp: find_None_iff table_wf_def HasPrefix_def)
      then show ?thesis
        using None none by (simp add: priceFor_def table_or_default_def Let_def longest_prefix_price_none)
    next
      case (Some pre)
      then obtain i where i: "i < length (prefixes t)" "pre = prefixes t ! i" "prefix pre ?key"
        "\<forall>j < i. \<not> prefix (prefixes t ! j) ?key"
        by (auto simp: find_Some_iff HasPrefix_def)
      then have "pre \<in> dom (models t)"
        using assms nth_mem by (auto simp: table_wf_def)
      then obtain p where p: "models t pre = Some p" by blast
      have "length q \<le> length pre" if q: "prefix q ?key" "models t q \<noteq> None" for q
      proof -
        have "q \<in> set (prefixes t)" using q(2) assms by (auto simp: table_wf_def)
        then obtain j where j: "j < length (prefixes t)" "q = prefixes t ! j"
          by (auto simp: in_set_conv_nth)
        then have "i \<le> j" using i(4) q(1) by (meson not_le_imp_less)
        then show ?thesis
          using assms i(2) j by (cases "i = j") (auto simp: table_wf_def sorted_wrt_iff_nth_less)
      qed
      then have "longest_prefix_price (models t) (defaultPrice t) ?key = p"
        using i(3) p by (blast intro: longest_prefix_price_some)
      then show ?thesis
        using None Some p by (simp add: priceFor_def table_or_default_def Let_def)
    qed
  qed
qed

text \<open>C31: In every table the code builds, the price of a model is the one configured for the longest
  prefix of its normalised id (the id itself first), and the default when no prefix is configured.\<close>

theorem priceFor_longest_prefix:
  assumes "NewTable dp ms = Inr t"
  shows "priceFor (Some t) model =
     longest_prefix_price (models t) (defaultPrice t) (normalizeModel model)"
  using NewTable_Inr(1) [OF assms] by (rule priceFor_wf)

definition sonnet_models :: "(string \<times> ModelPrice) list" where
  "sonnet_models =
     [(''claude'', mk_price ''10'' '''' ''10''), (''claude-sonnet-4'', mk_price ''3'' '''' ''15'')]"

lemma sonnet_ok: "is_ok (NewTable DefaultPrice sonnet_models)"
  by code_simp

theorem priceFor_longest_prefix_witness:
  "priceFor (Some (projr (NewTable DefaultPrice sonnet_models))) ''Claude-Sonnet-4-5-20250929'' =
     \<lparr>InputMicrosPerM = 3000000, OutputMicrosPerM = 15000000, CachedInputMicrosPerM = 3000000\<rparr>"
  unfolding priceFor_longest_prefix [OF is_ok_projr [OF sonnet_ok]]
  by code_simp

text \<open>
  The table as a map: with distinct normalised ids, the entries of the Go map in any order give the
  same one, so ranging over it in another order cannot change a lookup.
\<close>

lemma map_of_rev_distinct: "distinct (map fst xs) \<Longrightarrow> map_of (rev xs) = map_of xs"
  by (rule map_of_inject_set [THEN iffD2]) (simp_all flip: rev_map)

lemma map_of_mset_eq:
  assumes "mset xs = mset ys" "distinct (map fst xs)"
  shows "map_of xs = map_of ys"
proof -
  have "mset (map fst xs) = mset (map fst ys)" using assms(1) by simp
  then have "distinct (map fst ys)" using assms(2) mset_eq_imp_distinct_iff by blast
  then show ?thesis
    using assms by (subst map_of_inject_set) (auto dest: mset_eq_setD)
qed

lemma NewTable_default:
  "NewTable dp ms = Inr t \<Longrightarrow> NewTable dp ms' = Inr t' \<Longrightarrow> defaultPrice t = defaultPrice t'"
  by (auto simp: NewTable_def split: sum.splits dest!: add_models_Inr)

lemma NewTable_total:
  "NewTable dp ms = Inr t \<Longrightarrow> \<forall>(m, p) \<in> set ms'. normalizeModel m \<noteq> [] \<and> is_ok (compilePrice p) \<Longrightarrow>
   \<exists>t'. NewTable dp ms' = Inr t'"
  using add_models_total [of ms']
  by (auto simp: NewTable_def is_ok_iff split: sum.splits) (metis Inl_Inr_False)

text \<open>The order in which the Go runtime ranges over the map of models does not matter: another
  order of the same entries also builds a table, and it prices every model the same, as long as no
  two ids are equal after trimming and lowering.\<close>

theorem NewTable_order:
  assumes "NewTable dp ms = Inr t" "mset ms' = mset ms" "distinct (map (normalizeModel \<circ> fst) ms)"
  shows "\<exists>t'. NewTable dp ms' = Inr t' \<and> (\<forall>model. priceFor (Some t') model = priceFor (Some t) model)"
proof -
  let ?f = "\<lambda>(m, p). (normalizeModel m, projr (compilePrice p))"
  have "set ms' = set ms" using assms(2) by (rule mset_eq_setD)
  then have "\<forall>(m, p) \<in> set ms'. normalizeModel m \<noteq> [] \<and> is_ok (compilePrice p)"
    using NewTable_Inr(3) [OF assms(1)] by simp
  then obtain t' where t': "NewTable dp ms' = Inr t'"
    using NewTable_total [OF assms(1)] by blast
  have fst_f: "map fst (map ?f xs) = map (normalizeModel \<circ> fst) xs" for xs
    by (simp add: case_prod_beta)
  have d: "distinct (map fst (map ?f ms))" "distinct (map fst (map ?f ms'))"
    using assms(3) mset_eq_imp_distinct_iff [of "map (normalizeModel \<circ> fst) ms'" "map (normalizeModel \<circ> fst) ms"]
      assms(2) unfolding fst_f by (simp_all add: mset_map)
  have "models t' = models t"
    using d assms(2) map_of_mset_eq [of "map ?f ms'" "map ?f ms"]
    by (simp add: NewTable_Inr(2) [OF assms(1)] NewTable_Inr(2) [OF t'] map_of_rev_distinct mset_map)
  then show ?thesis
    using t' NewTable_Inr(1) [OF t'] NewTable_Inr(1) [OF assms(1)] NewTable_default [OF assms(1) t']
    by (simp add: priceFor_wf)
qed

theorem NewTable_order_witness:
  "\<exists>t'. NewTable DefaultPrice (rev sonnet_models) = Inr t' \<and>
     (\<forall>model. priceFor (Some t') model =
        priceFor (Some (projr (NewTable DefaultPrice sonnet_models))) model)"
proof (rule NewTable_order [OF is_ok_projr [OF sonnet_ok]])
  show "distinct (map (normalizeModel \<circ> fst) sonnet_models)" by code_simp
qed simp

text \<open>
  Prices as the built-in table and the documentation write them: up to twelve digits, a point, up
  to six decimals. They are accepted, and are far from the \<open>int64\<close> bound.
\<close>

definition plain_price :: "string \<Rightarrow> bool" where
  "plain_price s =
     (let ds = takeWhile is_digit s; r = dropWhile is_digit s
      in ds \<noteq> [] \<and> length ds \<le> 12 \<and> r \<noteq> [] \<and> hd r = CHR ''.'' \<and>
         length (tl r) \<le> 6 \<and> list_all is_digit (tl r))"

lemma plain_price_ok:
  assumes "plain_price s"
  shows "\<exists>m. parseUSDToMicros s = Inr m \<and> 0 \<le> m"
proof -
  define ds fs where "ds = takeWhile is_digit s" and "fs = tl (dropWhile is_digit s)"
  have r: "dropWhile is_digit s = CHR ''.'' # fs"
    using assms by (auto simp: plain_price_def Let_def fs_def neq_Nil_conv)
  have s: "s = ds @ CHR ''.'' # fs"
    unfolding ds_def r [symmetric] by simp
  have ds: "ds \<noteq> []" "length ds \<le> 12" "\<forall>c \<in> set ds. is_digit c"
    and fs: "length fs \<le> 6" "\<forall>c \<in> set fs. is_digit c"
    using assms by (auto simp: plain_price_def Let_def ds_def fs_def list_all_iff dest: set_takeWhileD)
  let ?v = "dval 0 (ds @ fs)"
  have "(10::int) ^ 6 = 10 ^ length fs * 10 ^ (6 - length fs)"
    using fs(1) by (simp flip: power_add)
  then have n: "int ?v * 10 ^ 6 = 10 ^ length fs * (int ?v * 10 ^ (6 - length fs))"
    by (simp only: mult.assoc mult.commute mult.left_commute)
  have "?v < 10 ^ length (ds @ fs)"
    using ds(3) fs(2) by (intro dval_less) auto
  then have "?v * 10 ^ (6 - length fs) < 10 ^ length (ds @ fs) * 10 ^ (6 - length fs)"
    by simp
  also have "\<dots> \<le> (10::nat) ^ 18"
    using ds(2) fs(1) unfolding power_add [symmetric] by (intro power_increasing) auto
  finally have "int64_range (int ?v * 10 ^ (6 - length fs))"
    using order_trans [of "- (2 ^ 63)" 0 "int ?v * 10 ^ (6 - length fs)"]
    by (simp add: int64_range_def flip: of_nat_less_iff [where 'a = int])
  moreover have "parseUSDToMicros s =
      (if 10 ^ length fs dvd int ?v * 10 ^ 6 then Inr (wrap64 (int ?v * 10 ^ 6 div 10 ^ length fs))
       else Inl (TooPrecise s))"
    unfolding s using fs(1)
    by (intro parse_price_scaled TrimSpace_decimal [OF ds(1,3) fs(2)]
        rat_SetString_decimal(1) [OF ds(1,3) fs(2)]) simp_all
  ultimately show ?thesis
    unfolding n by simp
qed

definition plain_ModelPrice :: "ModelPrice \<Rightarrow> bool" where
  "plain_ModelPrice p \<longleftrightarrow>
     plain_price (InputPerM p) \<and> plain_price (OutputPerM p) \<and>
     (CachedInputPerM p = [] \<or> plain_price (CachedInputPerM p))"

lemma TrimSpace_Nil [simp]: "TrimSpace [] = []"
  by (rule TrimSpace_id)
    (auto simp: clean_left_def clean_right_def dest: space_nonempty)

lemma plain_ModelPrice_ok:
  "plain_ModelPrice p \<Longrightarrow> \<exists>c. compilePrice p = Inr c \<and> price_nonneg c"
  using plain_price_ok [of "InputPerM p"] plain_price_ok [of "OutputPerM p"]
    plain_price_ok [of "CachedInputPerM p"]
  by (auto simp: plain_ModelPrice_def compilePrice_def price_nonneg_def)

lemma plain_is_ok: "plain_ModelPrice p \<Longrightarrow> is_ok (compilePrice p)"
  using plain_ModelPrice_ok [of p] by (auto simp: is_ok_iff)

lemma plain_nonneg: "plain_ModelPrice p \<Longrightarrow> price_nonneg (projr (compilePrice p))"
  using plain_ModelPrice_ok [of p] by auto

lemma NewTable_plain:
  assumes "plain_ModelPrice dp" "\<forall>(m, p) \<in> set ms. normalizeModel m \<noteq> [] \<and> plain_ModelPrice p"
  shows "\<exists>t. NewTable dp ms = Inr t \<and> table_nonneg t"
proof -
  have dp: "fill_default dp = dp"
    using assms(1) by (auto simp: fill_default_def plain_ModelPrice_def plain_price_def Let_def)
  obtain d where d: "compilePrice dp = Inr d" "price_nonneg d"
    using plain_ModelPrice_ok [OF assms(1)] by blast
  have "\<forall>(m, p) \<in> set ms. normalizeModel m \<noteq> [] \<and> is_ok (compilePrice p)"
    using assms(2) by (auto intro: plain_is_ok)
  then obtain t0 where t0: "add_models ms \<lparr>defaultPrice = d, models = Map.empty, prefixes = []\<rparr> = Inr t0"
    using add_models_total [of ms "\<lparr>defaultPrice = d, models = Map.empty, prefixes = []\<rparr>"]
    by (auto simp: is_ok_iff)
  have "price_nonneg (projr (compilePrice p))" if "(m, p) \<in> set ms" for m p
    using assms(2) that by (auto intro: plain_nonneg)
  then have "\<forall>p \<in> ran (models t0). price_nonneg p"
    using add_models_Inr [OF t0] by (auto simp: ran_def dest!: map_of_SomeD)
  then show ?thesis
    using d t0 add_models_Inr [OF t0] by (auto simp: NewTable_def dp table_nonneg_def)
qed

lemma DefaultPrices_plain:
  "plain_ModelPrice DefaultPrice"
  "\<forall>(m, p) \<in> set DefaultPrices. normalizeModel m \<noteq> [] \<and> plain_ModelPrice p"
proof -
  show "plain_ModelPrice DefaultPrice" by code_simp
  have "list_all (\<lambda>(m, p). normalizeModel m \<noteq> [] \<and> plain_ModelPrice p) DefaultPrices" by code_simp
  then show "\<forall>(m, p) \<in> set DefaultPrices. normalizeModel m \<noteq> [] \<and> plain_ModelPrice p"
    by (simp only: list_all_iff)
qed

lemma DefaultTable_Inr: "\<exists>t. DefaultTable = Inr t \<and> table_nonneg t"
  unfolding DefaultTable_def by (rule NewTable_plain [OF DefaultPrices_plain])

subsection \<open>Tables from stored entries\<close>

definition valid_entry :: "ModelPriceEntry \<Rightarrow> bool" where
  "valid_entry e \<longleftrightarrow> normalizeModel (Model e) \<noteq> [] \<and> is_ok (compilePrice (entry_price e))"

definition entry_map :: "ModelPriceEntry list \<Rightarrow> (string \<times> ModelPrice) list" where
  "entry_map es = fold (\<lambda>e. AList.update (Model e) (entry_price e)) es []"

lemma set_AList_update: "set (AList.update k v xs) \<subseteq> insert (k, v) (set xs)"
  by (induction xs) auto

lemma set_entry_map: "set (entry_map es) \<subseteq> (\<lambda>e. (Model e, entry_price e)) ` set es"
proof -
  have "set (fold (\<lambda>e. AList.update (Model e) (entry_price e)) es xs)
      \<subseteq> set xs \<union> (\<lambda>e. (Model e, entry_price e)) ` set es" for xs
  proof (induction es arbitrary: xs)
    case (Cons e es)
    then show ?case using set_AList_update [of "Model e" "entry_price e" xs] by fastforce
  qed simp
  from this [of "[]"] show ?thesis by (simp add: entry_map_def)
qed

lemma update_new: "k \<notin> fst ` set xs \<Longrightarrow> AList.update k v xs = xs @ [(k, v)]"
  by (induction xs) auto

text \<open>Distinct ids (a primary key) are kept as they come.\<close>

lemma entry_map_distinct:
  "distinct (map Model es) \<Longrightarrow> entry_map es = map (\<lambda>e. (Model e, entry_price e)) es"
proof -
  have "distinct (map Model es) \<Longrightarrow> Model ` set es \<inter> fst ` set xs = {} \<Longrightarrow>
      fold (\<lambda>e. AList.update (Model e) (entry_price e)) es xs = xs @ map (\<lambda>e. (Model e, entry_price e)) es"
    for xs
    by (induction es arbitrary: xs) (auto simp: update_new)
  from this [of "[]"] show "distinct (map Model es) \<Longrightarrow> ?thesis" by (simp add: entry_map_def)
qed

lemma NewTableFromEntries_alt: "NewTableFromEntries dp es = NewTable dp (entry_map es)"
  by (simp add: NewTableFromEntries_def entry_map_def)

lemma NewTable_valid:
  assumes "is_ok (compilePrice (fill_default dp))"
    "\<forall>(m, p) \<in> set ms. normalizeModel m \<noteq> [] \<and> is_ok (compilePrice p)"
  shows "is_ok (NewTable dp ms)"
proof -
  obtain d where "compilePrice (fill_default dp) = Inr d" using assms(1) by (auto simp: is_ok_iff)
  then show ?thesis
    using add_models_total [OF assms(2), of "\<lparr>defaultPrice = d, models = Map.empty, prefixes = []\<rparr>"]
    by (auto simp: NewTable_def is_ok_iff)
qed

lemma fill_DefaultPrice: "fill_default DefaultPrice = DefaultPrice"
  by (simp add: fill_default_def DefaultPrice_def)

lemma NewTableFromEntries_valid:
  assumes "\<forall>e \<in> set es. valid_entry e"
  shows "is_ok (NewTableFromEntries DefaultPrice es)"
  unfolding NewTableFromEntries_alt
proof (rule NewTable_valid)
  show "is_ok (compilePrice (fill_default DefaultPrice))"
    by (simp add: fill_DefaultPrice plain_is_ok DefaultPrices_plain(1))
  show "\<forall>(m, p) \<in> set (entry_map es). normalizeModel m \<noteq> [] \<and> is_ok (compilePrice p)"
    using assms set_entry_map [of es] by (auto simp: valid_entry_def)
qed

text \<open>A table built from rows whose ids are normalised and distinct is the map of those rows.\<close>

lemma NewTableFromEntries_models:
  assumes "NewTableFromEntries dp es = Inr t" "distinct (map Model es)"
    "\<forall>e \<in> set es. normalizeModel (Model e) = Model e"
  shows "models t = map_of (map (\<lambda>e. (Model e, projr (compilePrice (entry_price e)))) es)"
proof -
  let ?g = "\<lambda>e. (Model e, projr (compilePrice (entry_price e)))"
  have "map (\<lambda>(m, p). (normalizeModel m, projr (compilePrice p))) (entry_map es) = map ?g es"
    using assms(3) by (simp add: entry_map_distinct [OF assms(2)])
  then have "models t = map_of (rev (map ?g es))"
    using NewTable_Inr(2) [OF assms(1) [unfolded NewTableFromEntries_alt]] by simp
  also have "\<dots> = map_of (map ?g es)"
    by (rule map_of_rev_distinct) (simp add: comp_def assms(2))
  finally show ?thesis .
qed

lemma DefaultEntries_set: "set DefaultEntries =
   (\<lambda>(model, price). \<lparr>Model = model, Input = InputPerM price, Output = OutputPerM price,
      CachedInput = CachedInputPerM price, IsDefault = True\<rparr>) ` set DefaultPrices"
  unfolding DefaultEntries_def by simp

lemma DefaultEntries_valid: "\<forall>e \<in> set DefaultEntries. valid_entry e"
proof -
  have "plain_ModelPrice \<lparr>InputPerM = InputPerM p, OutputPerM = OutputPerM p,
      CachedInputPerM = CachedInputPerM p\<rparr> = plain_ModelPrice p" for p
    by (simp add: plain_ModelPrice_def)
  then show ?thesis
    using DefaultPrices_plain(2)
    by (auto simp: DefaultEntries_set valid_entry_def entry_price_def intro!: plain_is_ok)
qed

text \<open>The built-in table has no error, so ignoring the error of \<open>DefaultTable\<close> (as
  \<open>priceFor\<close>, \<open>NewManager\<close> and \<open>CostMicroUSDC\<close> do) is safe; none of its prices is negative, and
  the rows \<open>DefaultEntries\<close> stored at boot build a table too.\<close>

theorem DefaultTable_ok:
  "is_ok DefaultTable \<and> table_nonneg (projr DefaultTable) \<and>
   is_ok (NewTableFromEntries DefaultPrice DefaultEntries)"
proof -
  obtain t where t: "DefaultTable = Inr t" "table_nonneg t" using DefaultTable_Inr by blast
  show ?thesis
    unfolding t(1) using t(2) NewTableFromEntries_valid [OF DefaultEntries_valid] by simp
qed

subsection \<open>The cost formula\<close>

lemma ceilRat_ceiling: "brat_wf r \<Longrightarrow> 0 \<le> Num r \<Longrightarrow> ceilRat r = \<lceil>rval r\<rceil>"
proof -
  assume wf: "brat_wf r" and nn: "0 \<le> Num r"
  then have d: "0 < Denom r" by (simp add: brat_wf_def)
  have "\<lceil>rval r\<rceil> = - ((- Num r) div Denom r)"
    by (simp add: rval_def ceiling_divide_eq_div)
  also have "\<dots> = (if Num r mod Denom r \<noteq> 0 then Num r div Denom r + 1 else Num r div Denom r)"
    using d by (simp add: zdiv_zminus1_eq_if)
  finally show ?thesis
    using nn by (cases "Num r = 0") (simp_all add: ceilRat_def Let_def)
qed

text \<open>
  The amount before rounding, in millionths of a base unit, and the formula of the README:
  \<open>ceil (ceil (tokens * prices / 1000000) * MARKUP)\<close>.
\<close>

definition exact_cost :: "compiledPrice \<Rightarrow> Usage \<Rightarrow> int" where
  "exact_cost p u =
     (let prompt = max (PromptTokens u) 0; cached = min (max (CachedTokens u) 0) prompt
      in (prompt - cached) * InputMicrosPerM p + cached * CachedInputMicrosPerM p +
         max (CompletionTokens u) 0 * OutputMicrosPerM p)"

definition charge :: "compiledPrice \<Rightarrow> Usage \<Rightarrow> rat \<Rightarrow> int" where
  "charge p u mk = \<lceil>of_int \<lceil>of_int (exact_cost p u) / 1000000 :: rat\<rceil> * mk\<rceil>"

definition used_tokens :: "Usage \<Rightarrow> bool" where
  "used_tokens u \<longleftrightarrow> 0 < PromptTokens u \<or> 0 < CompletionTokens u"

lemma div_million_ceiling: "(x + 999999) div 1000000 = \<lceil>of_int x / 1000000 :: rat\<rceil>"
proof -
  have "\<lceil>of_int x / of_int 1000000 :: rat\<rceil> = - ((- x) div 1000000)"
    by (simp only: ceiling_divide_eq_div)
  then show ?thesis by simp
qed

text \<open>The factor the code applies: the markup when it is finite and positive, else 1.\<close>

definition markup_factor :: "f64 \<Rightarrow> rat" where
  "markup_factor mk = (case mk of Fin r \<Rightarrow> if 0 < Num r then rval r else 1 | _ \<Rightarrow> 1)"

lemma exact_cost_nonneg: "price_nonneg p \<Longrightarrow> 0 \<le> exact_cost p u"
  by (simp add: exact_cost_def Let_def price_nonneg_def)

lemma charge_nonneg: "price_nonneg p \<Longrightarrow> 0 \<le> mk \<Longrightarrow> 0 \<le> charge p u mk"
proof -
  assume "price_nonneg p" "0 \<le> mk"
  then have "(0 :: rat) \<le> of_int \<lceil>of_int (exact_cost p u) / 1000000 :: rat\<rceil> * mk"
    using exact_cost_nonneg [of p u] by (intro mult_nonneg_nonneg) simp_all
  then show ?thesis unfolding charge_def
    by (metis ceiling_mono ceiling_zero)
qed

lemma priceFor_nonneg: "table_nonneg (table_or_default t) \<Longrightarrow> price_nonneg (priceFor t model)"
  by (auto simp: priceFor_def Let_def table_nonneg_def price_nonneg_def zero_price_def ran_def
      split: option.splits)

lemma rval_one_iff: "brat_wf r \<Longrightarrow> rval r = 1 \<longleftrightarrow> r = BRat 1 1"
  using rval_inject [of r "BRat 1 1"] by (simp add: brat_wf_def rval_def)

lemma cost_charge:
  assumes "table_nonneg (table_or_default t)" "f64_wf mk"
  shows "CostMicroUSDC t model u mk =
     (let c = charge (priceFor t model) u (markup_factor mk)
      in if c = 0 \<and> used_tokens u then 1 else c)"
proof -
  let ?p = "priceFor t model"
  let ?base = "\<lceil>of_int (exact_cost ?p u) / 1000000 :: rat\<rceil>"
  have nn: "price_nonneg ?p" using assms(1) by (rule priceFor_nonneg)
  then have base: "0 \<le> ?base" using exact_cost_nonneg [of ?p u] by simp
  have mul: "ceilRat (brat_mul (brat_of_int ?base) r) = \<lceil>of_int ?base * rval r\<rceil>"
    if "brat_wf r" "0 \<le> Num r" for r
  proof -
    have "0 \<le> rval (brat_mul (brat_of_int ?base) r)"
      using that base by (simp add: rval_mul rval_nonneg_iff)
    then have "0 \<le> Num (brat_mul (brat_of_int ?base) r)"
      using that by (simp add: rval_nonneg_iff)
    then show ?thesis using that by (simp add: ceilRat_ceiling rval_mul)
  qed
  have total: "(let markupRat = case SetFloat64 mk of Some r \<Rightarrow> r | None \<Rightarrow> BRat 1 1
      in ceilRat (brat_mul (brat_of_int ?base) markupRat)) = charge ?p u (markup_factor mk)"
    if "f64_pos mk"
    using that assms(2) mul [of "BRat 1 1"]
    by (cases mk) (auto simp: charge_def markup_factor_def mul brat_wf_def [of "BRat 1 1"] rval_def [of "BRat 1 1"])
  have one: "charge ?p u (markup_factor mk) = ?base" if "\<not> f64_pos mk \<or> mk = f64_one"
    using that by (cases mk) (auto simp: charge_def markup_factor_def f64_one_def rval_def)
  let ?X = "let markupRat = case SetFloat64 mk of Some r \<Rightarrow> r | None \<Rightarrow> BRat 1 1
      in ceilRat (brat_mul (brat_of_int ?base) markupRat)"
  have "CostMicroUSDC t model u mk =
      (let total = (if f64_pos mk \<and> mk \<noteq> f64_one then ?X else ?base)
       in if total = 0 \<and> used_tokens u then 1 else total)"
    by (simp only: CostMicroUSDC_def Let_def exact_cost_def used_tokens_def div_million_ceiling)
  moreover have "(if f64_pos mk \<and> mk \<noteq> f64_one then ?X else ?base) = charge ?p u (markup_factor mk)"
    using total one by argo
  ultimately show ?thesis by (simp only:)
qed

text \<open>C27: On a table without negative prices the cost is the documented formula: the ceiling of
  tokens times prices, cached input tokens (never more than the prompt) at their own price, then the
  ceiling after the markup; a call that used tokens is never free. A markup that is not finite
  or not positive counts as 1.\<close>

theorem cost_formula:
  assumes "table_nonneg (table_or_default t)" "f64_wf mk"
  shows "CostMicroUSDC t model u mk =
     (let c = charge (priceFor t model) u (markup_factor mk)
      in if c = 0 \<and> used_tokens u then 1 else c)"
  using assms by (rule cost_charge)

definition sample_usage :: Usage where
  "sample_usage = \<lparr>PromptTokens = 1000000, CompletionTokens = 100000, CachedTokens = 250000\<rparr>"

lemma default_nonneg: "table_nonneg (table_or_default None)"
proof -
  obtain t where t: "DefaultTable = Inr t" "table_nonneg t" using DefaultTable_Inr by blast
  show ?thesis unfolding table_or_default_def t(1) using t(2) by simp
qed

lemma f64_wf_sample: "f64_wf (Fin (BRat 5 4))"
proof -
  have "gcd (5::int) 4 = 1" by code_simp
  then have "coprime (5::int) 4" by (simp add: coprime_iff_gcd_eq_1)
  then show ?thesis by (simp add: brat_wf_def)
qed

theorem cost_formula_witness:
  "CostMicroUSDC None ''gpt-4o'' sample_usage (Fin (BRat 5 4)) =
     (let c = charge (priceFor None ''gpt-4o'') sample_usage (markup_factor (Fin (BRat 5 4)))
      in if c = 0 \<and> used_tokens sample_usage then 1 else c)"
  by (rule cost_formula [OF default_nonneg f64_wf_sample])

lemma markup_factor_pos: "f64_wf mk \<Longrightarrow> 0 < markup_factor mk"
  by (cases mk) (auto simp: markup_factor_def rval_pos_iff)

lemma charge_bounds:
  assumes "0 < mk"
  shows "of_int (exact_cost p u) / 1000000 * mk \<le> of_int (charge p u mk)"
    and "of_int (charge p u mk) < of_int (exact_cost p u) / 1000000 * mk + mk + 1"
proof -
  let ?x = "of_int (exact_cost p u) / 1000000 :: rat"
  have "?x * mk \<le> of_int \<lceil>?x\<rceil> * mk"
    using assms by (intro mult_right_mono) (simp_all add: le_of_int_ceiling)
  also have "\<dots> \<le> of_int (charge p u mk)" by (simp add: charge_def le_of_int_ceiling)
  finally show "?x * mk \<le> of_int (charge p u mk)" .
  have "of_int (charge p u mk) < of_int \<lceil>?x\<rceil> * mk + 1"
    unfolding charge_def using ceiling_correct [of "of_int \<lceil>?x\<rceil> * mk"] by linarith
  also have "of_int \<lceil>?x\<rceil> * mk \<le> (?x + 1) * mk"
    using assms ceiling_correct [of ?x] by (intro mult_right_mono) linarith+
  finally show "of_int (charge p u mk) < ?x * mk + mk + 1" by (simp add: algebra_simps)
qed

text \<open>C28: The cost never falls below tokens times prices times markup, and exceeds it by less than
  one markup plus one base unit: two ceilings and the one-unit minimum are all the rounding there
  is.\<close>

theorem cost_bounds:
  assumes "table_nonneg (table_or_default t)" "f64_wf mk"
  shows "of_int (exact_cost (priceFor t model) u) / 1000000 * markup_factor mk
           \<le> of_int (CostMicroUSDC t model u mk)
       \<and> of_int (CostMicroUSDC t model u mk)
           < of_int (exact_cost (priceFor t model) u) / 1000000 * markup_factor mk + markup_factor mk + 1"
proof -
  let ?p = "priceFor t model" and ?m = "markup_factor mk"
  have m: "0 < ?m" using assms(2) by (rule markup_factor_pos)
  have "0 \<le> of_int (exact_cost ?p u) / 1000000 * ?m"
    using m exact_cost_nonneg [OF priceFor_nonneg [OF assms(1)], of model u] by simp
  then show ?thesis
    using charge_bounds [OF m, of ?p u] m
    by (auto simp: cost_charge [OF assms] Let_def)
qed

theorem cost_bounds_witness:
  "of_int (exact_cost (priceFor None ''gpt-4o'') sample_usage) / 1000000 * markup_factor (Fin (BRat 5 4))
     \<le> of_int (CostMicroUSDC None ''gpt-4o'' sample_usage (Fin (BRat 5 4)))"
  using cost_bounds [OF default_nonneg f64_wf_sample] by blast

lemma exact_cost_mono:
  assumes "price_nonneg p" "PromptTokens u \<le> PromptTokens v" "CompletionTokens u \<le> CompletionTokens v"
    "CachedTokens u = CachedTokens v"
  shows "exact_cost p u \<le> exact_cost p v"
  unfolding exact_cost_def Let_def
proof (intro add_mono mult_right_mono)
qed (use assms in \<open>auto simp: price_nonneg_def\<close>)

text \<open>A longer answer, a longer prompt or a higher markup never makes a call cheaper (with the
  same number of cached tokens reported).\<close>

theorem cost_monotone:
  assumes "table_nonneg (table_or_default t)" "f64_wf mk" "f64_wf mk'"
    and "PromptTokens u \<le> PromptTokens v" "CompletionTokens u \<le> CompletionTokens v"
    and "CachedTokens u = CachedTokens v" "markup_factor mk \<le> markup_factor mk'"
  shows "CostMicroUSDC t model u mk \<le> CostMicroUSDC t model v mk'"
proof -
  let ?p = "priceFor t model"
  let ?c = "\<lambda>u. \<lceil>of_int (exact_cost ?p u) / 1000000 :: rat\<rceil>"
  have nn: "price_nonneg ?p" using assms(1) by (rule priceFor_nonneg)
  have m: "0 < markup_factor mk" using assms(2) by (rule markup_factor_pos)
  have "exact_cost ?p u \<le> exact_cost ?p v" by (rule exact_cost_mono [OF nn assms(4-6)])
  then have "?c u \<le> ?c v" by (intro ceiling_mono) (simp add: divide_right_mono)
  moreover have "0 \<le> ?c v" using exact_cost_nonneg [OF nn, of v] by simp
  ultimately have "of_int (?c u) * markup_factor mk \<le> of_int (?c v) * markup_factor mk'"
    using m assms(7) by (intro mult_mono) simp_all
  then have "charge ?p u (markup_factor mk) \<le> charge ?p v (markup_factor mk')"
    unfolding charge_def by (rule ceiling_mono)
  moreover have "0 \<le> charge ?p u (markup_factor mk)" using nn m by (simp add: charge_nonneg)
  moreover have "used_tokens u \<Longrightarrow> used_tokens v" using assms(4,5) by (auto simp: used_tokens_def)
  ultimately show ?thesis
    by (auto simp: cost_charge [OF assms(1,2)] cost_charge [OF assms(1,3)] Let_def)
qed

theorem cost_monotone_witness:
  "CostMicroUSDC None ''gpt-4o'' sample_usage (Fin (BRat 5 4)) \<le>
   CostMicroUSDC None ''gpt-4o'' (sample_usage\<lparr>CompletionTokens := 100001\<rparr>) (Fin (BRat 5 4))"
  by (rule cost_monotone [OF default_nonneg f64_wf_sample f64_wf_sample]) (simp_all add: sample_usage_def)

subsection \<open>What a quoting client may rely on\<close>

text \<open>
  The relay only needs that a quoted amount is never negative, and positive for a call that used
  tokens; then the decimal it prints in a challenge reads back as a positive amount.
\<close>

locale quoting =
  fixes quote :: "'t \<Rightarrow> string \<Rightarrow> Usage \<Rightarrow> f64 \<Rightarrow> int"
    and sound :: "'t \<Rightarrow> bool"
  assumes quote_nonneg: "sound t \<Longrightarrow> f64_wf mk \<Longrightarrow> 0 \<le> quote t model u mk"
    and quote_nonzero: "sound t \<Longrightarrow> f64_wf mk \<Longrightarrow> used_tokens u \<Longrightarrow> quote t model u mk \<noteq> 0"
begin

lemma quote_pos: "sound t \<Longrightarrow> f64_wf mk \<Longrightarrow> used_tokens u \<Longrightarrow> 0 < quote t model u mk"
  using quote_nonneg [of t mk model u] quote_nonzero [of t mk u model] by simp

lemma printed_quote_pos:
  "sound t \<Longrightarrow> f64_wf mk \<Longrightarrow> used_tokens u \<Longrightarrow>
   \<exists>v. int_SetString False (itoa (quote t model u mk)) = Some v \<and> v = quote t model u mk \<and> 0 < v"
  using quote_pos by simp

end

definition manager_sound :: "Manager \<Rightarrow> bool" where
  "manager_sound m \<longleftrightarrow> table_nonneg (table_or_default (mtable m))"

interpretation manager_quote: quoting Manager_CostMicroUSDC manager_sound
proof
  fix t model u mk
  assume a: "manager_sound t" "f64_wf mk"
  then have c: "0 \<le> charge (priceFor (mtable t) model) u (markup_factor mk)"
    using charge_nonneg [OF priceFor_nonneg] markup_factor_pos [of mk]
    by (simp add: manager_sound_def)
  note f = cost_charge [OF a(1) [unfolded manager_sound_def] a(2)]
  show "0 \<le> Manager_CostMicroUSDC t model u mk"
    using c by (simp add: Manager_CostMicroUSDC_def f Let_def)
  show "Manager_CostMicroUSDC t model u mk \<noteq> 0" if "used_tokens u"
    using that c by (simp add: Manager_CostMicroUSDC_def f Let_def)
qed

subsection \<open>Prices beyond \<open>int64\<close>\<close>

definition huge_entry :: ModelPriceEntry where
  "huge_entry = \<lparr>Model = ''m'', Input = ''10000000000000'', Output = ''1'', CachedInput = '''',
                IsDefault = False\<rparr>"

text \<open>The check for negative prices comes before the conversion to \<open>int64\<close>, which wraps
  silently: the price 10000000000000 (USD per million tokens) is accepted, its table entry is
  negative, and a call of one prompt token costs a negative amount.\<close>

theorem price_overflow_accepted:
  "parseUSDToMicros ''10000000000000'' = Inr (-8446744073709551616) \<and>
   (case NewTableFromEntries DefaultPrice [huge_entry] of
      Inl _ \<Rightarrow> False
    | Inr t \<Rightarrow>
        CostMicroUSDC (Some t) ''m'' \<lparr>PromptTokens = 1, CompletionTokens = 0, CachedTokens = 0\<rparr> f64_one
          = -8446744073709)"
proof
  show "parseUSDToMicros ''10000000000000'' = Inr (-8446744073709551616)" by code_simp
qed code_simp

end
