(* ===== verification/GoJson.thy ===== *)
theory GoJson
  imports GoNum
begin

section \<open>Reading and writing JSON\<close>

text \<open>
  What the server uses of \<open>encoding/json\<close>. \<open>json_parse\<close> is the syntax check and the reading of
  a document: JSON's grammar, nesting up to 10000 levels, strings unescaped with ill-formed UTF-8
  and lone surrogates replaced by U+FFFD. An object keeps its members in order, each with the raw
  text of its value (for \<open>json.RawMessage\<close>). Decoding into a struct goes member by member: a key
  matches a field up to case, later members overwrite earlier ones, \<open>null\<close> leaves a field alone,
  and a value of the wrong type leaves the field alone too but makes \<open>Unmarshal\<close> return an error
  at the end. \<open>json_quote\<close> writes a string the way \<open>json.Marshal\<close> does.
\<close>

subsection \<open>UTF-8\<close>

definition between :: "nat \<Rightarrow> nat \<Rightarrow> char \<Rightarrow> bool" where
  "between lo hi c \<longleftrightarrow> lo \<le> code c \<and> code c \<le> hi"

definition tail_byte :: "char \<Rightarrow> bool" where
  "tail_byte = between 0x80 0xBF"

text \<open>The well-formed sequences, and how many bytes the one at the head takes (0 if there is none).\<close>

fun utf8_seq :: "string \<Rightarrow> bool" where
  "utf8_seq [c] = (code c < 0x80)"
| "utf8_seq [c, d] = (between 0xC2 0xDF c \<and> tail_byte d)"
| "utf8_seq [c, d, e] =
     (between 0xE0 0xEF c \<and> tail_byte e \<and>
      between (if code c = 0xE0 then 0xA0 else 0x80) (if code c = 0xED then 0x9F else 0xBF) d)"
| "utf8_seq [c, d, e, f] =
     (between 0xF0 0xF4 c \<and> tail_byte e \<and> tail_byte f \<and>
      between (if code c = 0xF0 then 0x90 else 0x80) (if code c = 0xF4 then 0x8F else 0xBF) d)"
| "utf8_seq _ = False"

definition utf8_head :: "string \<Rightarrow> nat" where
  "utf8_head s =
     (if utf8_seq (take 1 s) then 1 else if utf8_seq (take 2 s) then 2
      else if utf8_seq (take 3 s) then 3 else if utf8_seq (take 4 s) then 4 else 0)"

definition utf8_encode :: "nat \<Rightarrow> string" where
  "utf8_encode r =
     (if r < 0x80 then [char_of r]
      else if r < 0x800 then [char_of (0xC0 + r div 64), char_of (0x80 + r mod 64)]
      else if r < 0x10000 then
        [char_of (0xE0 + r div 4096), char_of (0x80 + r div 64 mod 64), char_of (0x80 + r mod 64)]
      else
        [char_of (0xF0 + r div 262144), char_of (0x80 + r div 4096 mod 64),
         char_of (0x80 + r div 64 mod 64), char_of (0x80 + r mod 64)])"

definition rune_error :: string where
  "rune_error = utf8_encode 0xFFFD"

subsection \<open>Strings\<close>

definition hex_value :: "char \<Rightarrow> nat option" where
  "hex_value c =
     (if between 48 57 c then Some (code c - 48)
      else if between 97 102 c then Some (code c - 87)
      else if between 65 70 c then Some (code c - 55)
      else None)"

definition hex4 :: "string \<Rightarrow> nat option" where
  "hex4 s =
     (case map hex_value (take 4 s) of
        [Some a, Some b, Some c, Some d] \<Rightarrow> Some (((a * 16 + b) * 16 + c) * 16 + d)
      | _ \<Rightarrow> None)"

definition quote_char :: char where "quote_char = CHR 0x22"
definition backslash :: char where "backslash = CHR 0x5C"

fun simple_escape :: "char \<Rightarrow> char option" where
  "simple_escape e =
     (if e = quote_char \<or> e = backslash \<or> e = CHR ''/'' then Some e
      else if e = CHR ''b'' then Some (CHR 0x08)
      else if e = CHR ''f'' then Some (CHR 0x0C)
      else if e = CHR ''n'' then Some (CHR 0x0A)
      else if e = CHR ''r'' then Some (CHR 0x0D)
      else if e = CHR ''t'' then Some (CHR 0x09)
      else None)"

text \<open>
  The \<open>\u\<close> escapes: the text after the \<open>u\<close> gives a rune and the number of characters used. A
  leading surrogate takes the trailing one of the next escape with it.
\<close>

definition unicode_escape :: "string \<Rightarrow> (string \<times> nat) option" where
  "unicode_escape s =
     (case hex4 s of
        None \<Rightarrow> None
      | Some r \<Rightarrow>
          if r < 0xD800 \<or> 0xDFFF < r then Some (utf8_encode r, 4)
          else
            (case (r < 0xDC00, take 2 (drop 4 s) = [backslash, CHR ''u''], hex4 (drop 6 s)) of
               (True, True, Some r2) \<Rightarrow>
                 if 0xDC00 \<le> r2 \<and> r2 \<le> 0xDFFF
                 then Some (utf8_encode (0x10000 + (r - 0xD800) * 1024 + (r2 - 0xDC00)), 10)
                 else Some (rune_error, 4)
             | _ \<Rightarrow> Some (rune_error, 4)))"

definition prepend :: "string \<Rightarrow> (string \<times> string) option \<Rightarrow> (string \<times> string) option" where
  "prepend p = map_option (\<lambda>(s, rest). (p @ s, rest))"

text \<open>
  One character of a string: the bytes it stands for, and how many further characters of the text it
  takes.
\<close>

definition json_char :: "char \<Rightarrow> string \<Rightarrow> (string \<times> nat) option" where
  "json_char c cs =
     (if c = backslash then
        (case cs of
           [] \<Rightarrow> None
         | e # cs' \<Rightarrow>
             if e = CHR ''u'' then map_option (\<lambda>(w, n). (w, n + 1)) (unicode_escape cs')
             else map_option (\<lambda>x. ([x], 1)) (simple_escape e))
      else if code c < 0x20 then None
      else
        let n = utf8_head (c # cs)
        in if n = 0 then Some (rune_error, 0) else Some (take n (c # cs), n - 1))"

text \<open>The body of a string after its opening quote: the bytes it stands for, and what follows.\<close>

fun json_str :: "string \<Rightarrow> (string \<times> string) option" where
  "json_str [] = None"
| "json_str (c # cs) =
     (if c = quote_char then Some ([], cs)
      else
        case json_char c cs of
          None \<Rightarrow> None
        | Some (w, n) \<Rightarrow> prepend w (json_str (drop n cs)))"

subsection \<open>Values\<close>

datatype json =
    JNull
  | JBool bool
  | JNum string
  | JStr string
  | JArr "json list"
  | JObj "(string \<times> string \<times> json) list"

definition is_ws :: "char \<Rightarrow> bool" where
  "is_ws c \<longleftrightarrow> c = CHR 0x20 \<or> c = CHR 0x09 \<or> c = CHR 0x0A \<or> c = CHR 0x0D"

definition skip_ws :: "string \<Rightarrow> string" where
  "skip_ws = dropWhile is_ws"

text \<open>Digits at the head, and the rest; then an optional fraction and an optional exponent.\<close>

definition digits1 :: "string \<Rightarrow> (string \<times> string) option" where
  "digits1 s = (case takeWhile is_digit s of [] \<Rightarrow> None | ds \<Rightarrow> Some (ds, dropWhile is_digit s))"

definition num_int :: "string \<Rightarrow> (string \<times> string) option" where
  "num_int s = (case s of c # cs \<Rightarrow> if c = CHR ''0'' then Some ([c], cs) else digits1 s | [] \<Rightarrow> None)"

definition num_frac :: "string \<Rightarrow> (string \<times> string) option" where
  "num_frac s =
     (case s of c # cs \<Rightarrow> if c = CHR ''.'' then prepend [c] (digits1 cs) else Some ([], s)
      | [] \<Rightarrow> Some ([], []))"

definition num_exp :: "string \<Rightarrow> (string \<times> string) option" where
  "num_exp s =
     (case s of
        c # cs \<Rightarrow>
          if c = CHR ''e'' \<or> c = CHR ''E'' then
            (case cs of
               d # ds \<Rightarrow> if d = CHR ''+'' \<or> d = CHR ''-'' then prepend [c, d] (digits1 ds)
                         else prepend [c] (digits1 cs)
             | [] \<Rightarrow> None)
          else Some ([], s)
      | [] \<Rightarrow> Some ([], []))"

definition json_unsigned :: "string \<Rightarrow> (string \<times> string) option" where
  "json_unsigned s =
     (case num_int s of None \<Rightarrow> None
      | Some (i, s2) \<Rightarrow>
          (case num_frac s2 of None \<Rightarrow> None
           | Some (f, s3) \<Rightarrow>
               (case num_exp s3 of None \<Rightarrow> None
                | Some (e, s4) \<Rightarrow> Some (i @ f @ e, s4))))"

definition json_num :: "string \<Rightarrow> (string \<times> string) option" where
  "json_num s =
     (if HasPrefix s ''-'' then prepend ''-'' (json_unsigned (tl s)) else json_unsigned s)"

definition literal :: "string \<Rightarrow> json \<Rightarrow> string \<Rightarrow> (json \<times> string) option" where
  "literal w v s = (if HasPrefix s w then Some (v, drop (length w) s) else None)"

text \<open>The quoted key of a member and the colon after it; white space around the colon is skipped.\<close>

definition member_key :: "string \<Rightarrow> (string \<times> string) option" where
  "member_key s =
     (case s of
        [] \<Rightarrow> None
      | q # s1 \<Rightarrow>
          if q \<noteq> quote_char then None
          else
            case json_str s1 of
              None \<Rightarrow> None
            | Some (k, s2) \<Rightarrow>
                (case skip_ws s2 of
                   [] \<Rightarrow> None
                 | colon # s3 \<Rightarrow> if colon \<noteq> CHR '':'' then None else Some (k, skip_ws s3)))"

text \<open>
  The value at the head of a text (white space before it already skipped). \<open>room\<close> is how much
  deeper objects and arrays may still nest. The first argument is fuel for the recursion; every
  call uses up a character of the text or comes right before one that does, so twice the length
  is enough (\<open>parse_value_fuel\<close>).
\<close>

fun parse_value :: "nat \<Rightarrow> nat \<Rightarrow> string \<Rightarrow> (json \<times> string) option"
and parse_elems :: "nat \<Rightarrow> nat \<Rightarrow> string \<Rightarrow> (json list \<times> string) option"
and parse_members :: "nat \<Rightarrow> nat \<Rightarrow> string \<Rightarrow> ((string \<times> string \<times> json) list \<times> string) option"
where
  "parse_value 0 room s = None"
| "parse_value (Suc n) room s =
     (case s of
        [] \<Rightarrow> None
      | c # cs \<Rightarrow>
          if c = CHR ''{'' then
            (if room = 0 then None
             else if HasPrefix (skip_ws cs) ''}'' then Some (JObj [], tl (skip_ws cs))
             else map_option (\<lambda>(ms, r). (JObj ms, r)) (parse_members n (room - 1) (skip_ws cs)))
          else if c = CHR ''['' then
            (if room = 0 then None
             else if HasPrefix (skip_ws cs) '']'' then Some (JArr [], tl (skip_ws cs))
             else map_option (\<lambda>(vs, r). (JArr vs, r)) (parse_elems n (room - 1) (skip_ws cs)))
          else if c = quote_char then map_option (\<lambda>(t, r). (JStr t, r)) (json_str cs)
          else if c = CHR ''t'' then literal ''true'' (JBool True) s
          else if c = CHR ''f'' then literal ''false'' (JBool False) s
          else if c = CHR ''n'' then literal ''null'' JNull s
          else map_option (\<lambda>(t, r). (JNum t, r)) (json_num s))"
| "parse_elems 0 room s = None"
| "parse_elems (Suc n) room s =
     (case parse_value n room s of
        None \<Rightarrow> None
      | Some (v, r) \<Rightarrow>
          (case skip_ws r of
             c # r' \<Rightarrow>
               if c = CHR '','' then
                 map_option (\<lambda>(vs, r). (v # vs, r)) (parse_elems n room (skip_ws r'))
               else if c = CHR '']'' then Some ([v], r') else None
           | [] \<Rightarrow> None))"
| "parse_members 0 room s = None"
| "parse_members (Suc n) room s =
     (case member_key s of
        None \<Rightarrow> None
      | Some (k, s3) \<Rightarrow>
          (case parse_value n room s3 of
             None \<Rightarrow> None
           | Some (v, r) \<Rightarrow>
               let m = (k, take (length s3 - length r) s3, v)
               in (case skip_ws r of
                     c # r' \<Rightarrow>
                       if c = CHR '','' then
                         map_option (\<lambda>(ms, r). (m # ms, r)) (parse_members n room (skip_ws r'))
                       else if c = CHR ''}'' then Some ([m], r') else None
                   | [] \<Rightarrow> None)))"

definition max_nesting :: nat where
  "max_nesting = 10000"

definition parse_first :: "string \<Rightarrow> (json \<times> string) option" where
  "parse_first s = (let s = skip_ws s in parse_value (2 * length s + 2) max_nesting s)"

text \<open>\<open>json.Unmarshal\<close> wants one value; \<open>Decoder.Decode\<close> reads the first and ignores the rest.\<close>

definition json_parse :: "string \<Rightarrow> json option" where
  "json_parse s =
     (case parse_first s of None \<Rightarrow> None | Some (v, r) \<Rightarrow> if skip_ws r = [] then Some v else None)"

definition json_decode_first :: "string \<Rightarrow> json option" where
  "json_decode_first s = map_option fst (parse_first s)"

subsection \<open>Enough fuel\<close>

lemma prepend_Some: "prepend p x = Some (t, r) \<longleftrightarrow> (\<exists>t'. x = Some (t', r) \<and> t = p @ t')"
  by (auto simp: prepend_def)

lemma length_skip_ws: "length (skip_ws s) \<le> length s"
  by (simp add: skip_ws_def length_dropWhile_le)

lemma json_str_shorter: "json_str s = Some (t, r) \<Longrightarrow> length r < length s"
proof (induction s arbitrary: t r rule: json_str.induct)
  case (2 c cs)
  show ?case
  proof (cases "c = quote_char")
    case False
    then obtain w n t' where w: "json_char c cs = Some (w, n)" "json_str (drop n cs) = Some (t', r)"
      using "2.prems" by (auto simp: prepend_Some split: option.splits)
    from "2.IH" [OF False w(1) refl w(2)] show ?thesis by simp
  qed (use "2.prems" in simp)
qed simp

lemma digits1_shorter: "digits1 s = Some (t, r) \<Longrightarrow> length r < length s"
proof -
  assume d: "digits1 s = Some (t, r)"
  then have "takeWhile is_digit s = t" "t \<noteq> []" "dropWhile is_digit s = r"
    by (auto simp: digits1_def split: list.splits)
  then have "s = t @ r" using takeWhile_dropWhile_id by metis
  with \<open>t \<noteq> []\<close> show ?thesis by simp
qed

lemma json_unsigned_shorter: "json_unsigned s = Some (t, r) \<Longrightarrow> length r < length s"
proof -
  assume "json_unsigned s = Some (t, r)"
  then obtain i s2 f s3 e where
    b: "num_int s = Some (i, s2)" "num_frac s2 = Some (f, s3)" "num_exp s3 = Some (e, r)"
    by (auto simp: json_unsigned_def split: option.splits)
  have "length s2 < length s"
    using b(1) digits1_shorter by (fastforce simp: num_int_def split: list.splits if_splits)
  moreover have "length s3 \<le> length s2"
    using b(2) by (auto simp: num_frac_def prepend_Some split: list.splits if_splits dest!: digits1_shorter)
  moreover have "length r \<le> length s3"
    using b(3) by (auto simp: num_exp_def prepend_Some split: list.splits if_splits dest!: digits1_shorter)
  ultimately show ?thesis by linarith
qed

lemma json_num_shorter: "json_num s = Some (t, r) \<Longrightarrow> length r < length s"
  by (cases s) (auto simp: json_num_def HasPrefix_def prepend_Some split: if_splits
      dest!: json_unsigned_shorter)

lemma literal_shorter: "literal w v s = Some (x, r) \<Longrightarrow> w \<noteq> [] \<Longrightarrow> length r < length s"
  by (auto simp: literal_def HasPrefix_def prefix_def split: if_splits)

lemma member_key_shorter: "member_key s = Some (k, r) \<Longrightarrow> length r < length s"
proof -
  assume "member_key s = Some (k, r)"
  then obtain q s1 s2 c s3 where q: "s = q # s1" "json_str s1 = Some (k, s2)" "skip_ws s2 = c # s3"
    "r = skip_ws s3"
    by (auto simp: member_key_def split: list.splits option.splits if_splits)
  then show ?thesis
    using json_str_shorter [OF q(2)] length_skip_ws [of s2] length_skip_ws [of s3] by simp
qed

lemma parse_shorter_all:
  "(\<forall>room s v r. parse_value n room s = Some (v, r) \<longrightarrow> length r < length s) \<and>
   (\<forall>room s vs r. parse_elems n room s = Some (vs, r) \<longrightarrow> length r < length s) \<and>
   (\<forall>room s ms r. parse_members n room s = Some (ms, r) \<longrightarrow> length r < length s)"
proof (induction n)
  case (Suc n)
  then have V: "\<And>room s v r. parse_value n room s = Some (v, r) \<Longrightarrow> length r < length s"
    and E: "\<And>room s vs r. parse_elems n room s = Some (vs, r) \<Longrightarrow> length r < length s"
    and M: "\<And>room s ms r. parse_members n room s = Some (ms, r) \<Longrightarrow> length r < length s"
    by blast+
  have skip: "length r < length (skip_ws s) \<Longrightarrow> length r < length s" for r s :: string
    using length_skip_ws [of s] by linarith
  have tl: "length (tl (skip_ws s)) \<le> length s" for s using length_skip_ws [of s] by simp
  have after: "skip_ws r1 = c # r2 \<Longrightarrow> length r1 < length s \<Longrightarrow> length r \<le> length r2 \<Longrightarrow> length r < length s"
    for r1 c r2 and r s :: string using length_skip_ws [of r1] by simp
  have val: "length r < length s" if p: "parse_value (Suc n) room s = Some (v, r)" for room s v r
  proof (cases s)
    case (Cons c cs)
    then show ?thesis
      using p tl [of cs] literal_shorter [of _ _ "c # cs"] json_num_shorter [of "c # cs"]
      by (auto split: if_splits dest!: json_str_shorter M [THEN skip] E [THEN skip] simp: less_Suc_eq_le)
  qed (use p in simp)
  have elems: "length r < length s" if p: "parse_elems (Suc n) room s = Some (vs, r)" for room s vs r
  proof -
    from p obtain v r1 c r2 where v: "parse_value n room s = Some (v, r1)" and c: "skip_ws r1 = c # r2"
      by (auto split: option.splits list.splits)
    have "length r \<le> length r2" using p v c by (auto split: if_splits dest!: E [THEN skip])
    then show ?thesis using after c V [OF v] by blast
  qed
  have mem: "length r < length s" if p: "parse_members (Suc n) room s = Some (ms, r)" for room s ms r
  proof -
    from p obtain k s3 v r1 c r2 where q: "member_key s = Some (k, s3)"
      "parse_value n room s3 = Some (v, r1)" "skip_ws r1 = c # r2"
      by (auto simp: Let_def split: option.splits list.splits)
    have "length r1 < length s" using V [OF q(2)] member_key_shorter [OF q(1)] by simp
    moreover have "length r \<le> length r2"
      using p q by (auto simp: Let_def split: if_splits dest!: M [THEN skip])
    ultimately show ?thesis using after q(3) by blast
  qed
  from val elems mem show ?case by blast
qed simp

lemmas parse_shorter =
  parse_shorter_all [THEN conjunct1, rule_format]
  parse_shorter_all [THEN conjunct2, THEN conjunct1, rule_format]
  parse_shorter_all [THEN conjunct2, THEN conjunct2, rule_format]

text \<open>From some fuel on, more of it gives the same.\<close>

definition fuel_enough :: "(nat \<Rightarrow> nat \<Rightarrow> string \<Rightarrow> 'a) \<Rightarrow> nat \<Rightarrow> string \<Rightarrow> bool" where
  "fuel_enough f k s \<longleftrightarrow>
     (\<forall>room n m. 2 * length s + k < n \<longrightarrow> 2 * length s + k < m \<longrightarrow> f n room s = f m room s)"

lemma fuel_enoughD: "fuel_enough f k s \<Longrightarrow> 2 * length s + k < n \<Longrightarrow> 2 * length s + k < m \<Longrightarrow> f n room s = f m room s"
  unfolding fuel_enough_def by blast

lemma parse_value_step:
  assumes "\<And>s'. length s' < length s \<Longrightarrow> fuel_enough parse_elems 1 s' \<and> fuel_enough parse_members 1 s'"
  shows "fuel_enough parse_value 0 s"
  unfolding fuel_enough_def
proof (intro allI impI)
  fix room n m assume nm: "2 * length s + 0 < n" "2 * length s + 0 < m"
  show "parse_value n room s = parse_value m room s"
  proof (cases s)
    case (Cons c cs)
    obtain n' m' where s: "n = Suc n'" "m = Suc m'" using nm by (metis less_imp_Suc_add)
    have "length (skip_ws cs) \<le> length cs" by (rule length_skip_ws)
    then have "parse_members n' r (skip_ws cs) = parse_members m' r (skip_ws cs)"
      "parse_elems n' r (skip_ws cs) = parse_elems m' r (skip_ws cs)" for r
      using assms [of "skip_ws cs"] nm s Cons by (auto intro!: fuel_enoughD [where k = 1])
    then show ?thesis unfolding s Cons parse_value.simps(2) by simp
  next
    case Nil
    then show ?thesis using nm by (cases n; cases m) simp_all
  qed
qed

lemma parse_elems_step:
  assumes "fuel_enough parse_value 0 s" "\<And>s'. length s' < length s \<Longrightarrow> fuel_enough parse_elems 1 s'"
  shows "fuel_enough parse_elems 1 s"
  unfolding fuel_enough_def
proof (intro allI impI)
  fix room n m assume nm: "2 * length s + 1 < n" "2 * length s + 1 < m"
  obtain n' m' where s: "n = Suc n'" "m = Suc m'" using nm by (metis less_imp_Suc_add)
  have v: "parse_value n' room s = parse_value m' room s" using assms(1) nm s by (intro fuel_enoughD [where k = 0]) simp_all
  have e: "parse_elems n' room (skip_ws r') = parse_elems m' room (skip_ws r')"
    if "parse_value m' room s = Some (v, r)" "skip_ws r = c # r'" for v r c r'
  proof -
    have "length (skip_ws r') < length s"
      using parse_shorter(1) [OF that(1)] length_skip_ws [of r] length_skip_ws [of r'] that(2) by simp
    then show ?thesis using assms(2) nm s by (intro fuel_enoughD [where k = 1]) simp_all
  qed
  show "parse_elems n room s = parse_elems m room s"
  proof (cases "parse_value m' room s")
    case (Some x)
    then obtain w r where x: "parse_value m' room s = Some (w, r)" by (cases x) simp
    show ?thesis
    proof (cases "skip_ws r")
      case (Cons c r')
      then show ?thesis unfolding s parse_elems.simps(2) v x using e [OF x Cons] by simp
    qed (simp add: s v x)
  qed (simp add: s v)
qed

lemma parse_members_step:
  assumes "\<And>s'. length s' < length s \<Longrightarrow> fuel_enough parse_value 0 s' \<and> fuel_enough parse_members 1 s'"
  shows "fuel_enough parse_members 1 s"
  unfolding fuel_enough_def
proof (intro allI impI)
  fix room n m assume nm: "2 * length s + 1 < n" "2 * length s + 1 < m"
  obtain n' m' where s: "n = Suc n'" "m = Suc m'" using nm by (metis less_imp_Suc_add)
  have v: "parse_value n' room s3 = parse_value m' room s3" if "member_key s = Some (k, s3)" for k s3
    using assms [OF member_key_shorter [OF that]] member_key_shorter [OF that] nm s
    by (intro fuel_enoughD [where k = 0]) simp_all
  have m: "parse_members n' room (skip_ws r') = parse_members m' room (skip_ws r')"
    if "member_key s = Some (k, s3)" "parse_value m' room s3 = Some (v, r)" "skip_ws r = c # r'"
    for k s3 v r c r'
  proof -
    have "length (skip_ws r') < length s"
      using member_key_shorter [OF that(1)] parse_shorter(1) [OF that(2)] length_skip_ws [of r]
        length_skip_ws [of r'] that(3) by simp
    then show ?thesis using assms nm s by (intro fuel_enoughD [where k = 1]) simp_all
  qed
  show "parse_members n room s = parse_members m room s" unfolding s parse_members.simps(2) Let_def
    by (intro option.case_cong prod.case_cong list.case_cong refl if_cong
        arg_cong [where f = "map_option _"] v m) simp_all
qed

lemma parse_fuel_all: "fuel_enough parse_value 0 s \<and> fuel_enough parse_elems 1 s \<and> fuel_enough parse_members 1 s"
proof (induction s rule: length_induct)
  case (1 s)
  then have "fuel_enough parse_value 0 s" by (intro parse_value_step) simp
  then show ?case using 1 parse_elems_step parse_members_step by blast
qed

lemma parse_value_fuel: "2 * length s < n \<Longrightarrow> parse_value n room s = parse_value (2 * length s + 2) room s"
  using parse_fuel_all [of s] by (intro fuel_enoughD [where k = 0]) simp_all

subsection \<open>Decoding into a struct\<close>

text \<open>
  Keys are compared up to simple case folding. The field names are ASCII, and besides the ASCII
  letters only U+017F (long s) and U+212A (Kelvin sign) fold to an ASCII letter.
\<close>

definition upper :: "char \<Rightarrow> char" where
  "upper c = (if 97 \<le> code c \<and> code c \<le> 122 then char_of (code c - 32) else c)"

fun fold_key :: "string \<Rightarrow> string" where
  "fold_key [] = []"
| "fold_key (c # cs) =
     (if HasPrefix (c # cs) [CHR 0xC5, CHR 0xBF] then CHR ''S'' # fold_key (drop 1 cs)
      else if HasPrefix (c # cs) [CHR 0xE2, CHR 0x84, CHR 0xAA] then CHR ''K'' # fold_key (drop 2 cs)
      else upper c # fold_key cs)"

definition is_field :: "string \<Rightarrow> string \<Rightarrow> bool" where
  "is_field k name \<longleftrightarrow> fold_key k = fold_key name"

text \<open>
  A decoder updates its target and says whether a type error was recorded on the way. A struct is a
  function from key, raw text and value to such an update.
\<close>

fun decode_members ::
    "(string \<Rightarrow> string \<Rightarrow> json \<Rightarrow> 'a \<Rightarrow> 'a \<times> bool) \<Rightarrow> (string \<times> string \<times> json) list \<Rightarrow> 'a \<Rightarrow> 'a \<times> bool" where
  "decode_members f [] st = (st, False)"
| "decode_members f ((k, raw, v) # ms) st =
     (case f k raw v st of (st, e) \<Rightarrow>
        case decode_members f ms st of (st, e') \<Rightarrow> (st, e \<or> e'))"

definition decode_struct ::
    "(string \<Rightarrow> string \<Rightarrow> json \<Rightarrow> 'a \<Rightarrow> 'a \<times> bool) \<Rightarrow> json \<Rightarrow> 'a \<Rightarrow> 'a \<times> bool" where
  "decode_struct f v st =
     (case v of JObj ms \<Rightarrow> decode_members f ms st | JNull \<Rightarrow> (st, False) | _ \<Rightarrow> (st, True))"

definition decode_string :: "((string \<Rightarrow> string) \<Rightarrow> 'a \<Rightarrow> 'a) \<Rightarrow> json \<Rightarrow> 'a \<Rightarrow> 'a \<times> bool" where
  "decode_string upd v st =
     (case v of JStr s \<Rightarrow> (upd (\<lambda>_. s) st, False) | JNull \<Rightarrow> (st, False) | _ \<Rightarrow> (st, True))"

definition decode_int :: "((int \<Rightarrow> int) \<Rightarrow> 'a \<Rightarrow> 'a) \<Rightarrow> json \<Rightarrow> 'a \<Rightarrow> 'a \<times> bool" where
  "decode_int upd v st =
     (case v of
        JNum s \<Rightarrow> (case ParseInt s of Some n \<Rightarrow> (upd (\<lambda>_. n) st, False) | None \<Rightarrow> (st, True))
      | JNull \<Rightarrow> (st, False)
      | _ \<Rightarrow> (st, True))"

definition decode_bool :: "((bool \<Rightarrow> bool) \<Rightarrow> 'a \<Rightarrow> 'a) \<Rightarrow> json \<Rightarrow> 'a \<Rightarrow> 'a \<times> bool" where
  "decode_bool upd v st =
     (case v of JBool b \<Rightarrow> (upd (\<lambda>_. b) st, False) | JNull \<Rightarrow> (st, False) | _ \<Rightarrow> (st, True))"

text \<open>A \<open>json.RawMessage\<close> takes the text of any value, \<open>null\<close> included.\<close>

definition decode_raw :: "((string \<Rightarrow> string) \<Rightarrow> 'a \<Rightarrow> 'a) \<Rightarrow> string \<Rightarrow> 'a \<Rightarrow> 'a \<times> bool" where
  "decode_raw upd raw st = (upd (\<lambda>_. raw) st, False)"

text \<open>
  \<open>json.Unmarshal\<close> into a target: the target afterwards and whether an error is returned. A syntax
  error is found before anything is decoded.
\<close>

definition Unmarshal :: "(json \<Rightarrow> 'a \<Rightarrow> 'a \<times> bool) \<Rightarrow> string \<Rightarrow> 'a \<Rightarrow> 'a \<times> bool" where
  "Unmarshal dec s st = (case json_parse s of None \<Rightarrow> (st, True) | Some v \<Rightarrow> dec v st)"

definition Decoder_Decode :: "(json \<Rightarrow> 'a \<Rightarrow> 'a \<times> bool) \<Rightarrow> string \<Rightarrow> 'a \<Rightarrow> 'a \<times> bool" where
  "Decoder_Decode dec s st = (case json_decode_first s of None \<Rightarrow> (st, True) | Some v \<Rightarrow> dec v st)"

subsection \<open>Writing strings\<close>

definition hex_lower :: "nat \<Rightarrow> char" where
  "hex_lower n = (if n < 10 then char_of (48 + n) else char_of (87 + n))"

definition short_escape :: "char \<Rightarrow> char option" where
  "short_escape c =
     (if c = quote_char \<or> c = backslash then Some c
      else if c = CHR 0x08 then Some (CHR ''b'')
      else if c = CHR 0x0C then Some (CHR ''f'')
      else if c = CHR 0x0A then Some (CHR ''n'')
      else if c = CHR 0x0D then Some (CHR ''r'')
      else if c = CHR 0x09 then Some (CHR ''t'')
      else None)"

definition escape_ascii :: "char \<Rightarrow> string" where
  "escape_ascii c =
     (case short_escape c of
        Some x \<Rightarrow> [backslash, x]
      | None \<Rightarrow>
          if code c < 0x20 \<or> c = CHR ''<'' \<or> c = CHR ''>'' \<or> c = CHR ''&'' then
            backslash # ''u00'' @ [hex_lower (code c div 16), hex_lower (code c mod 16)]
          else [c])"

text \<open>One character at the head of the text: what is written for it, and how many more it covers.\<close>

definition escape_head :: "char \<Rightarrow> string \<Rightarrow> string \<times> nat" where
  "escape_head c cs =
     (if code c < 0x80 then (escape_ascii c, 0)
      else
        let n = utf8_head (c # cs); w = take n (c # cs)
        in if n = 0 then (backslash # ''ufffd'', 0)
           else if w = utf8_encode 0x2028 then (backslash # ''u2028'', n - 1)
           else if w = utf8_encode 0x2029 then (backslash # ''u2029'', n - 1)
           else (w, n - 1))"

fun json_escape :: "string \<Rightarrow> string" where
  "json_escape [] = []"
| "json_escape (c # cs) = (case escape_head c cs of (w, n) \<Rightarrow> w @ json_escape (drop n cs))"

definition json_quote :: "string \<Rightarrow> string" where
  "json_quote s = quote_char # json_escape s @ [quote_char]"

function utf8_valid :: "string \<Rightarrow> bool" where
  "utf8_valid [] = True"
| "utf8_valid (c # cs) = (utf8_head (c # cs) \<noteq> 0 \<and> utf8_valid (drop (utf8_head (c # cs) - 1) cs))"
  by pat_completeness auto
termination by (relation "measure length") simp_all

declare utf8_valid.simps(2) [simp del]

lemma take_longer: "P (take (Suc k) s) \<Longrightarrow> \<not> P (take k s) \<Longrightarrow> Suc k \<le> length s"
  by (metis not_less_eq_eq take_all le_SucI)

lemma utf8_head_le: "utf8_head s \<le> length s"
proof -
  have "utf8_seq (take 1 s) \<Longrightarrow> 1 \<le> length s" by (cases s) simp_all
  then show ?thesis
    using take_longer [of utf8_seq 1 s] take_longer [of utf8_seq 2 s] take_longer [of utf8_seq 3 s]
    by (simp add: utf8_head_def eval_nat_numeral)
qed

lemma utf8_head_append:
  assumes "utf8_head s \<noteq> 0"
  shows "utf8_head (take (utf8_head s) s @ t) = utf8_head s"
proof -
  define h u where "h = utf8_head s" and "u = take h s @ t"
  have eq: "utf8_seq (take k u) = utf8_seq (take k s)" if "k \<le> h" for k
    using that utf8_head_le [of s] by (simp add: h_def u_def min_def)
  consider "h = 1" "utf8_seq (take 1 s)"
    | "h = 2" "\<not> utf8_seq (take 1 s)" "utf8_seq (take 2 s)"
    | "h = 3" "\<not> utf8_seq (take 1 s)" "\<not> utf8_seq (take 2 s)" "utf8_seq (take 3 s)"
    | "h = 4" "\<not> utf8_seq (take 1 s)" "\<not> utf8_seq (take 2 s)" "\<not> utf8_seq (take 3 s)" "utf8_seq (take 4 s)"
    using assms unfolding h_def utf8_head_def by presburger
  then have "utf8_head u = h"
    by cases (simp_all only: utf8_head_def [of u] eq if_True if_False numeral_le_iff semiring_norm one_le_numeral order_refl)
  then show ?thesis by (simp add: h_def u_def)
qed

lemma hex_value_lower: "n < 16 \<Longrightarrow> hex_value (hex_lower n) = Some n"
  by (auto simp: hex_value_def hex_lower_def between_def)

lemma unicode_escape_byte:
  assumes "code c < 0x80"
  shows "unicode_escape (''00'' @ [hex_lower (code c div 16), hex_lower (code c mod 16)] @ rest) = Some ([c], 4)"
proof -
  have "hex_value (CHR ''0'') = Some 0" by code_simp
  moreover have "code c div 16 < 16" "code c mod 16 < 16" using assms by linarith+
  ultimately have "hex4 (''00'' @ [hex_lower (code c div 16), hex_lower (code c mod 16)] @ rest) = Some (code c)"
    by (simp add: hex4_def hex_value_lower)
  then show ?thesis using assms by (simp add: unicode_escape_def utf8_encode_def)
qed

lemma short_escape_Some: "short_escape c = Some x \<Longrightarrow> x \<noteq> CHR ''u'' \<and> simple_escape x = Some c"
  by (auto simp: short_escape_def quote_char_def backslash_def split: if_splits)

lemma short_escape_None: "short_escape c = None \<Longrightarrow> c \<noteq> quote_char \<and> c \<noteq> backslash"
  by (auto simp: short_escape_def split: if_splits)

lemma json_char_plain: "32 \<le> code c \<Longrightarrow> code c < 128 \<Longrightarrow> c \<noteq> backslash \<Longrightarrow> json_char c rest = Some ([c], 0)"
  by (simp add: json_char_def utf8_head_def)

lemma json_char_escape:
  "e \<noteq> CHR ''u'' \<Longrightarrow> json_char backslash (e # rest) = map_option (\<lambda>x. ([x], 1)) (simple_escape e)"
  by (simp add: json_char_def)

lemma json_char_unicode:
  "json_char backslash (CHR ''u'' # rest) = map_option (\<lambda>(w, n). (w, n + 1)) (unicode_escape rest)"
  by (simp add: json_char_def)

lemma escape_ascii_read:
  assumes "code c < 0x80"
  shows "\<exists>e es. escape_ascii c = e # es \<and> e \<noteq> quote_char \<and>
     (\<forall>rest. json_char e (es @ rest) = Some ([c], length es))"
proof -
  have bq: "backslash \<noteq> quote_char" by (simp add: backslash_def quote_char_def)
  consider (esc) x where "escape_ascii c = [backslash, x]" "short_escape c = Some x"
    | (uni) "escape_ascii c = backslash # ''u00'' @ [hex_lower (code c div 16), hex_lower (code c mod 16)]"
    | (plain) "escape_ascii c = [c]" "32 \<le> code c" "short_escape c = None"
    by (cases "short_escape c"; cases "code c < 0x20 \<or> c = CHR ''<'' \<or> c = CHR ''>'' \<or> c = CHR ''&''")
      (simp_all add: escape_ascii_def)
  then show ?thesis
  proof cases
    case esc
    then show ?thesis
      using bq short_escape_Some [OF esc(2)] by (simp add: json_char_escape del: simple_escape.simps)
  next
    case uni
    then show ?thesis using bq unicode_escape_byte [OF assms] by (simp add: json_char_unicode)
  next
    case plain
    then show ?thesis using assms short_escape_None by (simp add: json_char_plain)
  qed
qed

lemma json_char_sequence:
  assumes "utf8_head (c # cs) = n" "n \<noteq> 0" "128 \<le> code c"
  shows "json_char c (take (n - 1) cs @ rest) = Some (take n (c # cs), n - 1)"
proof -
  have n: "take n (c # cs) = c # take (n - 1) cs" using assms(2) by (cases n) simp_all
  have len: "length (take (n - 1) cs) = n - 1"
    using utf8_head_le [of "c # cs"] assms(1) by simp
  have h: "utf8_head (c # take (n - 1) cs @ rest) = n"
    using utf8_head_append [of "c # cs" rest] assms(1,2) n by simp
  have "c \<noteq> backslash" using assms(3) by (auto simp: backslash_def code_def)
  moreover have "take n (c # take (n - 1) cs @ rest) = take n (c # cs)"
    using assms(2) len n by (cases n) simp_all
  ultimately show ?thesis
    using assms(2,3) h by (simp add: json_char_def)
qed

lemma json_str_first:
  "e \<noteq> quote_char \<Longrightarrow> json_char e (es @ rest) = Some (w, length es) \<Longrightarrow>
   json_str (e # es @ rest) = prepend w (json_str rest)"
  by simp

text \<open>Line separators are escaped although they need not be.\<close>

lemma separator_escapes:
  "utf8_encode 0x2028 = [CHR 0xE2, CHR 0x80, CHR 0xA8]" "utf8_encode 0x2029 = [CHR 0xE2, CHR 0x80, CHR 0xA9]"
  "json_char backslash (''u2028'' @ rest) = Some (utf8_encode 0x2028, 5)"
  "json_char backslash (''u2029'' @ rest) = Some (utf8_encode 0x2029, 5)"
  "json_char backslash (''ufffd'' @ rest) = Some (rune_error, 5)"
proof -
  show "utf8_encode 0x2028 = [CHR 0xE2, CHR 0x80, CHR 0xA8]" by code_simp
  show "utf8_encode 0x2029 = [CHR 0xE2, CHR 0x80, CHR 0xA9]" by code_simp
qed (simp_all add: json_char_unicode unicode_escape_def hex4_def hex_value_def between_def code_def rune_error_def)

text \<open>
  A Go string need not be UTF-8; what is written for a byte that starts no sequence reads back as
  U+FFFD.
\<close>

function utf8_repair :: "string \<Rightarrow> string" where
  "utf8_repair [] = []"
| "utf8_repair (c # cs) =
     (if utf8_head (c # cs) = 0 then rune_error @ utf8_repair cs
      else take (utf8_head (c # cs)) (c # cs) @ utf8_repair (drop (utf8_head (c # cs) - 1) cs))"
  by pat_completeness auto
termination by (relation "measure length") simp_all

declare utf8_repair.simps(2) [simp del]

lemma take_drop_Cons: "n \<noteq> 0 \<Longrightarrow> take n (c # cs) @ drop (n - 1) cs = c # cs"
  by (cases n) simp_all

lemma utf8_repair_valid [simp]: "utf8_valid s \<Longrightarrow> utf8_repair s = s"
proof (induction s rule: utf8_valid.induct)
  case (2 c cs)
  then show ?case
    using take_drop_Cons [of "utf8_head (c # cs)" c cs] by (simp add: utf8_valid.simps(2) utf8_repair.simps(2))
qed simp

text \<open>What is written for the head of a text reads back as that head.\<close>

lemma escape_head_read:
  assumes "escape_head c cs = (w, k)" "utf8_head (c # cs) = n"
  shows "\<exists>e es. w = e # es \<and> e \<noteq> quote_char \<and> k = n - 1 \<and>
     (\<forall>r. json_char e (es @ r) = Some (if n = 0 then rune_error else take n (c # cs), length es))"
proof (cases "code c < 0x80")
  case True
  then have "n = 1" using assms(2) by (simp add: utf8_head_def)
  then show ?thesis using True assms(1) escape_ascii_read [OF True] by (auto simp: escape_head_def)
next
  case False
  have bq: "backslash \<noteq> quote_char" by (simp add: backslash_def quote_char_def)
  have cq: "c \<noteq> quote_char" using False by (auto simp: quote_char_def code_def)
  have k: "k = n - 1" using assms False by (auto simp: escape_head_def Let_def split: if_splits)
  consider "w = backslash # ''ufffd''" "n = 0"
    | "w = backslash # ''u2028''" "take n (c # cs) = utf8_encode 0x2028" "n \<noteq> 0"
    | "w = backslash # ''u2029''" "take n (c # cs) = utf8_encode 0x2029" "n \<noteq> 0"
    | "w = take n (c # cs)" "n \<noteq> 0"
    using assms False by (auto simp: escape_head_def Let_def split: if_splits)
  then show ?thesis
  proof cases
    case 1
    then show ?thesis using bq k separator_escapes(5) by (intro exI [of _ backslash] exI [of _ "''ufffd''"]) simp
  next
    case 2
    then show ?thesis using bq k separator_escapes(3) by (intro exI [of _ backslash] exI [of _ "''u2028''"]) simp
  next
    case 3
    then show ?thesis using bq k separator_escapes(4) by (intro exI [of _ backslash] exI [of _ "''u2029''"]) simp
  next
    case 4
    have "length (take (n - 1) cs) = n - 1" using utf8_head_le [of "c # cs"] assms(2) by simp
    then show ?thesis
      using 4 k cq json_char_sequence [OF assms(2) 4(2)] False
      by (intro exI [of _ c] exI [of _ "take (n - 1) cs"]) (cases n, simp_all)
  qed
qed

lemma json_str_escape_repair: "json_str (json_escape s @ quote_char # rest) = Some (utf8_repair s, rest)"
proof (induction s rule: utf8_repair.induct)
  case (2 c cs)
  define n where "n = utf8_head (c # cs)"
  obtain w k where w: "escape_head c cs = (w, k)" by (cases "escape_head c cs")
  obtain e es where e: "w = e # es" "e \<noteq> quote_char" "k = n - 1"
    "\<And>r. json_char e (es @ r) = Some (if n = 0 then rune_error else take n (c # cs), length es)"
    using escape_head_read [OF w n_def [symmetric]] by blast
  have "json_str (json_escape (drop (n - 1) cs) @ quote_char # rest) = Some (utf8_repair (drop (n - 1) cs), rest)"
    using "2.IH" by (cases "n = 0") (simp_all add: n_def)
  moreover have "json_escape (c # cs) = e # es @ json_escape (drop (n - 1) cs)"
    using w e(1,3) by simp
  ultimately have "json_str (json_escape (c # cs) @ quote_char # rest) =
      prepend (if n = 0 then rune_error else take n (c # cs)) (Some (utf8_repair (drop (n - 1) cs), rest))"
    using json_str_first [OF e(2) e(4)] by (simp del: json_str.simps)
  then show ?case by (simp add: prepend_def utf8_repair.simps(2) n_def)
qed simp

lemma json_str_escape: "utf8_valid s \<Longrightarrow> json_str (json_escape s @ quote_char # rest) = Some (s, rest)"
  by (simp add: json_str_escape_repair)

end
