(* ===== verification/GoBase64.thy ===== *)
theory GoBase64
  imports GoStrings
begin

section \<open>Standard base64\<close>

text \<open>
  \<open>base64.StdEncoding\<close>: padded, line breaks ignored when decoding, unused low bits of the last
  group ignored. Decoding what was encoded gives the bytes back (\<open>DecodeString_EncodeToString\<close>).
\<close>

definition b64_char :: "nat \<Rightarrow> char" where
  "b64_char n =
     (if n < 26 then char_of (65 + n) else if n < 52 then char_of (71 + n)
      else if n < 62 then char_of (n - 4) else if n = 62 then CHR ''+'' else CHR ''/'')"

definition b64_value :: "char \<Rightarrow> nat option" where
  "b64_value c =
     (let k = code c in
      if 65 \<le> k \<and> k \<le> 90 then Some (k - 65)
      else if 97 \<le> k \<and> k \<le> 122 then Some (k - 71)
      else if 48 \<le> k \<and> k \<le> 57 then Some (k + 4)
      else if c = CHR ''+'' then Some 62
      else if c = CHR ''/'' then Some 63
      else None)"

definition pad :: char where
  "pad = CHR ''=''"

text \<open>The four digits of a 24-bit group, and the group back.\<close>

definition b64_digits :: "nat \<Rightarrow> string" where
  "b64_digits n =
     (let p = n div 64; q = p div 64; r = q div 64
      in [b64_char r, b64_char (q mod 64), b64_char (p mod 64), b64_char (n mod 64)])"

definition b64_group :: "char \<Rightarrow> char \<Rightarrow> char \<Rightarrow> char \<Rightarrow> nat option" where
  "b64_group a b c d =
     (case (b64_value a, b64_value b, b64_value c, b64_value d) of
        (Some w, Some x, Some y, Some z) \<Rightarrow> Some (((w * 64 + x) * 64 + y) * 64 + z)
      | _ \<Rightarrow> None)"

definition group_bytes :: "nat \<Rightarrow> string" where
  "group_bytes n = [char_of (n div 256 div 256), char_of (n div 256 mod 256), char_of (n mod 256)]"

definition byte_group :: "char \<Rightarrow> char \<Rightarrow> char \<Rightarrow> nat" where
  "byte_group a b c = (code a * 256 + code b) * 256 + code c"

fun EncodeToString :: "string \<Rightarrow> string" where
  "EncodeToString [] = []"
| "EncodeToString [a] = take 2 (b64_digits (byte_group a (char_of (0 :: nat)) (char_of (0 :: nat)))) @ [pad, pad]"
| "EncodeToString [a, b] = take 3 (b64_digits (byte_group a b (char_of (0 :: nat)))) @ [pad]"
| "EncodeToString (a # b # c # rest) = b64_digits (byte_group a b c) @ EncodeToString rest"

fun decode_groups :: "string \<Rightarrow> string option" where
  "decode_groups [] = Some []"
| "decode_groups (a # b # c # d # rest) =
     (if d = pad \<and> rest = [] then
        (if c = pad then map_option (\<lambda>n. take 1 (group_bytes n)) (b64_group a b (CHR ''A'') (CHR ''A''))
         else map_option (\<lambda>n. take 2 (group_bytes n)) (b64_group a b c (CHR ''A'')))
      else
        case b64_group a b c d of
          None \<Rightarrow> None
        | Some n \<Rightarrow> map_option (\<lambda>bs. group_bytes n @ bs) (decode_groups rest))"
| "decode_groups _ = None"

definition DecodeString :: "string \<Rightarrow> string option" where
  "DecodeString s = decode_groups (filter (\<lambda>c. c \<noteq> CHR 0x0D \<and> c \<noteq> CHR 0x0A) s)"

lemma b64_value_char: "n < 64 \<Longrightarrow> b64_value (b64_char n) = Some n"
  by (auto simp: b64_value_def b64_char_def Let_def code_def)

lemma b64_char_plain: "b64_char n \<noteq> pad \<and> b64_char n \<noteq> CHR 0x0D \<and> b64_char n \<noteq> CHR 0x0A"
proof (cases "n < 64")
  case True
  then have "b64_value (b64_char n) \<noteq> None" by (simp add: b64_value_char)
  then show ?thesis by (auto simp: b64_value_def pad_def code_def)
qed (simp add: b64_char_def pad_def)

lemma b64_value_A: "b64_value (CHR ''A'') = Some 0"
  by code_simp

lemma recombine: "(((n div 64 div 64 div 64) * 64 + n div 64 div 64 mod 64) * 64 + n div 64 mod 64) * 64 + n mod 64 = (n :: nat)"
  by (simp only: div_mult_mod_eq)

lemma byte_group_less: "byte_group a b c < 16777216"
proof -
  have "x < 256 \<Longrightarrow> y < 256 \<Longrightarrow> z < 256 \<Longrightarrow> (x * 256 + y) * 256 + z < 16777216" for x y z :: nat by simp
  from this [OF code_less code_less code_less] show ?thesis unfolding byte_group_def .
qed

lemma b64_group_digits:
  assumes "n < 16777216" "b64_digits n = [a, b, c, d]"
  shows "b64_group a b c d = Some n"
    and "n mod 64 = 0 \<Longrightarrow> b64_group a b c (CHR ''A'') = Some n"
    and "n mod 4096 = 0 \<Longrightarrow> b64_group a b (CHR ''A'') (CHR ''A'') = Some n"
proof -
  have "n div 64 div 64 div 64 < 64" using assms(1) by (simp add: less_mult_imp_div_less)
  then have v: "b64_value a = Some (n div 64 div 64 div 64)" "b64_value b = Some (n div 64 div 64 mod 64)"
    "b64_value c = Some (n div 64 mod 64)" "b64_value d = Some (n mod 64)"
    using assms(2) by (auto simp: b64_digits_def Let_def b64_value_char)
  show "b64_group a b c d = Some n" by (simp only: b64_group_def v recombine prod.case option.case)
  show "b64_group a b c (CHR ''A'') = Some n" if m: "n mod 64 = 0"
  proof -
    have "(((n div 64 div 64 div 64) * 64 + n div 64 div 64 mod 64) * 64 + n div 64 mod 64) * 64 + 0 = n"
      using recombine [of n] unfolding m .
    then show ?thesis by (simp only: b64_group_def v b64_value_A prod.case option.case)
  qed
  show "b64_group a b (CHR ''A'') (CHR ''A'') = Some n" if m: "n mod 4096 = 0"
  proof -
    obtain k where "n = 4096 * k" using m by (auto simp: mod_eq_0_iff_dvd elim: dvdE)
    then have z: "n mod 64 = 0" "n div 64 mod 64 = 0" by simp_all
    have "(((n div 64 div 64 div 64) * 64 + n div 64 div 64 mod 64) * 64 + 0) * 64 + 0 = n"
      using recombine [of n] unfolding z .
    then show ?thesis by (simp only: b64_group_def v b64_value_A prod.case option.case)
  qed
qed

lemma group_bytes_group: "group_bytes (byte_group a b c) = [a, b, c]"
proof -
  have "(x * 256 + code y) div 256 = x" "(x * 256 + code y) mod 256 = code y" for x y by simp_all
  then show ?thesis unfolding group_bytes_def byte_group_def by (simp only: char_of_code)
qed

lemma b64_digits_plain: "x \<in> set (b64_digits n) \<Longrightarrow> x \<noteq> pad \<and> x \<noteq> CHR 0x0D \<and> x \<noteq> CHR 0x0A"
  using b64_char_plain by (auto simp: b64_digits_def Let_def)

lemma b64_digits_4: "\<exists>a b c d. b64_digits n = [a, b, c, d]"
  by (simp add: b64_digits_def Let_def)

lemma decode_groups_Encode: "decode_groups (EncodeToString s) = Some s"
proof (induction s rule: EncodeToString.induct)
  case (2 a)
  let ?n = "byte_group a (char_of (0 :: nat)) (char_of (0 :: nat))"
  obtain w x y z where d: "b64_digits ?n = [w, x, y, z]" using b64_digits_4 by blast
  have "?n mod 4096 = 0" by (simp add: byte_group_def code_def)
  from b64_group_digits(3) [OF byte_group_less d this] show ?case by (simp add: d group_bytes_group)
next
  case (3 a b)
  let ?n = "byte_group a b (char_of (0 :: nat))"
  obtain w x y z where d: "b64_digits ?n = [w, x, y, z]" using b64_digits_4 by blast
  have "?n mod 64 = 0" by (simp add: byte_group_def code_def)
  from b64_group_digits(2) [OF byte_group_less d this] b64_digits_plain [of y ?n] show ?case
    by (simp add: d group_bytes_group)
next
  case (4 a b c rest)
  let ?n = "byte_group a b c"
  obtain w x y z where d: "b64_digits ?n = [w, x, y, z]" using b64_digits_4 by blast
  from b64_group_digits(1) [OF byte_group_less d] b64_digits_plain [of z ?n] 4 show ?case
    by (simp add: d group_bytes_group)
qed simp

lemma Encode_plain: "x \<in> set (EncodeToString s) \<Longrightarrow> x \<noteq> CHR 0x0D \<and> x \<noteq> CHR 0x0A"
  by (induction s rule: EncodeToString.induct)
    (auto simp: pad_def dest: b64_digits_plain in_set_takeD)

theorem DecodeString_EncodeToString: "DecodeString (EncodeToString s) = Some s"
proof -
  have "filter (\<lambda>c. c \<noteq> CHR 0x0D \<and> c \<noteq> CHR 0x0A) (EncodeToString s) = EncodeToString s"
    by (rule filter_True) (use Encode_plain in blast)
  then show ?thesis by (simp add: DecodeString_def decode_groups_Encode)
qed

end
