(* ===== verification/Wire.thy ===== *)
theory Wire
  imports Pricing GoJson GoBase64
begin

section \<open>The x402 wire format, and prices in JSON\<close>

text \<open>
  The types of \<open>internal/types/types.go\<close> with the JSON decoding their tags describe, and the two
  JSON readers of \<open>pricing.go\<close>. A decoder is a \<open>decode_struct\<close> with one branch per tagged field;
  keys that match no tag are skipped. The \<open>big.Int\<close> fields of an authorization are \<open>int\<close>, an
  address and a nonce are byte strings.
\<close>

subsection \<open>\<open>types.go\<close>\<close>

type_synonym Address = string

record TransferAuthorization =
  AuthFrom :: Address
  AuthTo :: Address
  AuthValue :: int
  AuthValidAfter :: int
  AuthValidBefore :: int
  AuthNonce :: string

record PaymentRequirements =
  ReqScheme :: string
  ReqNetwork :: string
  MaxAmountRequired :: string
  Resource :: string
  Description :: string
  MimeType :: string
  ReqPayTo :: string
  MaxTimeoutSeconds :: int
  Asset :: string
  Extra :: "(string \<times> string) list"

record PaymentRequiredResponse =
  ResX402Version :: int
  Accepts :: "PaymentRequirements list"
  ResError :: string

record AuthorizationPayload =
  From :: string
  To :: string
  Value :: string
  ValidAfter :: string
  ValidBefore :: string
  Nonce :: string

record ExactEvmPayload =
  Signature :: string
  Authorization :: AuthorizationPayload

record ExactSolanaPayload =
  SolType :: string
  Transaction :: string
  SolRequestID :: string

record PaymentPayload =
  PayX402Version :: int
  PayScheme :: string
  PayloadNetwork :: string
  Payload :: string

record SettlementResponse =
  Success :: bool
  SetTransaction :: string
  SetNetwork :: string
  SetPayer :: string

definition X402Version :: int where "X402Version = 1"
definition SchemeExact :: string where "SchemeExact = ''exact''"
definition SolanaPayType :: string where "SolanaPayType = ''signed_transaction''"

definition HeaderPayment :: string where "HeaderPayment = ''X-PAYMENT''"
definition HeaderRequest :: string where "HeaderRequest = ''X-PAYMENT-REQUEST-ID''"
definition HeaderResponse :: string where "HeaderResponse = ''X-PAYMENT-RESPONSE''"
definition HeaderCost :: string where "HeaderCost = ''X-Cost''"
definition HeaderTx :: string where "HeaderTx = ''X-Tx''"
definition HeaderUsageInput :: string where "HeaderUsageInput = ''X-Usage-Input''"
definition HeaderUsageCached :: string where "HeaderUsageCached = ''X-Usage-Cached''"
definition HeaderUsageOutput :: string where "HeaderUsageOutput = ''X-Usage-Output''"
definition HeaderPriceInput :: string where "HeaderPriceInput = ''X-Price-Input''"
definition HeaderPriceCached :: string where "HeaderPriceCached = ''X-Price-Cached''"
definition HeaderPriceOutput :: string where "HeaderPriceOutput = ''X-Price-Output''"

subsection \<open>Decoding the payment header\<close>

definition zero_authorization_payload :: AuthorizationPayload where
  "zero_authorization_payload =
     \<lparr>From = '''', To = '''', Value = '''', ValidAfter = '''', ValidBefore = '''', Nonce = ''''\<rparr>"

definition zero_evm_payload :: ExactEvmPayload where
  "zero_evm_payload = \<lparr>Signature = '''', Authorization = zero_authorization_payload\<rparr>"

definition zero_solana_payload :: ExactSolanaPayload where
  "zero_solana_payload = \<lparr>SolType = '''', Transaction = '''', SolRequestID = ''''\<rparr>"

definition zero_payment_payload :: PaymentPayload where
  "zero_payment_payload =
     \<lparr>PayX402Version = 0, PayScheme = '''', PayloadNetwork = '''', Payload = ''''\<rparr>"

definition decode_AuthorizationPayload ::
    "json \<Rightarrow> AuthorizationPayload \<Rightarrow> AuthorizationPayload \<times> bool" where
  "decode_AuthorizationPayload = decode_struct (\<lambda>k raw v p.
     if is_field k ''from'' then decode_string From_update v p
     else if is_field k ''to'' then decode_string To_update v p
     else if is_field k ''value'' then decode_string Value_update v p
     else if is_field k ''validAfter'' then decode_string ValidAfter_update v p
     else if is_field k ''validBefore'' then decode_string ValidBefore_update v p
     else if is_field k ''nonce'' then decode_string Nonce_update v p
     else (p, False))"

definition decode_ExactEvmPayload :: "json \<Rightarrow> ExactEvmPayload \<Rightarrow> ExactEvmPayload \<times> bool" where
  "decode_ExactEvmPayload = decode_struct (\<lambda>k raw v p.
     if is_field k ''signature'' then decode_string Signature_update v p
     else if is_field k ''authorization'' then
       (case decode_AuthorizationPayload v (Authorization p) of (a, e) \<Rightarrow> (p\<lparr>Authorization := a\<rparr>, e))
     else (p, False))"

definition decode_ExactSolanaPayload :: "json \<Rightarrow> ExactSolanaPayload \<Rightarrow> ExactSolanaPayload \<times> bool" where
  "decode_ExactSolanaPayload = decode_struct (\<lambda>k raw v p.
     if is_field k ''type'' then decode_string SolType_update v p
     else if is_field k ''transaction'' then decode_string Transaction_update v p
     else if is_field k ''requestId'' then decode_string SolRequestID_update v p
     else (p, False))"

definition decode_PaymentPayload :: "json \<Rightarrow> PaymentPayload \<Rightarrow> PaymentPayload \<times> bool" where
  "decode_PaymentPayload = decode_struct (\<lambda>k raw v p.
     if is_field k ''x402Version'' then decode_int PayX402Version_update v p
     else if is_field k ''scheme'' then decode_string PayScheme_update v p
     else if is_field k ''network'' then decode_string PayloadNetwork_update v p
     else if is_field k ''payload'' then decode_raw Payload_update raw p
     else (p, False))"

subsection \<open>Writing the settlement header\<close>

fun elems_text :: "string list \<Rightarrow> string" where
  "elems_text [] = []"
| "elems_text [t] = t"
| "elems_text (t # u # ts) = t @ '','' @ elems_text (u # ts)"

definition json_array :: "string list \<Rightarrow> string" where
  "json_array ts = ''['' @ elems_text ts @ '']''"

fun members_text :: "(string \<times> string) list \<Rightarrow> string" where
  "members_text [] = []"
| "members_text [(k, t)] = json_quote k @ '':'' @ t"
| "members_text ((k, t) # m # ms) = json_quote k @ '':'' @ t @ '','' @ members_text (m # ms)"

definition json_object :: "(string \<times> string) list \<Rightarrow> string" where
  "json_object ms = ''{'' @ members_text ms @ ''}''"

definition json_bool :: "bool \<Rightarrow> string" where
  "json_bool b = (if b then ''true'' else ''false'')"

definition Marshal_SettlementResponse :: "SettlementResponse \<Rightarrow> string" where
  "Marshal_SettlementResponse r = json_object
     [(''success'', json_bool (Success r)), (''transaction'', json_quote (SetTransaction r)),
      (''network'', json_quote (SetNetwork r)), (''payer'', json_quote (SetPayer r))]"

definition decode_SettlementResponse :: "json \<Rightarrow> SettlementResponse \<Rightarrow> SettlementResponse \<times> bool" where
  "decode_SettlementResponse = decode_struct (\<lambda>k raw v p.
     if is_field k ''success'' then decode_bool Success_update v p
     else if is_field k ''transaction'' then decode_string SetTransaction_update v p
     else if is_field k ''network'' then decode_string SetNetwork_update v p
     else if is_field k ''payer'' then decode_string SetPayer_update v p
     else (p, False))"

subsection \<open>Prices in JSON\<close>

record RawModelPrice =
  RawInput :: string
  RawOutput :: string
  RawCached :: string
  RawInputPerM :: string
  RawOutputPerM :: string
  RawCachedPerM :: string

datatype price_json_error = BadJSON | InField string

definition decode_RawModelPrice :: "json \<Rightarrow> RawModelPrice \<Rightarrow> RawModelPrice \<times> bool" where
  "decode_RawModelPrice = decode_struct (\<lambda>k raw v p.
     if is_field k ''input'' then decode_raw RawInput_update raw p
     else if is_field k ''output'' then decode_raw RawOutput_update raw p
     else if is_field k ''cached_input'' then decode_raw RawCached_update raw p
     else if is_field k ''input_per_m'' then decode_raw RawInputPerM_update raw p
     else if is_field k ''output_per_m'' then decode_raw RawOutputPerM_update raw p
     else if is_field k ''cached_input_per_m'' then decode_raw RawCachedPerM_update raw p
     else (p, False))"

text \<open>The price text and whether reading it failed; a nil slice is the empty text.\<close>

definition decodePriceValue :: "string \<Rightarrow> string \<times> bool" where
  "decodePriceValue raw =
     (case raw of
        [] \<Rightarrow> ([], False)
      | c # _ \<Rightarrow>
          if c = quote_char then
            (case Unmarshal (decode_string (\<lambda>f. f)) raw [] of
               (s, e) \<Rightarrow> if e then ([], True) else (s, False))
          else (raw, False))"

text \<open>The price afterwards (the method assigns field by field) and the error, if any.\<close>

definition ModelPrice_UnmarshalJSON :: "string \<Rightarrow> ModelPrice \<Rightarrow> ModelPrice \<times> price_json_error option" where
  "ModelPrice_UnmarshalJSON data p =
     (case Unmarshal decode_RawModelPrice data
             \<lparr>RawInput = [], RawOutput = [], RawCached = [], RawInputPerM = [], RawOutputPerM = [],
              RawCachedPerM = []\<rparr> of
        (raw, True) \<Rightarrow> (p, Some BadJSON)
      | (raw, False) \<Rightarrow>
          let input = (if RawInput raw = [] then RawInputPerM raw else RawInput raw);
              output = (if RawOutput raw = [] then RawOutputPerM raw else RawOutput raw);
              cached = (if RawCached raw = [] then RawCachedPerM raw else RawCached raw);
              (i, ei) = decodePriceValue input;
              p = p\<lparr>InputPerM := i\<rparr>
          in if ei then (p, Some (InField ''input''))
             else
               let (out, eo) = decodePriceValue output;
                   p = p\<lparr>OutputPerM := out\<rparr>
               in if eo then (p, Some (InField ''output''))
                  else
                    let (c, ec) = decodePriceValue cached;
                        p = p\<lparr>CachedInputPerM := c\<rparr>
                    in if ec then (p, Some (InField ''cached_input'')) else (p, None))"

definition decode_ModelPriceEntry :: "json \<Rightarrow> ModelPriceEntry \<Rightarrow> ModelPriceEntry \<times> bool" where
  "decode_ModelPriceEntry = decode_struct (\<lambda>k raw v p.
     if is_field k ''model'' then decode_string Model_update v p
     else if is_field k ''input'' then decode_string Input_update v p
     else if is_field k ''output'' then decode_string Output_update v p
     else if is_field k ''cached_input'' then decode_string CachedInput_update v p
     else if is_field k ''isDefault'' then decode_bool IsDefault_update v p
     else (p, False))"

subsection \<open>What is written is read back\<close>

text \<open>
  \<open>encodes d t v\<close>: inside an object or array, the text \<open>t\<close> is read as the value \<open>v\<close>, whatever member,
  element or closing bracket follows, if values may still nest \<open>d\<close> deep.
\<close>

definition delimiter :: "string \<Rightarrow> bool" where
  "delimiter w \<longleftrightarrow> (case w of c # _ \<Rightarrow> c = CHR '','' \<or> c = CHR ''}'' \<or> c = CHR '']'' | [] \<Rightarrow> False)"

definition encodes :: "nat \<Rightarrow> string \<Rightarrow> json \<Rightarrow> bool" where
  "encodes d t v \<longleftrightarrow> t \<noteq> [] \<and> \<not> is_ws (hd t) \<and>
     (\<forall>n room w. d \<le> room \<longrightarrow> delimiter w \<longrightarrow> 2 * length (t @ w) < n \<longrightarrow> parse_value n room (t @ w) = Some (v, w))"

lemma skip_ws_id: "t \<noteq> [] \<Longrightarrow> \<not> is_ws (hd t) \<Longrightarrow> skip_ws (t @ w) = t @ w"
  by (cases t) (simp_all add: skip_ws_def)

lemma delimiter_plain:
  "delimiter w \<Longrightarrow> \<exists>c r. w = c # r \<and> \<not> is_ws c \<and> \<not> is_digit c \<and> c \<noteq> CHR ''.'' \<and> c \<noteq> CHR ''e'' \<and> c \<noteq> CHR ''E'' \<and>
     c \<noteq> CHR ''+'' \<and> c \<noteq> CHR ''-''"
  by (auto simp: delimiter_def is_ws_def is_digit_def code_def split: list.splits)

lemma skip_ws_Nil [simp]: "skip_ws [] = []"
  by (simp add: skip_ws_def)

lemma skip_ws_quote [simp]: "skip_ws (json_quote s @ w) = json_quote s @ w"
  by (simp add: json_quote_def skip_ws_def is_ws_def quote_char_def)

lemma parse_value_quote: "0 < n \<Longrightarrow> parse_value n room (json_quote s @ w) = Some (JStr (utf8_repair s), w)"
  using json_str_escape_repair [of s w] by (cases n) (simp_all add: json_quote_def quote_char_def)

lemma encodes_text: "encodes d (json_quote s) (JStr (utf8_repair s))"
  by (simp add: encodes_def parse_value_quote) (simp add: json_quote_def is_ws_def quote_char_def)

lemma encodes_string: "utf8_valid s \<Longrightarrow> encodes d (json_quote s) (JStr s)"
  using encodes_text [of d s] by simp

text \<open>No value starts with a closing bracket.\<close>

lemma encodes_not_bracket: "encodes d t v \<Longrightarrow> hd t \<noteq> CHR '']''"
proof
  assume e: "encodes d t v" and h: "hd t = CHR '']''"
  then obtain cs where t: "t = CHR '']'' # cs" by (cases t) (auto simp: encodes_def)
  have "parse_value n room (t @ '','') \<noteq> Some (v, '','')" for n room
    by (cases n) (auto simp: t quote_char_def json_num_def HasPrefix_def json_unsigned_def num_int_def digits1_def
        is_digit_def code_def)
  moreover have "delimiter '',''" by (simp add: delimiter_def)
  then have "parse_value (Suc (2 * length (t @ '',''))) d (t @ '','') = Some (v, '','')"
    using e unfolding encodes_def by blast
  ultimately show False by blast
qed

lemma encodes_bool: "encodes d (json_bool b) (JBool b)"
proof -
  have "parse_value n room (json_bool b @ w) = Some (JBool b, w)" if "0 < n" for n room w
    using that by (cases n) (simp_all add: json_bool_def literal_def HasPrefix_def quote_char_def)
  then show ?thesis by (simp add: encodes_def json_bool_def is_ws_def)
qed

lemma digits_before_delimiter:
  "delimiter w \<Longrightarrow> takeWhile is_digit (s @ w) = takeWhile is_digit s"
  "delimiter w \<Longrightarrow> dropWhile is_digit (s @ w) = dropWhile is_digit s @ w"
  using delimiter_plain [of w] by (induction s) auto

lemma digits1_append:
  "digits1 s = Some (a, b) \<Longrightarrow> delimiter w \<Longrightarrow> digits1 (s @ w) = Some (a, b @ w)"
  by (auto simp: digits1_def digits_before_delimiter split: list.splits)

lemma digits1_append_Cons:
  "digits1 (x # s) = Some (a, b) \<Longrightarrow> delimiter w \<Longrightarrow> digits1 (x # s @ w) = Some (a, b @ w)"
  using digits1_append [of "x # s"] by simp

lemma num_append:
  assumes "delimiter w"
  shows "num_int s = Some (a, b) \<Longrightarrow> num_int (s @ w) = Some (a, b @ w)"
    and "num_frac s = Some (a, b) \<Longrightarrow> num_frac (s @ w) = Some (a, b @ w)"
    and "num_exp s = Some (a, b) \<Longrightarrow> num_exp (s @ w) = Some (a, b @ w)"
proof -
  show "num_int s = Some (a, b) \<Longrightarrow> num_int (s @ w) = Some (a, b @ w)"
    using digits1_append [of s a b, OF _ assms] by (cases s) (auto simp: num_int_def split: if_splits)
  show "num_frac s = Some (a, b) \<Longrightarrow> num_frac (s @ w) = Some (a, b @ w)"
    using digits1_append [OF _ assms] delimiter_plain [OF assms]
    by (cases s) (auto simp: num_frac_def prepend_Some split: if_splits)
  show "num_exp s = Some (a, b) \<Longrightarrow> num_exp (s @ w) = Some (a, b @ w)"
    using digits1_append [OF _ assms] digits1_append_Cons [OF _ assms] delimiter_plain [OF assms]
    by (cases s) (auto simp: num_exp_def prepend_Some split: if_splits list.splits)
qed

lemma json_unsigned_append:
  "json_unsigned s = Some (a, b) \<Longrightarrow> delimiter w \<Longrightarrow> json_unsigned (s @ w) = Some (a, b @ w)"
  by (auto simp: json_unsigned_def num_append split: option.splits)

lemma json_num_append: "json_num s = Some (a, b) \<Longrightarrow> delimiter w \<Longrightarrow> json_num (s @ w) = Some (a, b @ w)"
proof -
  assume j: "json_num s = Some (a, b)" and d: "delimiter w"
  then have "s \<noteq> []" using json_num_shorter by fastforce
  then have "HasPrefix (s @ w) ''-'' = HasPrefix s ''-''" "tl (s @ w) = tl s @ w"
    by (cases s; simp add: HasPrefix_def)+
  then show ?thesis
    using j json_unsigned_append [OF _ d] by (auto simp: json_num_def prepend_Some split: if_splits)
qed

text \<open>A number begins with a digit or a minus sign.\<close>

lemma json_num_head: "json_num s = Some (a, b) \<Longrightarrow> \<exists>c cs. s = c # cs \<and> (c = CHR ''-'' \<or> is_digit c)"
proof -
  assume j: "json_num s = Some (a, b)"
  have "\<exists>c cs. s = c # cs \<and> is_digit c" if "json_unsigned s = Some (a, b)"
  proof -
    from that have "num_int s \<noteq> None" by (auto simp: json_unsigned_def split: option.splits)
    then show ?thesis
      by (cases s) (auto simp: num_int_def digits1_def is_digit_def code_def split: if_splits list.splits)
  qed
  with j show ?thesis
    by (cases s) (auto simp: json_num_def HasPrefix_def split: if_splits)
qed

lemma encodes_number: "json_num s = Some (s, []) \<Longrightarrow> encodes d s (JNum s)"
proof -
  assume j: "json_num s = Some (s, [])"
  then obtain c cs where c: "s = c # cs" "c = CHR ''-'' \<or> is_digit c" using json_num_head by blast
  have plain: "\<not> is_ws c \<and> c \<noteq> CHR ''{'' \<and> c \<noteq> CHR ''['' \<and> c \<noteq> quote_char \<and> c \<noteq> CHR ''t'' \<and>
      c \<noteq> CHR ''f'' \<and> c \<noteq> CHR ''n''"
    using c(2) by (auto simp: is_digit_def code_def is_ws_def quote_char_def)
  have "parse_value n room (s @ w) = Some (JNum s, w)" if "delimiter w" "0 < n" for n room w
    using that plain json_num_append [OF j that(1)] c(1) by (cases n) simp_all
  then show ?thesis using plain c(1) by (auto simp: encodes_def)
qed

lemma member_key_quote:
  assumes "utf8_valid k" "t \<noteq> []" "\<not> is_ws (hd t)"
  shows "member_key (json_quote k @ '':'' @ t @ w) = Some (k, t @ w)"
  using json_str_escape [OF assms(1)] skip_ws_id [OF assms(2,3)]
  by (simp add: member_key_def json_quote_def skip_ws_def is_ws_def)

lemma parse_members_text:
  assumes "ms \<noteq> []" "\<forall>(k, t, v) \<in> set ms. utf8_valid k \<and> encodes d t v"
    and "2 * length (members_text (map (\<lambda>(k, t, v). (k, t)) ms) @ ''}'' @ rest) + 1 < n" "d \<le> room"
  shows "parse_members n room (members_text (map (\<lambda>(k, t, v). (k, t)) ms) @ ''}'' @ rest) = Some (ms, rest)"
  using assms
proof (induction ms arbitrary: n)
  case (Cons m ms)
  obtain k t v where m: "m = (k, t, v)" by (cases m)
  obtain n' where n: "n = Suc n'" using Cons.prems(3) by (cases n) auto
  have kt: "utf8_valid k" "encodes d t v" using Cons.prems(2) m by auto
  then have t: "t \<noteq> []" "\<not> is_ws (hd t)" by (simp_all add: encodes_def)
  have pv: "parse_value n' room (t @ w) = Some (v, w)" if "delimiter w" "2 * length (t @ w) < n'" for w
    using kt(2) that Cons.prems(4) unfolding encodes_def by blast
  show ?case
  proof (cases ms)
    case Nil
    let ?w = "''}'' @ rest"
    have "delimiter ?w" by (simp add: delimiter_def)
    then show ?thesis
      using Nil m n Cons.prems(3) pv [of ?w] member_key_quote [OF kt(1) t, of ?w]
      by (simp add: skip_ws_def is_ws_def Let_def)
  next
    case (Cons m' ms')
    obtain k' t' v' where m': "m' = (k', t', v')" by (cases m')
    let ?tail = "members_text (map (\<lambda>(k, t, v). (k, t)) ms) @ ''}'' @ rest"
    let ?w = "'','' @ ?tail"
    have tail: "skip_ws ?tail = ?tail"
      by (cases ms') (simp_all add: Cons m' split: prod.splits)
    have "delimiter ?w" by (simp add: delimiter_def)
    moreover have "parse_members n' room ?tail = Some (ms, rest)"
      using Cons.IH Cons.prems n m local.Cons by simp
    ultimately show ?thesis
      using m n Cons.prems(3) pv [of ?w] member_key_quote [OF kt(1) t, of ?w] local.Cons tail
      by (simp add: skip_ws_def is_ws_def Let_def)
  qed
qed simp

lemma parse_object_text:
  assumes "ms \<noteq> []" "\<forall>(k, t, v) \<in> set ms. utf8_valid k \<and> encodes d t v" "d < room"
    and "2 * length (json_object (map (\<lambda>(k, t, v). (k, t)) ms) @ w) < n"
  shows "parse_value n room (json_object (map (\<lambda>(k, t, v). (k, t)) ms) @ w) = Some (JObj ms, w)"
proof -
  let ?body = "members_text (map (\<lambda>(k, t, v). (k, t)) ms)"
  obtain k t v ms' where ms: "ms = (k, t, v) # ms'" using assms(1) by (cases ms) auto
  have q: "\<exists>z. ?body = quote_char # z" unfolding ms by (cases ms') (auto simp: json_quote_def)
  then have b: "skip_ws (?body @ ''}'' @ w) = ?body @ ''}'' @ w" "\<not> HasPrefix (?body @ ''}'' @ w) ''}''"
    by (auto simp: skip_ws_def is_ws_def HasPrefix_def quote_char_def)
  obtain n' where n: "n = Suc n'" using assms(4) by (cases n) auto
  have "parse_members n' (room - 1) (?body @ ''}'' @ w) = Some (ms, w)"
    by (rule parse_members_text [OF assms(1,2)]) (use assms(3,4) n in \<open>auto simp: json_object_def\<close>)
  then show ?thesis
    using b assms(3) by (simp add: n json_object_def del: parse_members.simps)
qed

lemma encodes_object:
  assumes "ms \<noteq> []" "\<forall>(k, t, v) \<in> set ms. utf8_valid k \<and> encodes d t v"
  shows "encodes (Suc d) (json_object (map (\<lambda>(k, t, v). (k, t)) ms)) (JObj ms)"
proof -
  have "json_object x \<noteq> [] \<and> \<not> is_ws (hd (json_object x))" for x by (simp add: json_object_def is_ws_def)
  then show ?thesis using parse_object_text [OF assms] by (simp add: encodes_def Suc_le_eq)
qed

lemma parse_elems_text:
  assumes "ms \<noteq> []" "\<forall>(t, v) \<in> set ms. encodes d t v"
    and "2 * length (elems_text (map fst ms) @ '']'' @ rest) + 1 < n" "d \<le> room"
  shows "parse_elems n room (elems_text (map fst ms) @ '']'' @ rest) = Some (map snd ms, rest)"
  using assms
proof (induction ms arbitrary: n)
  case (Cons m ms)
  obtain t v where m: "m = (t, v)" by (cases m)
  obtain n' where n: "n = Suc n'" using Cons.prems(3) by (cases n) auto
  have "encodes d t v" using Cons.prems(2) m by auto
  then have pv: "parse_value n' room (t @ w) = Some (v, w)" if "delimiter w" "2 * length (t @ w) < n'" for w
    using that Cons.prems(4) unfolding encodes_def by blast
  show ?case
  proof (cases ms)
    case Nil
    let ?w = "'']'' @ rest"
    have "delimiter ?w" by (simp add: delimiter_def)
    then show ?thesis
      using Nil m n Cons.prems(3) pv [of ?w] by (simp add: skip_ws_def is_ws_def)
  next
    case (Cons m' ms')
    let ?tail = "elems_text (map fst ms) @ '']'' @ rest" and ?w = "'','' @ elems_text (map fst ms) @ '']'' @ rest"
    have "encodes d (fst m') (snd m')" using Cons.prems(2) local.Cons by (auto split: prod.splits)
    then have "fst m' \<noteq> [] \<and> \<not> is_ws (hd (fst m'))" by (simp add: encodes_def)
    then have tail: "skip_ws ?tail = ?tail"
      using skip_ws_id [of "fst m'"] local.Cons by (cases ms') simp_all
    have "delimiter ?w" by (simp add: delimiter_def)
    moreover have "parse_elems n' room ?tail = Some (map snd ms, rest)"
      using Cons.IH Cons.prems n m local.Cons by simp
    ultimately show ?thesis
      using m n Cons.prems(3) pv [of ?w] local.Cons tail by (simp add: skip_ws_def is_ws_def)
  qed
qed simp

lemma encodes_array:
  assumes "ms \<noteq> []" "\<forall>(t, v) \<in> set ms. encodes d t v"
  shows "encodes (Suc d) (json_array (map fst ms)) (JArr (map snd ms))"
proof -
  let ?body = "elems_text (map fst ms)"
  obtain t v ms' where ms: "ms = (t, v) # ms'" using assms(1) by (cases ms) auto
  have "encodes d t v" using assms(2) ms by simp
  then have t: "t \<noteq> []" "\<not> is_ws (hd t)" "hd t \<noteq> CHR '']''"
    using encodes_not_bracket by (auto simp: encodes_def)
  have "parse_value n room (json_array (map fst ms) @ w) = Some (JArr (map snd ms), w)"
    if lim: "Suc d \<le> room" "2 * length (json_array (map fst ms) @ w) < n" for n room w
  proof -
    have b: "skip_ws (?body @ '']'' @ w) = ?body @ '']'' @ w" "\<not> HasPrefix (?body @ '']'' @ w) '']''"
      using t skip_ws_id [of t] by (cases ms'; cases t; simp add: ms HasPrefix_def)+
    obtain n' where n: "n = Suc n'" using lim(2) by (cases n) auto
    have "parse_elems n' (room - 1) (?body @ '']'' @ w) = Some (map snd ms, w)"
      by (rule parse_elems_text [OF assms]) (use lim n in \<open>auto simp: json_array_def\<close>)
    then show ?thesis
      using b lim(1) by (simp add: n json_array_def del: parse_elems.simps)
  qed
  then show ?thesis by (simp add: encodes_def json_array_def is_ws_def)
qed

lemma json_parse_object:
  assumes "ms \<noteq> []" "\<forall>(k, t, v) \<in> set ms. utf8_valid k \<and> encodes d t v" "d < max_nesting"
  shows "json_parse (json_object (map (\<lambda>(k, t, v). (k, t)) ms)) = Some (JObj ms)"
proof -
  have "skip_ws (json_object x) = json_object x" for x
    by (simp add: json_object_def skip_ws_def is_ws_def)
  moreover have "parse_value (2 * length (json_object (map (\<lambda>(k, t, v). (k, t)) ms)) + 2) max_nesting
      (json_object (map (\<lambda>(k, t, v). (k, t)) ms)) = Some (JObj ms, [])"
    using parse_object_text [OF assms, of "[]"] by (simp del: parse_value.simps)
  ultimately show ?thesis by (simp add: json_parse_def parse_first_def Let_def del: parse_value.simps)
qed

lemma key_valid:
  "utf8_valid ''success''" "utf8_valid ''transaction''" "utf8_valid ''network''" "utf8_valid ''payer''"
  "utf8_valid ''input''" "utf8_valid ''output''" "utf8_valid ''cached_input''"
  "utf8_valid ''input_per_m''" "utf8_valid ''output_per_m''" "utf8_valid ''cached_input_per_m''"
  by code_simp+

text \<open>The receipt is readable: base64-decoding and parsing the \<open>X-PAYMENT-RESPONSE\<close> header gives
  back exactly the settlement that was written, for any transaction hash, network and payer in
  valid UTF-8.\<close>

theorem receipt_roundtrip:
  assumes "utf8_valid (SetTransaction r)" "utf8_valid (SetNetwork r)" "utf8_valid (SetPayer r)"
  shows "\<exists>raw. DecodeString (EncodeToString (Marshal_SettlementResponse r)) = Some raw \<and>
     Unmarshal decode_SettlementResponse raw s0 = (r, False)"
proof -
  let ?ms = "[(''success'', json_bool (Success r), JBool (Success r)),
     (''transaction'', json_quote (SetTransaction r), JStr (SetTransaction r)),
     (''network'', json_quote (SetNetwork r), JStr (SetNetwork r)),
     (''payer'', json_quote (SetPayer r), JStr (SetPayer r))]"
  have "json_parse (json_object (map (\<lambda>(k, t, v). (k, t)) ?ms)) = Some (JObj ?ms)"
    by (rule json_parse_object [where d = 0])
      (use assms in \<open>auto simp: key_valid encodes_bool encodes_string max_nesting_def\<close>)
  then have "json_parse (Marshal_SettlementResponse r) = Some (JObj ?ms)"
    by (simp add: Marshal_SettlementResponse_def)
  moreover have keys: "is_field ''success'' ''success''" "\<not> is_field ''transaction'' ''success''"
    "is_field ''transaction'' ''transaction''" "\<not> is_field ''network'' ''success''"
    "\<not> is_field ''network'' ''transaction''" "is_field ''network'' ''network''"
    "\<not> is_field ''payer'' ''success''" "\<not> is_field ''payer'' ''transaction''"
    "\<not> is_field ''payer'' ''network''" "is_field ''payer'' ''payer''"
    by code_simp+
  ultimately have "Unmarshal decode_SettlementResponse (Marshal_SettlementResponse r) s0 = (r, False)"
    by (simp add: Unmarshal_def decode_SettlementResponse_def decode_struct_def decode_bool_def
        decode_string_def keys)
  then show ?thesis using DecodeString_EncodeToString by blast
qed

definition sample_receipt :: SettlementResponse where
  "sample_receipt = \<lparr>Success = True, SetTransaction = ''0xab'', SetNetwork = ''eip155:84532'', SetPayer = ''0x01''\<rparr>"

theorem receipt_roundtrip_witness:
  "\<exists>raw. DecodeString (EncodeToString (Marshal_SettlementResponse sample_receipt)) = Some raw \<and>
     Unmarshal decode_SettlementResponse raw sample_receipt = (sample_receipt, False)"
proof -
  have "utf8_valid (SetTransaction sample_receipt)" "utf8_valid (SetNetwork sample_receipt)"
    "utf8_valid (SetPayer sample_receipt)" by code_simp+
  then show ?thesis by (rule receipt_roundtrip)
qed

subsection \<open>Prices may be numbers or strings\<close>

text \<open>\<open>price_text t s\<close>: the JSON text \<open>t\<close> of a member stands for the price text \<open>s\<close>.\<close>

definition price_text :: "string \<Rightarrow> string \<Rightarrow> bool" where
  "price_text t s \<longleftrightarrow> (t = json_quote s \<and> utf8_valid s) \<or> (t = s \<and> json_num s = Some (s, []))"

lemma price_text_encodes: "price_text t s \<Longrightarrow> \<exists>v. encodes 0 t v"
  using encodes_string [of s 0] encodes_number [of s 0] by (auto simp: price_text_def)

lemma parse_quoted: "utf8_valid s \<Longrightarrow> json_parse (json_quote s) = Some (JStr s)"
  using parse_value_quote [of _ _ s "[]"] skip_ws_quote [of s "[]"]
  by (simp add: json_parse_def parse_first_def Let_def del: parse_value.simps)

lemma decode_price_text: "price_text t s \<Longrightarrow> t \<noteq> [] \<and> decodePriceValue t = (s, False)"
proof -
  assume "price_text t s"
  then consider "t = json_quote s" "utf8_valid s" | "t = s" "json_num s = Some (s, [])"
    by (auto simp: price_text_def)
  then show ?thesis
  proof cases
    case 1
    obtain z where z: "json_quote s = quote_char # z" by (simp add: json_quote_def)
    then have "json_parse (quote_char # z) = Some (JStr s)" using parse_quoted [OF 1(2)] by simp
    then show ?thesis
      unfolding 1(1) z by (simp add: decodePriceValue_def Unmarshal_def decode_string_def)
  next
    case 2
    then obtain c cs where c: "s = c # cs" "c = CHR ''-'' \<or> is_digit c" using json_num_head by blast
    then have "c \<noteq> quote_char" by (auto simp: is_digit_def code_def quote_char_def)
    then show ?thesis unfolding 2(1) c(1) by (simp add: decodePriceValue_def)
  qed
qed

text \<open>A price object is read with either set of field names (\<open>input\<close> or \<open>input_per_m\<close> and so
  on), and each price may be a JSON string or a JSON number: a number keeps its exact spelling, so
  no float rounding happens on the way to \<open>parseUSDToMicros\<close>.\<close>

theorem price_json_forms:
  assumes "price_text ti i" "price_text tout out" "price_text tc c"
    and "names = (''input'', ''output'', ''cached_input'') \<or>
         names = (''input_per_m'', ''output_per_m'', ''cached_input_per_m'')"
  shows "ModelPrice_UnmarshalJSON
      (json_object [(fst names, ti), (fst (snd names), tout), (snd (snd names), tc)]) p =
     (\<lparr>InputPerM = i, OutputPerM = out, CachedInputPerM = c\<rparr>, None)"
proof -
  obtain vi vo vc where v: "encodes 0 ti vi" "encodes 0 tout vo" "encodes 0 tc vc"
    using price_text_encodes assms(1-3) by meson
  note d = decode_price_text [OF assms(1)] decode_price_text [OF assms(2)] decode_price_text [OF assms(3)]
  have keys: "is_field ''input'' ''input''" "\<not> is_field ''output'' ''input''" "is_field ''output'' ''output''"
    "\<not> is_field ''cached_input'' ''input''" "\<not> is_field ''cached_input'' ''output''"
    "is_field ''cached_input'' ''cached_input''"
    by code_simp+
  have keys2: "\<not> is_field ''input_per_m'' ''input''" "\<not> is_field ''input_per_m'' ''output''"
    "\<not> is_field ''input_per_m'' ''cached_input''" "is_field ''input_per_m'' ''input_per_m''"
    "\<not> is_field ''output_per_m'' ''input''" "\<not> is_field ''output_per_m'' ''output''"
    "\<not> is_field ''output_per_m'' ''cached_input''" "\<not> is_field ''output_per_m'' ''input_per_m''"
    "is_field ''output_per_m'' ''output_per_m''"
    by code_simp+
  have keys3: "\<not> is_field ''cached_input_per_m'' ''input''" "\<not> is_field ''cached_input_per_m'' ''output''"
    "\<not> is_field ''cached_input_per_m'' ''cached_input''" "\<not> is_field ''cached_input_per_m'' ''input_per_m''"
    "\<not> is_field ''cached_input_per_m'' ''output_per_m''" "is_field ''cached_input_per_m'' ''cached_input_per_m''"
    by code_simp+
  let ?ms = "[(fst names, ti, vi), (fst (snd names), tout, vo), (snd (snd names), tc, vc)]"
  have "json_parse (json_object (map (\<lambda>(k, t, v). (k, t)) ?ms)) = Some (JObj ?ms)"
    by (rule json_parse_object [where d = 0]) (use assms(4) v in \<open>auto simp: key_valid max_nesting_def\<close>)
  then have parse: "json_parse (json_object [(fst names, ti), (fst (snd names), tout), (snd (snd names), tc)]) =
      Some (JObj ?ms)" by simp
  show ?thesis
    using assms(4)
  proof
    assume n: "names = (''input'', ''output'', ''cached_input'')"
    show ?thesis
      using parse d unfolding n
      by (simp add: ModelPrice_UnmarshalJSON_def Unmarshal_def decode_RawModelPrice_def
          decode_struct_def decode_raw_def keys Let_def)
  next
    assume n: "names = (''input_per_m'', ''output_per_m'', ''cached_input_per_m'')"
    show ?thesis
      using parse d unfolding n
      by (simp add: ModelPrice_UnmarshalJSON_def Unmarshal_def decode_RawModelPrice_def
          decode_struct_def decode_raw_def keys2 keys3 Let_def)
  qed
qed

theorem price_json_forms_witness:
  "\<forall>p. ModelPrice_UnmarshalJSON
      (json_object [(''input_per_m'', ''2.50''), (''output_per_m'', json_quote ''10.00''), (''cached_input_per_m'', ''1e-1'')]) p =
     (\<lparr>InputPerM = ''2.50'', OutputPerM = ''10.00'', CachedInputPerM = ''1e-1''\<rparr>, None)"
proof -
  have "json_num ''2.50'' = Some (''2.50'', [])" "json_num ''1e-1'' = Some (''1e-1'', [])" "utf8_valid ''10.00''"
    by code_simp+
  then have "price_text ''2.50'' ''2.50''" "price_text (json_quote ''10.00'') ''10.00''" "price_text ''1e-1'' ''1e-1''"
    by (simp_all add: price_text_def)
  from price_json_forms [OF this, of "(''input_per_m'', ''output_per_m'', ''cached_input_per_m'')"]
  show ?thesis by simp
qed

end
