(* ===== verification/Config.thy ===== *)
theory Config
  imports GoFloat Wire
begin

section \<open>Configuration\<close>

text \<open>
  The package \<open>internal/config\<close> (\<open>config.go\<close>): the settings read from the environment, their
  defaults per chain, and the checks that make \<open>Load\<close> refuse to start. \<open>os.Getenv\<close> is a function
  from names to values that is empty where a variable is unset. The libraries the checks call are
  arguments: \<open>geth\<close> and \<open>solana\<close> hold the functions of go-ethereum and solana-go the server uses,
  and \<open>url_path\<close> is \<open>net/url\<close>: the escaped path of an absolute URL, \<open>None\<close> for anything else.
\<close>

subsection \<open>The libraries\<close>

text \<open>A typed-data field and its value, as handed to \<open>apitypes.TypedData.HashStruct\<close>.\<close>

datatype typed_value = TStr string | TInt int

record TypedData =
  tdTypes :: "(string \<times> (string \<times> string) list) list"
  tdPrimaryType :: string
  tdDomain :: "(string \<times> typed_value) list"
  tdMessage :: "(string \<times> typed_value) list"

record geth =
  IsHexAddress :: "string \<Rightarrow> bool"
  HexToAddress :: "string \<Rightarrow> Address"
  Address_Hex :: "Address \<Rightarrow> string"
  hexutil_Decode :: "string \<Rightarrow> string option"
  hexutil_Encode :: "string \<Rightarrow> string"
  Bytes2Hex :: "string \<Rightarrow> string"
  HexToECDSA :: "string \<Rightarrow> string option"
  PublicKey :: "string \<Rightarrow> string"
  PubkeyToAddress :: "string \<Rightarrow> Address"
  SigToPub :: "string \<Rightarrow> string \<Rightarrow> string option"
  ValidateSignatureValues :: "8 word \<Rightarrow> int \<Rightarrow> int \<Rightarrow> bool \<Rightarrow> bool"
  Keccak256 :: "string \<Rightarrow> string"
  Domain_Map :: "(string \<times> typed_value) list \<Rightarrow> (string \<times> typed_value) list"
  HashStruct :: "TypedData \<Rightarrow> string \<Rightarrow> (string \<times> typed_value) list \<Rightarrow> string option"

text \<open>Keys of Solana accounts are opaque byte strings.\<close>

type_synonym PubKey = string

record solana =
  PublicKeyFromBase58 :: "string \<Rightarrow> PubKey option"
  PublicKey_String :: "PubKey \<Rightarrow> string"
  FindAssociatedTokenAddress :: "PubKey \<Rightarrow> PubKey \<Rightarrow> PubKey option"

subsection \<open>The configuration record\<close>

record Config =
  Port :: string
  UpstreamURL :: string
  BaseURL :: string
  UpstreamToken :: string
  PaymentChain :: string
  PayToAddress :: string
  GasPrivKeyHex :: string
  ChainID :: int
  Network :: string
  RPCURL :: string
  USDCAddress :: string
  USDCName :: string
  USDCVersion :: string
  SolanaCluster :: string
  SolanaConfirmation :: string
  DBPath :: string
  AdminToken :: string
  CacheTTLSecs :: int
  SigTimeoutSecs :: int
  UpstreamTimeoutSecs :: int
  ShutdownTimeoutSecs :: int
  MaxBodyBytes :: int
  AllowedOrigins :: "string list"
  Markup :: f64
  DryRun :: bool

datatype cfg_error =
    MustBeInteger string
  | MustBeBoolean string
  | MustBeNumber string
  | Required string
  | Invalid string
  | MustBePositive string
  | MustBeFinite string

type_synonym Env = "string \<Rightarrow> string"

definition usdcByChain :: "int \<Rightarrow> string option" where
  "usdcByChain n =
     (if n = 8453 then Some ''0x833589fCD6eDb6E08f4c7C32D4f71b54bdA02913''
      else if n = 84532 then Some ''0x036CbD53842c5426634e7929541eC2318f3dCF7e''
      else None)"

definition usdcDomainNameByChain :: "int \<Rightarrow> string" where
  "usdcDomainNameByChain n = (if n = 8453 then ''USD Coin'' else if n = 84532 then ''USDC'' else '''')"

definition rpcByChain :: "int \<Rightarrow> string" where
  "rpcByChain n =
     (if n = 8453 then ''https://mainnet.base.org''
      else if n = 84532 then ''https://sepolia.base.org'' else '''')"

definition solanaRPCByCluster :: "string \<Rightarrow> string" where
  "solanaRPCByCluster c =
     (if c = ''mainnet-beta'' then ''https://api.mainnet-beta.solana.com''
      else if c = ''devnet'' then ''https://api.devnet.solana.com'' else '''')"

subsection \<open>Reading the environment\<close>

definition envStr :: "Env \<Rightarrow> string \<Rightarrow> string \<Rightarrow> string" where
  "envStr env key def = (if env key \<noteq> [] then env key else def)"

definition envInt :: "Env \<Rightarrow> string \<Rightarrow> int \<Rightarrow> cfg_error + int" where
  "envInt env key def =
     (if env key \<noteq> [] then (case ParseInt (env key) of None \<Rightarrow> Inl (MustBeInteger key) | Some n \<Rightarrow> Inr n)
      else Inr def)"

definition envInt64 :: "Env \<Rightarrow> string \<Rightarrow> int \<Rightarrow> cfg_error + int" where
  "envInt64 env key def =
     (if env key \<noteq> [] then (case ParseInt (env key) of None \<Rightarrow> Inl (MustBeInteger key) | Some n \<Rightarrow> Inr n)
      else Inr def)"

definition envBool :: "Env \<Rightarrow> string \<Rightarrow> bool \<Rightarrow> cfg_error + bool" where
  "envBool env key def =
     (if env key \<noteq> [] then (case ParseBool (env key) of None \<Rightarrow> Inl (MustBeBoolean key) | Some b \<Rightarrow> Inr b)
      else Inr def)"

definition envFloat :: "Env \<Rightarrow> string \<Rightarrow> f64 \<Rightarrow> cfg_error + f64" where
  "envFloat env key def =
     (if env key \<noteq> [] then (case ParseFloat (env key) of None \<Rightarrow> Inl (MustBeNumber key) | Some x \<Rightarrow> Inr x)
      else Inr def)"

definition envCSV :: "Env \<Rightarrow> string \<Rightarrow> string \<Rightarrow> string list" where
  "envCSV env key def =
     filter (\<lambda>p. p \<noteq> []) (map TrimSpace (Split (envStr env key def) (CHR '','')))"

definition ensure0x :: "string \<Rightarrow> string" where
  "ensure0x s = (if \<not> HasPrefix s ''0x'' then ''0x'' @ s else s)"

definition paymentNetwork :: "string \<Rightarrow> int \<Rightarrow> string \<Rightarrow> string" where
  "paymentNetwork chain chainID cluster =
     (if chain = ''solana'' then ''solana:'' @ cluster else ''eip155:'' @ itoa chainID)"

definition normalizeBaseURL :: "(string \<Rightarrow> string option) \<Rightarrow> string \<Rightarrow> string" where
  "normalizeBaseURL url_path raw0 =
     (let raw = TrimSpace raw0 in
      if raw = [] \<or> raw = ''/'' then []
      else
        let raw = (case url_path raw of Some p \<Rightarrow> p | None \<Rightarrow> raw);
            raw = ''/'' @ Trim raw (CHR ''/'')
        in TrimRight raw (CHR ''/''))"

subsection \<open>\<open>Load\<close>\<close>

definition and_then :: "'e + 'a \<Rightarrow> ('a \<Rightarrow> 'e + 'b) \<Rightarrow> 'e + 'b" where
  "and_then r k = (case r of Inl e \<Rightarrow> Inl e | Inr x \<Rightarrow> k x)"

text \<open>\<open>guard b e r\<close> is \<open>if b { return nil, e }\<close> followed by the rest.\<close>

definition guard :: "bool \<Rightarrow> 'e \<Rightarrow> 'e + 'a \<Rightarrow> 'e + 'a" where
  "guard b e r = (if b then Inl e else r)"

text \<open>The address checks for the two chains.\<close>

definition check_evm :: "geth \<Rightarrow> Config \<Rightarrow> cfg_error + unit" where
  "check_evm g c =
     guard (\<not> IsHexAddress g (PayToAddress c)) (Invalid ''PAY_TO_ADDRESS'')
    (guard (USDCAddress c = []) (Required ''USDC_ADDRESS'')
    (guard (\<not> IsHexAddress g (USDCAddress c)) (Invalid ''USDC_ADDRESS'')
    (guard (hexutil_Decode g (ensure0x (USDCAddress c)) = None) (Invalid ''USDC_ADDRESS'')
      (Inr ()))))"

definition check_solana :: "solana \<Rightarrow> Config \<Rightarrow> cfg_error + unit" where
  "check_solana sol c =
     guard (PublicKeyFromBase58 sol (PayToAddress c) = None) (Invalid ''PAY_TO_ADDRESS'')
    (guard (USDCAddress c = []) (Required ''USDC_ADDRESS'')
    (guard (PublicKeyFromBase58 sol (USDCAddress c) = None) (Invalid ''USDC_ADDRESS'')
    (guard (RPCURL c = []) (Required ''RPC_URL'')
    (guard (SolanaConfirmation c \<noteq> ''confirmed'' \<and> SolanaConfirmation c \<noteq> ''finalized'')
       (Invalid ''SOLANA_CONFIRMATION'')
      (Inr ())))))"

definition check_config :: "geth \<Rightarrow> solana \<Rightarrow> Config \<Rightarrow> cfg_error + Config" where
  "check_config g sol c =
     guard (UpstreamURL c = []) (Required ''UPSTREAM_URL'')
    (guard (UpstreamToken c = []) (Required ''UPSTREAM_TOKEN'')
    (guard (PaymentChain c \<noteq> ''evm'' \<and> PaymentChain c \<noteq> ''solana'') (Invalid ''PAYMENT_CHAIN'')
    (guard (PayToAddress c = []) (Required ''PAY_TO_ADDRESS'')
    (and_then (if PaymentChain c = ''evm'' then check_evm g c else check_solana sol c) (\<lambda>_.
     guard (CacheTTLSecs c \<le> 0) (MustBePositive ''CACHE_TTL_SECS'')
    (guard (SigTimeoutSecs c \<le> 0) (MustBePositive ''SIG_TIMEOUT_SECS'')
    (guard (UpstreamTimeoutSecs c \<le> 0) (MustBePositive ''UPSTREAM_TIMEOUT_SECS'')
    (guard (ShutdownTimeoutSecs c \<le> 0) (MustBePositive ''SHUTDOWN_TIMEOUT_SECS'')
    (guard (MaxBodyBytes c \<le> 0) (MustBePositive ''MAX_BODY_BYTES'')
    (guard (f64_le_zero (Markup c)) (MustBePositive ''MARKUP'')
    (guard (Markup c = NaN \<or> Markup c = Inf False \<or> Markup c = Inf True) (MustBeFinite ''MARKUP'')
    (guard (\<not> DryRun c \<and> PaymentChain c = ''evm'' \<and> GasPrivKeyHex c = []) (Required ''GAS_PRIVATE_KEY'')
    (guard (\<not> DryRun c \<and> PaymentChain c = ''evm'' \<and>
            HexToECDSA g (TrimPrefix (GasPrivKeyHex c) ''0x'') = None) (Invalid ''GAS_PRIVATE_KEY'')
      (Inr c))))))))))))))"

definition Load :: "geth \<Rightarrow> solana \<Rightarrow> (string \<Rightarrow> string option) \<Rightarrow> Env \<Rightarrow> cfg_error + Config" where
  "Load g sol url_path env =
     (let paymentChain = ToLower (envStr env ''PAYMENT_CHAIN'' ''evm'') in
      and_then (envInt64 env ''CHAIN_ID'' 84532) (\<lambda>chainID.
      and_then (envBool env ''DRY_RUN'' False) (\<lambda>dryRun.
      let gasKey = envStr env ''GAS_PRIVATE_KEY'' '''';
          usdcAddr = envStr env ''USDC_ADDRESS'' '''';
          usdcAddr = (if paymentChain = ''evm'' \<and> usdcAddr = []
                      then (case usdcByChain chainID of Some addr \<Rightarrow> addr | None \<Rightarrow> usdcAddr)
                      else usdcAddr);
          usdcName = usdcDomainNameByChain chainID;
          usdcName = (if usdcName = [] then ''USD Coin'' else usdcName);
          usdcName = envStr env ''USDC_NAME'' usdcName;
          rpcDefault = rpcByChain chainID;
          rpcDefault = (if rpcDefault = [] then ''https://sepolia.base.org'' else rpcDefault);
          solanaCluster = ToLower (envStr env ''SOLANA_CLUSTER'' ''devnet'');
          rpcDefault = (if paymentChain = ''solana'' then solanaRPCByCluster solanaCluster else rpcDefault)
      in
      and_then (envInt env ''CACHE_TTL_SECS'' 300) (\<lambda>cacheTTL.
      and_then (envInt env ''SIG_TIMEOUT_SECS'' 120) (\<lambda>sigTimeout.
      and_then (envInt env ''UPSTREAM_TIMEOUT_SECS'' 300) (\<lambda>upstreamTimeout.
      and_then (envInt env ''SHUTDOWN_TIMEOUT_SECS'' 10) (\<lambda>shutdownTimeout.
      and_then (envInt64 env ''MAX_BODY_BYTES'' (4 * 2 ^ 20)) (\<lambda>maxBodyBytes.
      and_then (envFloat env ''MARKUP'' f64_one) (\<lambda>markup.
        check_config g sol
          \<lparr>Port = envStr env ''PORT'' ''3402'',
           UpstreamURL = TrimRight (envStr env ''UPSTREAM_URL'' '''') (CHR ''/''),
           BaseURL = normalizeBaseURL url_path (envStr env ''BASE_URL'' ''''),
           UpstreamToken = envStr env ''UPSTREAM_TOKEN'' '''',
           PaymentChain = paymentChain,
           PayToAddress = envStr env ''PAY_TO_ADDRESS'' '''',
           GasPrivKeyHex = gasKey,
           ChainID = chainID,
           Network = paymentNetwork paymentChain chainID solanaCluster,
           RPCURL = envStr env ''RPC_URL'' rpcDefault,
           USDCAddress = usdcAddr,
           USDCName = usdcName,
           USDCVersion = envStr env ''USDC_VERSION'' ''2'',
           SolanaCluster = solanaCluster,
           SolanaConfirmation = envStr env ''SOLANA_CONFIRMATION'' ''confirmed'',
           DBPath = envStr env ''DB_PATH'' ''./xpay.db'',
           AdminToken = envStr env ''ADMIN_TOKEN'' '''',
           CacheTTLSecs = cacheTTL,
           SigTimeoutSecs = sigTimeout,
           UpstreamTimeoutSecs = upstreamTimeout,
           ShutdownTimeoutSecs = shutdownTimeout,
           MaxBodyBytes = maxBodyBytes,
           AllowedOrigins = envCSV env ''ALLOWED_ORIGINS'' ''*'',
           Markup = markup,
           DryRun = dryRun\<rparr>)))))))))"

subsection \<open>What an accepted configuration satisfies\<close>

lemma and_then_Inr [simp]: "and_then r k = Inr y \<longleftrightarrow> (\<exists>x. r = Inr x \<and> k x = Inr y)"
  by (cases r) (simp_all add: and_then_def)

lemma guard_Inr [simp]: "guard b e r = Inr y \<longleftrightarrow> \<not> b \<and> r = Inr y"
  by (simp add: guard_def)

lemma envInt_range: "envInt env key def = Inr n \<Longrightarrow> int64_range def \<Longrightarrow> int64_range n"
  by (auto simp: envInt_def split: if_splits option.splits dest: ParseInt_range)

lemma envInt64_range: "envInt64 env key def = Inr n \<Longrightarrow> int64_range def \<Longrightarrow> int64_range n"
  by (auto simp: envInt64_def split: if_splits option.splits dest: ParseInt_range)

lemma double_one: "double (BRat 1 1)"
proof -
  have "rval (BRat 1 1) = of_nat 1 * 2 powi 0" by (simp add: rval_def)
  moreover have "(1 :: nat) < 2 ^ 53" "(- 1074 :: int) \<le> 0" by simp_all
  ultimately have "\<exists>q e. q < 2 ^ 53 \<and> - 1074 \<le> e \<and> rval (BRat 1 1) = of_nat q * 2 powi e" by blast
  then show ?thesis by (simp add: double_def brat_wf_def)
qed

lemma envFloat_double:
  assumes "envFloat env key f64_one = Inr x" "\<not> f64_le_zero x" "x \<noteq> NaN" "x \<noteq> Inf False" "x \<noteq> Inf True"
  shows "\<exists>r. x = Fin r \<and> double r \<and> 0 < Num r"
proof (cases x)
  case (Fin r)
  then have "0 < Num r" using assms(2) by simp
  moreover have "double r"
    using assms(1) Fin \<open>0 < Num r\<close> double_one
    by (auto simp: envFloat_def f64_one_def split: if_splits option.splits intro: ParseFloat_double)
  ultimately show ?thesis using Fin by blast
next
  case (Inf neg)
  then show ?thesis using assms(4,5) by (cases neg) simp_all
qed (use assms(3) in simp)

lemma normalizeBaseURL_shape:
  "normalizeBaseURL up raw = [] \<or>
   (HasPrefix (normalizeBaseURL up raw) ''/'' \<and> last (normalizeBaseURL up raw) \<noteq> CHR ''/'')"
proof -
  have "TrimRight (''/'' @ s) (CHR ''/'') = [] \<or>
      (HasPrefix (TrimRight (''/'' @ s) (CHR ''/'')) ''/'' \<and> last (TrimRight (''/'' @ s) (CHR ''/'')) \<noteq> CHR ''/'')" for s
  proof (cases "TrimRight (''/'' @ s) (CHR ''/'')")
    case (Cons c cs)
    have "prefix (TrimRight (''/'' @ s) (CHR ''/'')) (''/'' @ s)"
      by (simp add: TrimRight_def prefix_def) (metis rev_append rev_rev_ident takeWhile_dropWhile_id rev.simps(2))
    then have "c = CHR ''/''" using Cons by auto
    then show ?thesis using Cons TrimRight_last [of "''/'' @ s" "CHR ''/''"] by (simp add: HasPrefix_def)
  qed simp
  then show ?thesis by (simp add: normalizeBaseURL_def Let_def)
qed

text \<open>The two chains' requirements, and what every configuration meets.\<close>

definition evm_ok :: "geth \<Rightarrow> Config \<Rightarrow> bool" where
  "evm_ok g c \<longleftrightarrow> IsHexAddress g (PayToAddress c) \<and> IsHexAddress g (USDCAddress c) \<and>
     (\<not> DryRun c \<longrightarrow> HexToECDSA g (TrimPrefix (GasPrivKeyHex c) ''0x'') \<noteq> None) \<and>
     Network c = ''eip155:'' @ itoa (ChainID c)"

definition solana_ok :: "solana \<Rightarrow> Config \<Rightarrow> bool" where
  "solana_ok sol c \<longleftrightarrow> PublicKeyFromBase58 sol (PayToAddress c) \<noteq> None \<and>
     PublicKeyFromBase58 sol (USDCAddress c) \<noteq> None \<and> RPCURL c \<noteq> [] \<and>
     SolanaConfirmation c \<in> {''confirmed'', ''finalized''} \<and>
     Network c = ''solana:'' @ SolanaCluster c"

definition config_ok :: "geth \<Rightarrow> solana \<Rightarrow> Config \<Rightarrow> bool" where
  "config_ok g sol c \<longleftrightarrow>
     (PaymentChain c = ''evm'' \<and> evm_ok g c \<or> PaymentChain c = ''solana'' \<and> solana_ok sol c) \<and>
     UpstreamURL c \<noteq> [] \<and> last (UpstreamURL c) \<noteq> CHR ''/'' \<and> UpstreamToken c \<noteq> [] \<and>
     (BaseURL c = [] \<or> HasPrefix (BaseURL c) ''/'' \<and> last (BaseURL c) \<noteq> CHR ''/'') \<and>
     (\<forall>n \<in> {CacheTTLSecs c, SigTimeoutSecs c, UpstreamTimeoutSecs c, ShutdownTimeoutSecs c, MaxBodyBytes c}.
        0 < n \<and> int64_range n) \<and>
     (\<exists>r. Markup c = Fin r \<and> double r \<and> 0 < Num r) \<and>
     (\<forall>origin \<in> set (AllowedOrigins c). origin \<noteq> [] \<and> TrimSpace origin = origin)"

lemma check_config_fields:
  assumes "check_config g sol c0 = Inr c"
  shows "c = c0" "UpstreamURL c \<noteq> []" "UpstreamToken c \<noteq> []"
    "PaymentChain c = ''evm'' \<and> check_evm g c = Inr () \<or> PaymentChain c = ''solana'' \<and> check_solana sol c = Inr ()"
    "0 < CacheTTLSecs c" "0 < SigTimeoutSecs c" "0 < UpstreamTimeoutSecs c" "0 < ShutdownTimeoutSecs c"
    "0 < MaxBodyBytes c" "\<not> f64_le_zero (Markup c)" "Markup c \<noteq> NaN" "Markup c \<noteq> Inf False"
    "Markup c \<noteq> Inf True"
    "\<not> DryRun c \<Longrightarrow> PaymentChain c = ''evm'' \<Longrightarrow> HexToECDSA g (TrimPrefix (GasPrivKeyHex c) ''0x'') \<noteq> None"
  using assms by (auto simp: check_config_def split: if_splits)

lemma Load_config_ok:
  assumes "Load g sol url_path env = Inr c"
  shows "config_ok g sol c"
proof -
  from assms obtain chainID cacheTTL sigTimeout upstreamTimeout shutdownTimeout maxBody markup c0 where
    e: "envInt64 env ''CHAIN_ID'' 84532 = Inr chainID" "envInt env ''CACHE_TTL_SECS'' 300 = Inr cacheTTL"
      "envInt env ''SIG_TIMEOUT_SECS'' 120 = Inr sigTimeout"
      "envInt env ''UPSTREAM_TIMEOUT_SECS'' 300 = Inr upstreamTimeout"
      "envInt env ''SHUTDOWN_TIMEOUT_SECS'' 10 = Inr shutdownTimeout"
      "envInt64 env ''MAX_BODY_BYTES'' (4 * 2 ^ 20) = Inr maxBody"
      "envFloat env ''MARKUP'' f64_one = Inr markup"
    and c: "check_config g sol c0 = Inr c"
    and f: "CacheTTLSecs c0 = cacheTTL" "SigTimeoutSecs c0 = sigTimeout" "UpstreamTimeoutSecs c0 = upstreamTimeout"
      "ShutdownTimeoutSecs c0 = shutdownTimeout" "MaxBodyBytes c0 = maxBody" "Markup c0 = markup"
      "Network c0 = paymentNetwork (PaymentChain c0) (ChainID c0) (SolanaCluster c0)"
      "UpstreamURL c0 = TrimRight (envStr env ''UPSTREAM_URL'' '''') (CHR ''/'')"
      "BaseURL c0 = normalizeBaseURL url_path (envStr env ''BASE_URL'' '''')"
      "AllowedOrigins c0 = envCSV env ''ALLOWED_ORIGINS'' ''*''"
    by (force simp: Load_def Let_def)
  note k = check_config_fields [OF c]
  have r: "int64_range 300" "int64_range 120" "int64_range 10" "int64_range (4 * 2 ^ 20)"
    by (simp_all add: int64_range_def)
  have "PaymentChain c = ''evm'' \<and> evm_ok g c \<or> PaymentChain c = ''solana'' \<and> solana_ok sol c"
    using k(4,14) f(7) k(1) by (auto simp: check_evm_def check_solana_def evm_ok_def solana_ok_def paymentNetwork_def)
  moreover have "last (UpstreamURL c) \<noteq> CHR ''/''"
    using k(1,2) f(8) TrimRight_last by metis
  moreover have "\<exists>r. Markup c = Fin r \<and> double r \<and> 0 < Num r"
    using envFloat_double [OF e(7)] k f by metis
  moreover have "\<forall>origin \<in> set (AllowedOrigins c). origin \<noteq> [] \<and> TrimSpace origin = origin"
    using f(10) k(1) by (auto simp: envCSV_def)
  moreover have "\<forall>n \<in> {CacheTTLSecs c, SigTimeoutSecs c, UpstreamTimeoutSecs c, ShutdownTimeoutSecs c, MaxBodyBytes c}.
      0 < n \<and> int64_range n"
    using k f e r by (auto dest: envInt_range envInt64_range)
  ultimately show ?thesis
    using k(1-3) f(9) normalizeBaseURL_shape unfolding config_ok_def by metis
qed

text \<open>C39: A configuration that \<open>Load\<close> accepts is one the server can run with: chain, network name,
  addresses and key fit together, every duration and limit is positive, the markup is a positive
  finite double, the upstream URL has no trailing slash and the base path is empty or
  \<open>/...\<close> without one.\<close>

theorem Load_sound:
  assumes "Load g sol url_path env = Inr c"
  shows "config_ok g sol c"
  using assms by (rule Load_config_ok)

text \<open>Libraries and an environment to evaluate the checks with: every 42-character \<open>0x\<close> string is an
  address, every key decodes.\<close>

definition sample_geth :: geth where
  "sample_geth =
     \<lparr>IsHexAddress = (\<lambda>s. length s = 42 \<and> HasPrefix s ''0x''), HexToAddress = (\<lambda>s. drop 2 s),
      Address_Hex = (\<lambda>a. ''0x'' @ a), hexutil_Decode = (\<lambda>s. if HasPrefix s ''0x'' then Some (drop 2 s) else None),
      hexutil_Encode = (\<lambda>b. ''0x'' @ b), Bytes2Hex = (\<lambda>b. b), HexToECDSA = (\<lambda>s. if s = [] then None else Some s),
      PublicKey = (\<lambda>k. k), PubkeyToAddress = (\<lambda>p. take 40 p), SigToPub = (\<lambda>digest sig. Some (take 40 sig)),
      ValidateSignatureValues = (\<lambda>v r s hs. True), Keccak256 = (\<lambda>b. b), Domain_Map = (\<lambda>m. m),
      HashStruct = (\<lambda>td t m. Some t)\<rparr>"

definition sample_solana :: solana where
  "sample_solana =
     \<lparr>PublicKeyFromBase58 = (\<lambda>s. if s = [] then None else Some s), PublicKey_String = (\<lambda>k. k),
      FindAssociatedTokenAddress = (\<lambda>w m. Some (w @ m))\<rparr>"

definition sample_address :: string where
  "sample_address = ''0x0000000000000000000000000000000000000002''"

definition sample_env :: Env where
  "sample_env k =
     (if k = ''UPSTREAM_URL'' then ''https://up.example/''
      else if k = ''UPSTREAM_TOKEN'' then ''sk-1''
      else if k = ''PAY_TO_ADDRESS'' then sample_address
      else if k = ''BASE_URL'' then '' payapi/ ''
      else if k = ''DRY_RUN'' then ''true''
      else '''')"

definition sample_config :: Config where
  "sample_config = projr (Load sample_geth sample_solana (\<lambda>_. None) sample_env)"

lemma sample_config_loads: "Load sample_geth sample_solana (\<lambda>_. None) sample_env = Inr sample_config"
proof -
  have "is_ok (Load sample_geth sample_solana (\<lambda>_. None) sample_env)" by code_simp
  then show ?thesis unfolding sample_config_def by (rule is_ok_projr)
qed

theorem Load_sound_witness: "config_ok sample_geth sample_solana sample_config"
  by (rule Load_sound [OF sample_config_loads])

text \<open>The documented minimum is enough: with the upstream, a payee address and a gas key set and
  nothing else, \<open>Load\<close> succeeds and gives Base Sepolia, its USDC contract and RPC, port 3402, a
  five minute cache, no markup and every origin allowed.\<close>

theorem Load_defaults:
  assumes set_vars: "env ''UPSTREAM_URL'' = url" "env ''UPSTREAM_TOKEN'' = tok" "env ''PAY_TO_ADDRESS'' = payee"
      "env ''GAS_PRIVATE_KEY'' = key"
    and unset: "\<forall>v. v \<notin> {''UPSTREAM_URL'', ''UPSTREAM_TOKEN'', ''PAY_TO_ADDRESS'', ''GAS_PRIVATE_KEY''} \<longrightarrow> env v = []"
    and good: "TrimRight url (CHR ''/'') \<noteq> []" "tok \<noteq> []" "payee \<noteq> []" "IsHexAddress g payee"
      "key \<noteq> []" "HexToECDSA g (TrimPrefix key ''0x'') \<noteq> None"
    and usdc: "IsHexAddress g ''0x036CbD53842c5426634e7929541eC2318f3dCF7e''"
      "hexutil_Decode g ''0x036CbD53842c5426634e7929541eC2318f3dCF7e'' \<noteq> None"
  shows "\<exists>c. Load g sol url_path env = Inr c \<and> Network c = ''eip155:84532'' \<and> PaymentChain c = ''evm'' \<and>
     USDCAddress c = ''0x036CbD53842c5426634e7929541eC2318f3dCF7e'' \<and> USDCName c = ''USDC'' \<and>
     RPCURL c = ''https://sepolia.base.org'' \<and> Port c = ''3402'' \<and> BaseURL c = [] \<and> CacheTTLSecs c = 300 \<and>
     Markup c = f64_one \<and> AllowedOrigins c = [''*''] \<and> \<not> DryRun c \<and> AdminToken c = []"
proof -
  have trim: "TrimSpace [] = []" "TrimSpace ''*'' = ''*''" by code_simp+
  have low: "ToLower ''evm'' = ''evm''" "ToLower ''devnet'' = ''devnet''" by code_simp+
  have u: "url \<noteq> []" using good(1) by (auto simp: TrimRight_def)
  have net: "itoa 84532 = ''84532''" by code_simp
  have e0x: "ensure0x ''0x036CbD53842c5426634e7929541eC2318f3dCF7e'' = ''0x036CbD53842c5426634e7929541eC2318f3dCF7e''"
    by code_simp
  show ?thesis
    using unset good usdc u
    by (simp add: Load_def Let_def set_vars envStr_def envInt64_def envInt_def envBool_def envFloat_def
        and_then_def usdcByChain_def usdcDomainNameByChain_def rpcByChain_def check_config_def guard_def
        check_evm_def low e0x paymentNetwork_def net envCSV_def trim normalizeBaseURL_def f64_one_def)
qed

theorem Load_defaults_witness:
  "\<exists>c. Load sample_geth sample_solana (\<lambda>_. None)
        (\<lambda>k. if k = ''UPSTREAM_URL'' then ''https://up.example'' else if k = ''UPSTREAM_TOKEN'' then ''sk-1''
             else if k = ''PAY_TO_ADDRESS'' then sample_address else if k = ''GAS_PRIVATE_KEY'' then ''0xab'' else []) = Inr c \<and>
     Network c = ''eip155:84532'' \<and> CacheTTLSecs c = 300"
proof -
  let ?env = "\<lambda>k. if k = ''UPSTREAM_URL'' then ''https://up.example'' else if k = ''UPSTREAM_TOKEN'' then ''sk-1''
             else if k = ''PAY_TO_ADDRESS'' then sample_address else if k = ''GAS_PRIVATE_KEY'' then ''0xab'' else []"
  have "TrimRight ''https://up.example'' (CHR ''/'') \<noteq> []" "IsHexAddress sample_geth sample_address"
    "sample_address \<noteq> []" "HexToECDSA sample_geth (TrimPrefix ''0xab'' ''0x'') \<noteq> None"
    "IsHexAddress sample_geth ''0x036CbD53842c5426634e7929541eC2318f3dCF7e''"
    "hexutil_Decode sample_geth ''0x036CbD53842c5426634e7929541eC2318f3dCF7e'' \<noteq> None"
    by code_simp+
  then show ?thesis
    using Load_defaults [of ?env "''https://up.example''" "''sk-1''" sample_address "''0xab''" sample_geth
        sample_solana "\<lambda>_. None"] by auto
qed

end
