(* ===== verification/Settler.thy ===== *)
theory Settler
  imports Config
begin

section \<open>Settling payments on an EVM chain\<close>

text \<open>
  \<open>internal/settler/settler.go\<close>: the interface \<open>PaymentSettler\<close>, and \<open>EVMSettler\<close>, which checks an
  EIP-3009 authorization against the price and the clock, recovers its signer and submits it. The
  blockchain behind the RPC client is a state of any type \<open>'w\<close>; \<open>eth_rpc\<close> holds what the client
  does to it. Unix time is an argument. A \<open>uint8\<close> is an \<open>8 word\<close>, a byte slice a string.
\<close>

subsection \<open>The interface\<close>

record Settlement =
  StTxHash :: string
  StPayer :: string

datatype auth_error =
    BadFromTo
  | BadValue string | ValueNotPositive
  | BadValidAfter string | ValidAfterNegative
  | BadValidBefore string | ValidBeforeNotPositive
  | EmptyWindow
  | BadNonce string

datatype sig_error =
    BadLength nat
  | HashDomain
  | HashMessage
  | EcRecover
  | WrongSigner string string
  | BadRecoveryID "8 word"
  | BadSignatureValues

text \<open>
  \<open>AccountPanic\<close> is not an error the code returns: an accessor of a decoded transfer found fewer
  accounts than it indexes, and the goroutine panics.
\<close>

datatype tx_error =
    AccountPanic
  | MissingSignature | LookupTables | SignaturesInvalid
  | InvalidAmount | AmountRange
  | ResolveProgram nat | ResolveAccounts nat
  | DecodeMemo | UnsupportedMemo | DecodeToken | UnsupportedToken | UnsupportedProgram string
  | MissingMemo string | NotOneTransfer | TransferAmountMismatch | DecimalsMismatch | MintMismatch
  | DestinationMismatch | PayerNotSigner

datatype settle_error =
    BadPayload
  | BadAuthorization auth_error
  | AmountMismatch int int
  | PayToMismatch
  | NotYetValid
  | Expired
  | BadSignatureEncoding
  | SignatureVerification sig_error
  | SplitSignature sig_error
  | SubmitTx
  | PaymentType string
  | RequestIDMismatch
  | DecodeTransaction
  | TxInvalid tx_error
  | TxFailed
  | WaitConfirmation

definition panicked :: "settle_error \<Rightarrow> bool" where
  "panicked e \<longleftrightarrow> e = TxInvalid AccountPanic"

text \<open>The errors that are returned before anything was sent to the chain.\<close>

definition before_submission :: "settle_error \<Rightarrow> bool" where
  "before_submission e \<longleftrightarrow> e \<noteq> SubmitTx \<and> e \<noteq> TxFailed \<and> e \<noteq> WaitConfirmation"

text \<open>
  What a settler offers and what the relay relies on. \<open>authorises s p cost rid st\<close> says that the
  payload \<open>p\<close> is a valid authorisation by the payer of \<open>st\<close> of exactly \<open>cost\<close> to the merchant.
\<close>

locale payment_settler =
  fixes build :: "'s \<Rightarrow> string \<Rightarrow> string \<Rightarrow> string \<Rightarrow> int \<Rightarrow> int \<Rightarrow> PaymentRequirements"
    and settle :: "'s \<Rightarrow> 'w \<Rightarrow> int \<Rightarrow> PaymentPayload \<Rightarrow> int \<Rightarrow> string \<Rightarrow> (settle_error + Settlement) \<times> 'w"
    and authorises :: "'s \<Rightarrow> int \<Rightarrow> PaymentPayload \<Rightarrow> int \<Rightarrow> string \<Rightarrow> Settlement \<Rightarrow> bool"
  assumes settle_authorised: "settle s w now p cost rid = (Inr st, w') \<Longrightarrow> authorises s now p cost rid st"
    and settle_refused: "settle s w now p cost rid = (Inl e, w') \<Longrightarrow> before_submission e \<Longrightarrow> w' = w"
    and build_price: "MaxAmountRequired (build s resource desc rid cost t) = itoa cost"
    and build_scheme: "ReqScheme (build s resource desc rid cost t) = SchemeExact"
    and build_request: "map_of (Extra (build s resource desc rid cost t)) ''requestId'' = Some rid"
begin

text \<open>A client never pays without an authorisation, and a refused one costs it nothing.\<close>

lemma settle_cases:
  assumes "settle s w now p cost rid = (r, w')"
  obtains (paid) st where "r = Inr st" "authorises s now p cost rid st"
    | (refused) e where "r = Inl e" "before_submission e" "w' = w"
    | (failed) e where "r = Inl e" "\<not> before_submission e"
  using assms settle_authorised settle_refused by (cases r) blast+

lemma no_authorisation_no_settlement:
  "\<forall>st. \<not> authorises s now p cost rid st \<Longrightarrow> \<not> is_ok (fst (settle s w now p cost rid))"
  using settle_authorised by (metis is_ok_iff prod.collapse)

end

subsection \<open>Decoding the authorization\<close>

definition DecodeAuthorization :: "geth \<Rightarrow> AuthorizationPayload \<Rightarrow> auth_error + TransferAuthorization" where
  "DecodeAuthorization g a =
     (if \<not> IsHexAddress g (From a) \<or> \<not> IsHexAddress g (To a) then Inl BadFromTo
      else case int_SetString False (Value a) of
        None \<Rightarrow> Inl (BadValue (Value a))
      | Some value \<Rightarrow>
          if value \<le> 0 then Inl ValueNotPositive
          else case int_SetString False (ValidAfter a) of
            None \<Rightarrow> Inl (BadValidAfter (ValidAfter a))
          | Some validAfter \<Rightarrow>
              if validAfter < 0 then Inl ValidAfterNegative
              else case int_SetString False (ValidBefore a) of
                None \<Rightarrow> Inl (BadValidBefore (ValidBefore a))
              | Some validBefore \<Rightarrow>
                  if validBefore \<le> 0 then Inl ValidBeforeNotPositive
                  else if validBefore \<le> validAfter then Inl EmptyWindow
                  else case hexutil_Decode g (Nonce a) of
                    None \<Rightarrow> Inl (BadNonce (Nonce a))
                  | Some nonce \<Rightarrow>
                      if length nonce \<noteq> 32 then Inl (BadNonce (Nonce a))
                      else Inr \<lparr>AuthFrom = HexToAddress g (From a), AuthTo = HexToAddress g (To a),
                                AuthValue = value, AuthValidAfter = validAfter,
                                AuthValidBefore = validBefore, AuthNonce = nonce\<rparr>)"

subsection \<open>Signatures\<close>

definition domain_types :: "(string \<times> string) list" where
  "domain_types = [(''name'', ''string''), (''version'', ''string''), (''chainId'', ''uint256''),
     (''verifyingContract'', ''address'')]"

definition transfer_types :: "(string \<times> string) list" where
  "transfer_types = [(''from'', ''address''), (''to'', ''address''), (''value'', ''uint256''),
     (''validAfter'', ''uint256''), (''validBefore'', ''uint256''), (''nonce'', ''bytes32'')]"

definition typed_data :: "geth \<Rightarrow> TransferAuthorization \<Rightarrow> Config \<Rightarrow> TypedData" where
  "typed_data g auth c =
     \<lparr>tdTypes = [(''EIP712Domain'', domain_types), (''TransferWithAuthorization'', transfer_types)],
      tdPrimaryType = ''TransferWithAuthorization'',
      tdDomain = [(''name'', TStr (USDCName c)), (''version'', TStr (USDCVersion c)), (''chainId'', TInt (ChainID c)),
        (''verifyingContract'', TStr (Address_Hex g (HexToAddress g (USDCAddress c))))],
      tdMessage = [(''from'', TStr (Address_Hex g (AuthFrom auth))), (''to'', TStr (Address_Hex g (AuthTo auth))),
        (''value'', TInt (AuthValue auth)), (''validAfter'', TInt (AuthValidAfter auth)),
        (''validBefore'', TInt (AuthValidBefore auth)), (''nonce'', TStr (hexutil_Encode g (AuthNonce auth)))]\<rparr>"

definition eip712Digest :: "geth \<Rightarrow> TransferAuthorization \<Rightarrow> Config \<Rightarrow> sig_error + string" where
  "eip712Digest g auth c =
     (let td = typed_data g auth c in
      case HashStruct g td ''EIP712Domain'' (Domain_Map g (tdDomain td)) of
        None \<Rightarrow> Inl HashDomain
      | Some domainSep \<Rightarrow>
          case HashStruct g td (tdPrimaryType td) (tdMessage td) of
            None \<Rightarrow> Inl HashMessage
          | Some msgHash \<Rightarrow> Inr (Keccak256 g ([CHR 0x19, CHR 0x01] @ domainSep @ msgHash)))"

definition byte :: "char \<Rightarrow> 8 word" where
  "byte c = of_nat (code c)"

definition byte_char :: "8 word \<Rightarrow> char" where
  "byte_char b = char_of (unat b)"

definition VerifyEIP712 :: "geth \<Rightarrow> TransferAuthorization \<Rightarrow> string \<Rightarrow> Config \<Rightarrow> sig_error + Address" where
  "VerifyEIP712 g auth signature c =
     (if length signature \<noteq> 65 then Inl (BadLength (length signature))
      else case eip712Digest g auth c of
        Inl e \<Rightarrow> Inl e
      | Inr digest \<Rightarrow>
          let v = byte (signature ! 64);
              sig = (if 27 \<le> v then signature[64 := byte_char (v - 27)] else signature)
          in case SigToPub g digest sig of
               None \<Rightarrow> Inl EcRecover
             | Some pub \<Rightarrow>
                 let recovered = PubkeyToAddress g pub
                 in if recovered \<noteq> AuthFrom auth
                    then Inl (WrongSigner (Address_Hex g recovered) (Address_Hex g (AuthFrom auth)))
                    else Inr recovered)"

text \<open>\<open>big.Int.SetBytes\<close>: big-endian.\<close>

definition SetBytes :: "string \<Rightarrow> int" where
  "SetBytes bs = foldl (\<lambda>a c. a * 256 + int (code c)) 0 bs"

definition splitSignature :: "geth \<Rightarrow> string \<Rightarrow> sig_error + (string \<times> string \<times> 8 word)" where
  "splitSignature g signature =
     (if length signature \<noteq> 65 then Inl (BadLength (length signature))
      else
        let r = take 32 signature; s = take 32 (drop 32 signature);
            v0 = byte (signature ! 64);
            (recoveryID, v) = (if v0 < 27 then (v0, v0 + 27) else (v0 - 27, v0))
        in if 1 < recoveryID then Inl (BadRecoveryID recoveryID)
           else if \<not> ValidateSignatureValues g recoveryID (SetBytes r) (SetBytes s) True
                then Inl BadSignatureValues
           else Inr (r, s, v))"

subsection \<open>The settler\<close>

datatype abi_arg = AAddress Address | AUint256 int | ABytes32 string | AUint8 "8 word"

text \<open>The inputs of the contract method, as in the ABI constant.\<close>

definition transferWithAuthorizationABI :: "string \<times> (string \<times> string) list" where
  "transferWithAuthorizationABI =
     (''transferWithAuthorization'',
      [(''from'', ''address''), (''to'', ''address''), (''value'', ''uint256''), (''validAfter'', ''uint256''),
       (''validBefore'', ''uint256''), (''nonce'', ''bytes32''), (''v'', ''uint8''), (''r'', ''bytes32''),
       (''s'', ''bytes32'')])"

text \<open>
  The client: whether an RPC endpoint can be dialled, the transactor of a key, whether the ABI
  parses, and a contract call, which gives the transaction hash or fails and may change the chain.
\<close>

record 'w eth_rpc =
  Dial :: "string \<Rightarrow> bool"
  NewKeyedTransactor :: "string \<Rightarrow> int \<Rightarrow> Address option"
  abi_JSON :: "string \<times> (string \<times> string) list \<Rightarrow> bool"
  Transact :: "'w \<Rightarrow> Address \<Rightarrow> Address \<Rightarrow> string \<Rightarrow> abi_arg list \<Rightarrow> string option \<times> 'w"

text \<open>\<open>contract\<close> is \<open>None\<close> and \<open>opts\<close> may be in dry-run mode; \<open>opts\<close> holds the sender.\<close>

record EVMSettler =
  ecfg :: Config
  contract :: "Address option"
  opts :: "Address option"

datatype new_error = DialRPC | GasKey | Transactor | ParseABI | SolanaMint | SolanaPayTo | SolanaATA

definition NewEVM :: "geth \<Rightarrow> 'w eth_rpc \<Rightarrow> Config \<Rightarrow> new_error + EVMSettler" where
  "NewEVM g rpc c =
     (if DryRun c then
        Inr \<lparr>ecfg = c, contract = None,
             opts = (if GasPrivKeyHex c \<noteq> [] then
                       (case HexToECDSA g (TrimPrefix (GasPrivKeyHex c) ''0x'') of
                          Some key \<Rightarrow> Some (PubkeyToAddress g (PublicKey g key))
                        | None \<Rightarrow> None)
                     else None)\<rparr>
      else if \<not> Dial rpc (RPCURL c) then Inl DialRPC
      else case HexToECDSA g (TrimPrefix (GasPrivKeyHex c) ''0x'') of
        None \<Rightarrow> Inl GasKey
      | Some key \<Rightarrow>
          case NewKeyedTransactor rpc key (ChainID c) of
            None \<Rightarrow> Inl Transactor
          | Some from_addr \<Rightarrow>
              if \<not> abi_JSON rpc transferWithAuthorizationABI then Inl ParseABI
              else Inr \<lparr>ecfg = c, contract = Some (HexToAddress g (USDCAddress c)), opts = Some from_addr\<rparr>)"

definition EVM_BuildRequirements ::
    "EVMSettler \<Rightarrow> string \<Rightarrow> string \<Rightarrow> string \<Rightarrow> int \<Rightarrow> int \<Rightarrow> PaymentRequirements" where
  "EVM_BuildRequirements s resource description reqID cost maxTimeoutSeconds =
     \<lparr>ReqScheme = SchemeExact, ReqNetwork = Network (ecfg s), MaxAmountRequired = itoa cost,
      Resource = resource, Description = description, MimeType = '''', ReqPayTo = PayToAddress (ecfg s),
      MaxTimeoutSeconds = maxTimeoutSeconds, Asset = USDCAddress (ecfg s),
      Extra = [(''requestId'', reqID), (''name'', USDCName (ecfg s)), (''version'', USDCVersion (ecfg s))]\<rparr>"

text \<open>
  \<open>submit\<close>. Outside dry-run mode \<open>New\<close> has set \<open>contract\<close> and \<open>opts\<close> (\<open>NewEVM_ready\<close>); without
  them the code would panic, which is \<open>SubmitTx\<close> with an unchanged chain here.
\<close>

definition transfer_args :: "TransferAuthorization \<Rightarrow> string \<Rightarrow> string \<Rightarrow> 8 word \<Rightarrow> abi_arg list" where
  "transfer_args auth r ss v =
     [AAddress (AuthFrom auth), AAddress (AuthTo auth), AUint256 (AuthValue auth),
      AUint256 (AuthValidAfter auth), AUint256 (AuthValidBefore auth), ABytes32 (AuthNonce auth),
      AUint8 v, ABytes32 r, ABytes32 ss]"

definition submit ::
    "geth \<Rightarrow> 'w eth_rpc \<Rightarrow> EVMSettler \<Rightarrow> 'w \<Rightarrow> TransferAuthorization \<Rightarrow> string \<Rightarrow> (settle_error + string) \<times> 'w" where
  "submit g rpc s w auth signature =
     (case splitSignature g signature of
        Inl e \<Rightarrow> (Inl (SplitSignature e), w)
      | Inr (r, ss, v) \<Rightarrow>
          if DryRun (ecfg s) then (Inr (''0xDRYRUN'' @ Bytes2Hex g (take 30 (AuthNonce auth))), w)
          else case (contract s, opts s) of
            (Some usdc, Some sender) \<Rightarrow>
              (case Transact rpc w usdc sender ''transferWithAuthorization'' (transfer_args auth r ss v) of
                 (None, w') \<Rightarrow> (Inl SubmitTx, w')
               | (Some hash, w') \<Rightarrow> (Inr hash, w'))
          | _ \<Rightarrow> (Inl SubmitTx, w))"

definition EVM_Settle ::
    "geth \<Rightarrow> 'w eth_rpc \<Rightarrow> EVMSettler \<Rightarrow> 'w \<Rightarrow> int \<Rightarrow> PaymentPayload \<Rightarrow> int \<Rightarrow> string \<Rightarrow>
     (settle_error + Settlement) \<times> 'w" where
  "EVM_Settle g rpc s w now payment cost reqID =
     (case Unmarshal decode_ExactEvmPayload (Payload payment) zero_evm_payload of
        (_, True) \<Rightarrow> (Inl BadPayload, w)
      | (payload, False) \<Rightarrow>
          (case DecodeAuthorization g (Authorization payload) of
             Inl e \<Rightarrow> (Inl (BadAuthorization e), w)
           | Inr auth \<Rightarrow>
               if AuthValue auth \<noteq> cost then (Inl (AmountMismatch (AuthValue auth) cost), w)
               else if \<not> EqualFold (Address_Hex g (AuthTo auth)) (PayToAddress (ecfg s)) then (Inl PayToMismatch, w)
               else if now < AuthValidAfter auth then (Inl NotYetValid, w)
               else if AuthValidBefore auth \<le> now then (Inl Expired, w)
               else case hexutil_Decode g (Signature payload) of
                 None \<Rightarrow> (Inl BadSignatureEncoding, w)
               | Some sig \<Rightarrow>
                   case VerifyEIP712 g auth sig (ecfg s) of
                     Inl e \<Rightarrow> (Inl (SignatureVerification e), w)
                   | Inr signer \<Rightarrow>
                       case submit g rpc s w auth sig of
                         (Inl e, w') \<Rightarrow> (Inl e, w')
                       | (Inr txHash, w') \<Rightarrow> (Inr \<lparr>StTxHash = txHash, StPayer = Address_Hex g signer\<rparr>, w')))"

definition GasWalletAddress :: "EVMSettler \<Rightarrow> Address" where
  "GasWalletAddress s = (case opts s of None \<Rightarrow> replicate 20 (CHR 0x00) | Some a \<Rightarrow> a)"

subsection \<open>Signature bytes\<close>

lemma byte_char_byte [simp]: "byte_char (byte c) = c"
  by (simp add: byte_char_def byte_def unat_of_nat)

lemma word8_le_1:
  assumes "\<not> 1 < (x :: 8 word)"
  shows "x = 0 \<or> x = 1"
proof -
  have "unat x \<le> 1" using assms by (simp add: not_less word_le_nat_alt)
  then have "unat x = 0 \<or> unat x = 1" by linarith
  then show ?thesis by (simp add: word_unat_eq_iff)
qed

text \<open>The last byte as both checks normalise it.\<close>

definition recovery_id :: "string \<Rightarrow> 8 word" where
  "recovery_id signature =
     (let v = byte (signature ! 64) in if v < 27 then v else v - 27)"

lemma splitSignature_Inr:
  assumes "splitSignature g signature = Inr (r, s, v)"
  shows "length signature = 65" "r = take 32 signature" "s = take 32 (drop 32 signature)"
    "recovery_id signature = 0 \<or> recovery_id signature = 1" "v = recovery_id signature + 27"
    "ValidateSignatureValues g (recovery_id signature) (SetBytes r) (SetBytes s) True"
proof -
  from assms show "length signature = 65" "r = take 32 signature" "s = take 32 (drop 32 signature)"
    "v = recovery_id signature + 27"
    "ValidateSignatureValues g (recovery_id signature) (SetBytes r) (SetBytes s) True"
    by (auto simp: splitSignature_def recovery_id_def Let_def split: if_splits)
  have "\<not> 1 < recovery_id signature"
    using assms by (auto simp: splitSignature_def recovery_id_def Let_def split: if_splits)
  then show "recovery_id signature = 0 \<or> recovery_id signature = 1" by (rule word8_le_1)
qed

lemma signature_parts:
  assumes "length signature = 65"
  shows "signature = take 32 signature @ take 32 (drop 32 signature) @ [signature ! 64]"
proof -
  have "drop 32 (drop 32 signature) = drop 64 signature" by simp
  also have "\<dots> = [signature ! 64]" using assms by (simp add: Cons_nth_drop_Suc [symmetric])
  finally show ?thesis by (metis append_take_drop_id)
qed

lemma VerifyEIP712_Inr:
  "VerifyEIP712 g auth signature c = Inr a \<longleftrightarrow>
   length signature = 65 \<and> a = AuthFrom auth \<and>
   (\<exists>digest pub. eip712Digest g auth c = Inr digest \<and>
      SigToPub g digest (signature[64 := byte_char (recovery_id signature)]) = Some pub \<and>
      PubkeyToAddress g pub = AuthFrom auth)"
proof -
  have "(if 27 \<le> byte (signature ! 64) then signature[64 := byte_char (byte (signature ! 64) - 27)] else signature) =
      signature[64 := byte_char (recovery_id signature)]"
    by (auto simp: recovery_id_def Let_def not_less)
  then show ?thesis
    by (auto simp: VerifyEIP712_def Let_def split: sum.splits option.splits)
qed

text \<open>C24: Signer check and submission read the same signature: when \<open>splitSignature\<close> accepts one, the
  bytes \<open>VerifyEIP712\<close> recovers the signer from are \<open>r\<close>, \<open>s\<close> and a recovery id of 0 or 1, and the \<open>v\<close>
  sent to the contract is that id plus 27, whether the client sent 0/1 or 27/28.\<close>

theorem signature_consistent:
  assumes "splitSignature g signature = Inr (r, s, v)"
  shows "(v = 27 \<or> v = 28) \<and> length r = 32 \<and> length s = 32 \<and>
     (VerifyEIP712 g auth signature c = Inr a \<longleftrightarrow> a = AuthFrom auth \<and>
        (\<exists>digest pub. eip712Digest g auth c = Inr digest \<and>
           SigToPub g digest (r @ s @ [byte_char (v - 27)]) = Some pub \<and> PubkeyToAddress g pub = AuthFrom auth))"
proof -
  note sp = splitSignature_Inr [OF assms]
  have v: "v = 27 \<or> v = 28" "v - 27 = recovery_id signature" using sp(4,5) by auto
  have len: "length r = 32" "length s = 32" using sp(1-3) by simp_all
  have "signature = r @ s @ [signature ! 64]" using signature_parts [OF sp(1)] sp(2,3) by simp
  then have "signature[64 := byte_char (recovery_id signature)] = r @ s @ [byte_char (v - 27)]"
    unfolding v(2) using len by (metis (no_types, lifting) append_assoc length_append list_update_length
        numeral_Bit0 numeral_Bit1 numeral_One add.commute numeral_plus_numeral)
  then show ?thesis using v len sp(1) by (auto simp: VerifyEIP712_Inr)
qed

definition sample_signature :: string where
  "sample_signature = replicate 20 (CHR ''1'') @ replicate 44 (CHR ''2'') @ [CHR 0x1B]"

definition sample_authorization :: TransferAuthorization where
  "sample_authorization =
     \<lparr>AuthFrom = replicate 20 (CHR ''1'') @ replicate 20 (CHR ''2''), AuthTo = drop 2 sample_address,
      AuthValue = 7, AuthValidAfter = 0, AuthValidBefore = 100, AuthNonce = replicate 32 (CHR ''n'')\<rparr>"

theorem signature_consistent_witness:
  "\<exists>r s v. splitSignature sample_geth sample_signature = Inr (r, s, v) \<and> (v = 27 \<or> v = 28) \<and>
     VerifyEIP712 sample_geth sample_authorization sample_signature sample_config = Inr (AuthFrom sample_authorization)"
proof -
  have split: "splitSignature sample_geth sample_signature =
      Inr (take 32 sample_signature, take 32 (drop 32 sample_signature), 27)" by code_simp
  have digest: "\<exists>d. eip712Digest sample_geth auth c = Inr d" for auth c
    by (simp add: eip712Digest_def sample_geth_def Let_def)
  have "PubkeyToAddress sample_geth (take 40 (take 32 sample_signature @ take 32 (drop 32 sample_signature) @
      [byte_char (27 - 27)])) = AuthFrom sample_authorization" by code_simp
  moreover have "SigToPub sample_geth d sig = Some (take 40 sig)" for d sig by (simp add: sample_geth_def)
  moreover obtain d where "eip712Digest sample_geth sample_authorization sample_config = Inr d"
    using digest by blast
  ultimately have "VerifyEIP712 sample_geth sample_authorization sample_signature sample_config =
      Inr (AuthFrom sample_authorization)"
    by (simp only: signature_consistent [OF split, THEN conjunct2, THEN conjunct2, THEN conjunct2])
      (intro conjI exI, (rule refl | assumption)+)
  then show ?thesis using split by blast
qed

subsection \<open>Authorizations\<close>

text \<open>The wire form of an authorization: decimal numbers, hexadecimal addresses and nonce.\<close>

definition wire_authorization :: "geth \<Rightarrow> TransferAuthorization \<Rightarrow> AuthorizationPayload" where
  "wire_authorization g auth =
     \<lparr>From = Address_Hex g (AuthFrom auth), To = Address_Hex g (AuthTo auth), Value = itoa (AuthValue auth),
      ValidAfter = itoa (AuthValidAfter auth), ValidBefore = itoa (AuthValidBefore auth),
      Nonce = hexutil_Encode g (AuthNonce auth)\<rparr>"

definition authorization_ok :: "TransferAuthorization \<Rightarrow> bool" where
  "authorization_ok auth \<longleftrightarrow> 0 < AuthValue auth \<and> 0 \<le> AuthValidAfter auth \<and>
     AuthValidAfter auth < AuthValidBefore auth \<and> length (AuthNonce auth) = 32"

text \<open>What is assumed of go-ethereum's hexadecimal: printing an address or bytes can be read back.\<close>

definition hex_reads_back :: "geth \<Rightarrow> TransferAuthorization \<Rightarrow> bool" where
  "hex_reads_back g auth \<longleftrightarrow>
     (\<forall>a \<in> {AuthFrom auth, AuthTo auth}. IsHexAddress g (Address_Hex g a) \<and> HexToAddress g (Address_Hex g a) = a) \<and>
     hexutil_Decode g (hexutil_Encode g (AuthNonce auth)) = Some (AuthNonce auth)"

lemma DecodeAuthorization_Inr:
  "DecodeAuthorization g a = Inr auth \<longleftrightarrow>
   IsHexAddress g (From a) \<and> IsHexAddress g (To a) \<and> AuthFrom auth = HexToAddress g (From a) \<and>
   AuthTo auth = HexToAddress g (To a) \<and> int_SetString False (Value a) = Some (AuthValue auth) \<and>
   int_SetString False (ValidAfter a) = Some (AuthValidAfter auth) \<and>
   int_SetString False (ValidBefore a) = Some (AuthValidBefore auth) \<and>
   hexutil_Decode g (Nonce a) = Some (AuthNonce auth) \<and> authorization_ok auth"
  by (cases auth) (auto simp: DecodeAuthorization_def authorization_ok_def split: option.splits)

text \<open>C25: Exactly the authorizations with a positive value, a non-empty validity window that does not
  start before the epoch and a 32-byte nonce survive the wire: written out and decoded they come
  back unchanged, any other is refused.\<close>

theorem authorization_roundtrip:
  assumes "hex_reads_back g auth"
  shows "DecodeAuthorization g (wire_authorization g auth) = Inr auth \<longleftrightarrow> authorization_ok auth"
  using assms
  by (auto simp: DecodeAuthorization_Inr wire_authorization_def hex_reads_back_def int_SetString_itoa)

theorem authorization_roundtrip_witness:
  "DecodeAuthorization sample_geth (wire_authorization sample_geth sample_authorization) = Inr sample_authorization"
proof -
  have "hex_reads_back sample_geth sample_authorization" by code_simp
  moreover have "authorization_ok sample_authorization" by code_simp
  ultimately show ?thesis using authorization_roundtrip by blast
qed

subsection \<open>What a settlement proves\<close>

text \<open>The payload decodes to an authorization with its signature.\<close>

definition evm_payload :: "geth \<Rightarrow> PaymentPayload \<Rightarrow> TransferAuthorization \<Rightarrow> string \<Rightarrow> bool" where
  "evm_payload g p auth sig \<longleftrightarrow>
     (\<exists>payload. Unmarshal decode_ExactEvmPayload (Payload p) zero_evm_payload = (payload, False) \<and>
        DecodeAuthorization g (Authorization payload) = Inr auth \<and>
        hexutil_Decode g (Signature payload) = Some sig)"

text \<open>An authorization of exactly \<open>cost\<close> to the merchant, valid now and signed by the payer.\<close>

definition evm_valid :: "geth \<Rightarrow> Config \<Rightarrow> int \<Rightarrow> int \<Rightarrow> TransferAuthorization \<Rightarrow> string \<Rightarrow> bool" where
  "evm_valid g c now cost auth sig \<longleftrightarrow>
     AuthValue auth = cost \<and> EqualFold (Address_Hex g (AuthTo auth)) (PayToAddress c) \<and>
     AuthValidAfter auth \<le> now \<and> now < AuthValidBefore auth \<and>
     VerifyEIP712 g auth sig c = Inr (AuthFrom auth)"

definition submitted ::
    "geth \<Rightarrow> 'w eth_rpc \<Rightarrow> EVMSettler \<Rightarrow> 'w \<Rightarrow> TransferAuthorization \<Rightarrow> string \<Rightarrow> string \<Rightarrow> 'w \<Rightarrow> bool" where
  "submitted g rpc s w auth sig hash w' \<longleftrightarrow>
     (\<exists>r ss v. splitSignature g sig = Inr (r, ss, v) \<and>
        (if DryRun (ecfg s) then hash = ''0xDRYRUN'' @ Bytes2Hex g (take 30 (AuthNonce auth)) \<and> w' = w
         else \<exists>usdc sender. contract s = Some usdc \<and> opts s = Some sender \<and>
           Transact rpc w usdc sender ''transferWithAuthorization'' (transfer_args auth r ss v) = (Some hash, w')))"

lemma submit_Inr: "submit g rpc s w auth sig = (Inr hash, w') \<longleftrightarrow> submitted g rpc s w auth sig hash w'"
  by (auto simp: submit_def submitted_def split: sum.splits option.splits prod.splits)

lemma VerifyEIP712_self: "VerifyEIP712 g auth sig c = Inr a \<Longrightarrow> a = AuthFrom auth"
  by (simp add: VerifyEIP712_Inr)

lemma EVM_Settle_Inr:
  "EVM_Settle g rpc s w now p cost rid = (Inr st, w') \<longleftrightarrow>
   (\<exists>auth sig. evm_payload g p auth sig \<and> evm_valid g (ecfg s) now cost auth sig \<and>
      submitted g rpc s w auth sig (StTxHash st) w' \<and> StPayer st = Address_Hex g (AuthFrom auth))"
  (is "?settled \<longleftrightarrow> ?paid")
proof
  assume ?settled
  then obtain payload auth sig signer hash where
    "Unmarshal decode_ExactEvmPayload (Payload p) zero_evm_payload = (payload, False)"
    "DecodeAuthorization g (Authorization payload) = Inr auth" "AuthValue auth = cost"
    "EqualFold (Address_Hex g (AuthTo auth)) (PayToAddress (ecfg s))"
    "AuthValidAfter auth \<le> now" "now < AuthValidBefore auth"
    "hexutil_Decode g (Signature payload) = Some sig" "VerifyEIP712 g auth sig (ecfg s) = Inr signer"
    "submit g rpc s w auth sig = (Inr hash, w')"
    "st = \<lparr>StTxHash = hash, StPayer = Address_Hex g signer\<rparr>"
    by (auto simp: EVM_Settle_def split: prod.splits bool.splits sum.splits if_splits option.splits)
  then show ?paid
    using VerifyEIP712_self by (fastforce simp: evm_payload_def evm_valid_def submit_Inr)
next
  assume ?paid
  then show ?settled
    by (cases st) (auto simp: EVM_Settle_def evm_payload_def evm_valid_def simp flip: submit_Inr)
qed

text \<open>C6: \<open>Settle\<close> succeeds exactly when the payload holds an authorization of exactly the price, to the
  configured payee, inside its validity window, whose EIP-712 signature recovers to its sender, and
  the chain accepted \<open>transferWithAuthorization\<close> with precisely these fields (in dry-run mode: nothing
  was sent). The payer named in the result is the signer.\<close>

theorem EVM_Settle_iff:
  "EVM_Settle g rpc s w now p cost rid = (Inr st, w') \<longleftrightarrow>
   (\<exists>auth sig. evm_payload g p auth sig \<and> evm_valid g (ecfg s) now cost auth sig \<and>
      submitted g rpc s w auth sig (StTxHash st) w' \<and> StPayer st = Address_Hex g (AuthFrom auth))"
  by (rule EVM_Settle_Inr)

lemma EVM_Settle_Inl:
  assumes "EVM_Settle g rpc s w now p cost rid = (Inl e, w')" "e \<noteq> SubmitTx"
  shows "w' = w"
  using assms
  by (auto simp: EVM_Settle_def submit_def split: prod.splits bool.splits sum.splits if_splits option.splits)

definition evm_authorises :: "geth \<Rightarrow> EVMSettler \<Rightarrow> int \<Rightarrow> PaymentPayload \<Rightarrow> int \<Rightarrow> string \<Rightarrow> Settlement \<Rightarrow> bool" where
  "evm_authorises g s now p cost rid st \<longleftrightarrow>
     (\<exists>auth sig. evm_payload g p auth sig \<and> evm_valid g (ecfg s) now cost auth sig \<and>
        StPayer st = Address_Hex g (AuthFrom auth))"

interpretation evm: payment_settler EVM_BuildRequirements "EVM_Settle g rpc" "evm_authorises g"
  for g :: geth and rpc :: "'w eth_rpc"
proof unfold_locales
  show "EVM_Settle g rpc s w now p cost rid = (Inr st, w') \<Longrightarrow> evm_authorises g s now p cost rid st"
    for s w now p cost rid st w'
    by (auto simp: EVM_Settle_Inr evm_authorises_def)
qed (auto simp: EVM_BuildRequirements_def before_submission_def dest: EVM_Settle_Inl)

text \<open>\<open>NewEVM\<close> leaves nothing unset that \<open>submit\<close> needs.\<close>

lemma NewEVM_ready:
  "NewEVM g rpc c = Inr s \<Longrightarrow> ecfg s = c \<and> (\<not> DryRun c \<longrightarrow> contract s \<noteq> None \<and> opts s \<noteq> None)"
  by (auto simp: NewEVM_def split: if_splits option.splits)

subsection \<open>A payee without the prefix\<close>

lemma HasPrefix_ToLower: "HasPrefix s ''0x'' \<Longrightarrow> HasPrefix (ToLower s) ''0x''"
  by (auto simp: HasPrefix_def ToLower_def prefix_def lower_def code_def)

text \<open>C40: \<open>Settle\<close> compares the payee of the authorization, printed by go-ethereum with its \<open>0x\<close>, with
  the text of \<open>PAY_TO_ADDRESS\<close>. \<open>Load\<close> only asks \<open>IsHexAddress\<close>, which does not need the prefix; a
  server configured without it starts, and refuses every payment.\<close>

theorem unprefixed_payee_never_paid:
  assumes "\<forall>a. HasPrefix (Address_Hex g a) ''0x''" "\<not> HasPrefix (ToLower (PayToAddress (ecfg s))) ''0x''"
  shows "\<not> is_ok (fst (EVM_Settle g rpc s w now p cost rid))"
proof
  assume "is_ok (fst (EVM_Settle g rpc s w now p cost rid))"
  then obtain st where "EVM_Settle g rpc s w now p cost rid = (Inr st, snd (EVM_Settle g rpc s w now p cost rid))"
    by (auto simp: is_ok_iff prod_eq_iff)
  then obtain auth :: TransferAuthorization where "EqualFold (Address_Hex g (AuthTo auth)) (PayToAddress (ecfg s))"
    by (auto simp: EVM_Settle_Inr evm_valid_def)
  then have "HasPrefix (ToLower (PayToAddress (ecfg s))) ''0x''"
    using HasPrefix_ToLower assms(1) by (metis EqualFold_def)
  with assms(2) show False ..
qed

theorem unprefixed_payee_never_paid_witness:
  "\<forall>(rpc :: nat eth_rpc) w now p cost rid. \<not> is_ok (fst (EVM_Settle sample_geth rpc
      \<lparr>ecfg = sample_config\<lparr>PayToAddress := drop 2 sample_address\<rparr>, contract = None, opts = None\<rparr> w now p cost rid))"
proof (intro allI, rule unprefixed_payee_never_paid)
  show "\<forall>a. HasPrefix (Address_Hex sample_geth a) ''0x''" by (simp add: sample_geth_def HasPrefix_def)
  have "\<not> HasPrefix (ToLower (drop 2 sample_address)) ''0x''" by code_simp
  then show "\<not> HasPrefix (ToLower (PayToAddress (ecfg
      \<lparr>ecfg = sample_config\<lparr>PayToAddress := drop 2 sample_address\<rparr>, contract = None, opts = None\<rparr>))) ''0x''" by simp
qed

end
