(* ===== verification/Solana.thy ===== *)
theory Solana
  imports Settler
begin

section \<open>Settling payments on Solana\<close>

text \<open>
  \<open>internal/settler/solana.go\<close>: \<open>SolanaSettler\<close> checks a client-signed transaction (one USDC transfer
  of the price to the merchant's token account, a memo naming the request), sends it, and polls until
  it is confirmed. What solana-go decodes and the cluster answers are the fields of \<open>'w solana_rpc\<close>.
  Amounts are 64-bit words, instruction indices natural numbers. The file also holds \<open>New\<close> of
  \<open>settler.go\<close>, which picks the settler of the configured chain, and the interface value it returns.
\<close>

subsection \<open>Transactions\<close>

record Instruction =
  ProgramIDIndex :: nat
  AccountIndices :: "nat list"
  ixData :: string

record Transaction =
  Signatures :: "string list"
  AccountKeys :: "PubKey list"
  AddressTableLookups :: "PubKey list"
  Instructions :: "Instruction list"

text \<open>
  Decoded instructions; a nil pointer is \<open>None\<close>, and so is an account an accessor does not find (the
  instruction may list fewer than four): reading its key panics.
\<close>

record TransferChecked =
  TcAmount :: "64 word option"
  TcDecimals :: "8 word option"
  MintAccount :: "PubKey option"
  DestinationAccount :: "PubKey option"
  OwnerAccount :: "PubKey option"

datatype memo_instruction = MemoCreate string | MemoOther
datatype token_instruction = TokenTransferChecked TransferChecked | TokenOther

text \<open>How far the cluster has confirmed a transaction, in this order.\<close>

datatype confirmation = Processed | Confirmed | Finalized

instantiation confirmation :: linorder
begin

definition confirmation_level :: "confirmation \<Rightarrow> nat" where
  "confirmation_level c = (case c of Processed \<Rightarrow> 0 | Confirmed \<Rightarrow> 1 | Finalized \<Rightarrow> 2)"

definition less_eq_confirmation :: "confirmation \<Rightarrow> confirmation \<Rightarrow> bool" where
  "c \<le> d \<longleftrightarrow> confirmation_level c \<le> confirmation_level d"

definition less_confirmation :: "confirmation \<Rightarrow> confirmation \<Rightarrow> bool" where
  "c < d \<longleftrightarrow> confirmation_level c < confirmation_level d"

instance
proof
  fix c d :: confirmation
  show "c \<le> d \<Longrightarrow> d \<le> c \<Longrightarrow> c = d"
    by (cases c; cases d) (simp_all add: less_eq_confirmation_def confirmation_level_def)
qed (auto simp: less_eq_confirmation_def less_confirmation_def)

end

text \<open>A status of a signature: whether the transaction failed, and its level (\<open>None\<close> for any other text).\<close>

record SignatureStatus =
  StatusErr :: bool
  ConfirmationStatus :: "confirmation option"

text \<open>
  The client. \<open>ticks_left w\<close> is how often, from the state \<open>w\<close> on, the ticker fires before the
  request's context is done; the context has a deadline, so this is a number.
\<close>

record 'w solana_rpc =
  TransactionFromBase64 :: "string \<Rightarrow> Transaction option"
  VerifySignatures :: "Transaction \<Rightarrow> bool"
  ResolveProgramIDIndex :: "Transaction \<Rightarrow> nat \<Rightarrow> PubKey option"
  ResolveInstructionAccounts :: "Transaction \<Rightarrow> Instruction \<Rightarrow> PubKey list option"
  IsSigner :: "Transaction \<Rightarrow> PubKey \<Rightarrow> bool"
  IsZero :: "PubKey \<Rightarrow> bool"
  ComputeBudget :: PubKey
  MemoProgramID :: PubKey
  TokenProgramID :: PubKey
  memo_DecodeInstruction :: "PubKey list \<Rightarrow> string \<Rightarrow> memo_instruction option"
  token_DecodeInstruction :: "PubKey list \<Rightarrow> string \<Rightarrow> token_instruction option"
  Signature_String :: "string \<Rightarrow> string"
  Commitment_String :: "confirmation \<Rightarrow> string"
  SendTransaction :: "'w \<Rightarrow> Transaction \<Rightarrow> string option \<times> 'w"
  GetSignatureStatuses :: "'w \<Rightarrow> string \<Rightarrow> SignatureStatus option list option \<times> 'w"
  ticks_left :: "'w \<Rightarrow> nat"

subsection \<open>The settler\<close>

record SolanaSettler =
  scfg :: Config
  mint :: PubKey
  payToWallet :: PubKey
  payToTokenATA :: PubKey
  commitment :: confirmation

definition NewSolana :: "solana \<Rightarrow> Config \<Rightarrow> new_error + SolanaSettler" where
  "NewSolana sol c =
     (case PublicKeyFromBase58 sol (USDCAddress c) of
        None \<Rightarrow> Inl SolanaMint
      | Some m \<Rightarrow>
          case PublicKeyFromBase58 sol (PayToAddress c) of
            None \<Rightarrow> Inl SolanaPayTo
          | Some payTo \<Rightarrow>
              case FindAssociatedTokenAddress sol payTo m of
                None \<Rightarrow> Inl SolanaATA
              | Some ata \<Rightarrow>
                  let level = (if SolanaConfirmation c = ''finalized'' then Finalized else Confirmed)
                  in Inr \<lparr>scfg = c, mint = m, payToWallet = payTo, payToTokenATA = ata, commitment = level\<rparr>)"

definition solanaMemo :: "string \<Rightarrow> string" where
  "solanaMemo reqID = ''x402:'' @ reqID"

definition Solana_BuildRequirements ::
    "solana \<Rightarrow> 'w solana_rpc \<Rightarrow> SolanaSettler \<Rightarrow> string \<Rightarrow> string \<Rightarrow> string \<Rightarrow> int \<Rightarrow> int \<Rightarrow> PaymentRequirements" where
  "Solana_BuildRequirements sol rpc s resource description reqID cost maxTimeoutSeconds =
     \<lparr>ReqScheme = SchemeExact, ReqNetwork = Network (scfg s), MaxAmountRequired = itoa cost,
      Resource = resource, Description = description, MimeType = '''',
      ReqPayTo = PublicKey_String sol (payToWallet s), MaxTimeoutSeconds = maxTimeoutSeconds,
      Asset = PublicKey_String sol (mint s),
      Extra = [(''requestId'', reqID), (''decimals'', ''6''),
        (''tokenProgram'', PublicKey_String sol (TokenProgramID rpc)),
        (''payToTokenAccount'', PublicKey_String sol (payToTokenATA s)),
        (''settlement'', SolanaPayType), (''memo'', solanaMemo reqID),
        (''confirmation'', Commitment_String rpc (commitment s)),
        (''addressLookupTables'', ''unsupported''), (''clientSubmitSupported'', ''false'')]\<rparr>"

subsection \<open>Checking a transaction\<close>

text \<open>The variables of the loop over the instructions.\<close>

record scan =
  transfer :: "TransferChecked option"
  payer :: PubKey
  memoOK :: bool
  transferCount :: nat

definition instruction_step ::
    "'w solana_rpc \<Rightarrow> Transaction \<Rightarrow> string \<Rightarrow> nat \<Rightarrow> Instruction \<Rightarrow> scan \<Rightarrow> tx_error + scan" where
  "instruction_step rpc tx expectedMemo i ix st =
     (case ResolveProgramIDIndex rpc tx (ProgramIDIndex ix) of
        None \<Rightarrow> Inl (ResolveProgram i)
      | Some programID \<Rightarrow>
          case ResolveInstructionAccounts rpc tx ix of
            None \<Rightarrow> Inl (ResolveAccounts i)
          | Some accounts \<Rightarrow>
              if programID = ComputeBudget rpc then Inr st
              else if programID = MemoProgramID rpc then
                (case memo_DecodeInstruction rpc accounts (ixData ix) of
                   None \<Rightarrow> Inl DecodeMemo
                 | Some MemoOther \<Rightarrow> Inl UnsupportedMemo
                 | Some (MemoCreate message) \<Rightarrow>
                     Inr (if message = expectedMemo then st\<lparr>memoOK := True\<rparr> else st))
              else if programID = TokenProgramID rpc then
                (case token_DecodeInstruction rpc accounts (ixData ix) of
                   None \<Rightarrow> Inl DecodeToken
                 | Some TokenOther \<Rightarrow> Inl UnsupportedToken
                 | Some (TokenTransferChecked tc) \<Rightarrow>
                     (case OwnerAccount tc of
                        None \<Rightarrow> Inl AccountPanic
                      | Some owner \<Rightarrow>
                          Inr (st\<lparr>transferCount := transferCount st + 1, transfer := Some tc, payer := owner\<rparr>)))
              else Inl (UnsupportedProgram programID))"

fun instruction_loop ::
    "'w solana_rpc \<Rightarrow> Transaction \<Rightarrow> string \<Rightarrow> nat \<Rightarrow> Instruction list \<Rightarrow> scan \<Rightarrow> tx_error + scan" where
  "instruction_loop rpc tx expectedMemo i [] st = Inr st"
| "instruction_loop rpc tx expectedMemo i (ix # ixs) st =
     and_then (instruction_step rpc tx expectedMemo i ix st)
       (instruction_loop rpc tx expectedMemo (Suc i) ixs)"

definition zero_key :: PubKey where
  "zero_key = replicate 32 (CHR 0x00)"

definition scan_start :: scan where
  "scan_start = \<lparr>transfer = None, payer = zero_key, memoOK = False, transferCount = 0\<rparr>"

definition uint64_of :: "int \<Rightarrow> 64 word" where
  "uint64_of n = word_of_int n"

text \<open>A read of an account's key.\<close>

definition account_is :: "PubKey option \<Rightarrow> PubKey \<Rightarrow> tx_error \<Rightarrow> tx_error + 'a \<Rightarrow> tx_error + 'a" where
  "account_is account key e rest =
     (case account of None \<Rightarrow> Inl AccountPanic | Some k \<Rightarrow> guard (k \<noteq> key) e rest)"

definition check_scan ::
    "'w solana_rpc \<Rightarrow> SolanaSettler \<Rightarrow> Transaction \<Rightarrow> int \<Rightarrow> string \<Rightarrow> scan \<Rightarrow> tx_error + PubKey" where
  "check_scan rpc s tx cost expectedMemo st =
     guard (\<not> memoOK st) (MissingMemo expectedMemo)
      (case transfer st of
         None \<Rightarrow> Inl NotOneTransfer
       | Some tc \<Rightarrow>
           guard (transferCount st \<noteq> 1) NotOneTransfer
          (guard (TcAmount tc = None \<or> TcAmount tc \<noteq> Some (uint64_of cost)) TransferAmountMismatch
          (guard (TcDecimals tc = None \<or> TcDecimals tc \<noteq> Some 6) DecimalsMismatch
          (account_is (MintAccount tc) (mint s) MintMismatch
          (account_is (DestinationAccount tc) (payToTokenATA s) DestinationMismatch
          (guard (IsZero rpc (payer st) \<or> \<not> IsSigner rpc tx (payer st)) PayerNotSigner
            (Inr (payer st))))))))"

definition validateTransaction ::
    "'w solana_rpc \<Rightarrow> SolanaSettler \<Rightarrow> Transaction \<Rightarrow> int \<Rightarrow> string \<Rightarrow> tx_error + PubKey" where
  "validateTransaction rpc s tx cost reqID =
     guard (length (Signatures tx) = 0) MissingSignature
    (guard (length (AddressTableLookups tx) \<noteq> 0) LookupTables
    (guard (\<not> VerifySignatures rpc tx) SignaturesInvalid
    (guard (cost \<le> 0 \<or> \<not> (0 \<le> cost \<and> cost < 2 ^ 64)) InvalidAmount
    (guard (unat (uint64_of cost) > 2 ^ 63 - 1) AmountRange
      (and_then (instruction_loop rpc tx (solanaMemo reqID) 0 (Instructions tx) scan_start)
        (check_scan rpc s tx cost (solanaMemo reqID)))))))"

subsection \<open>Waiting for the confirmation\<close>

text \<open>What one poll decides: \<open>None\<close> goes on to the \<open>select\<close>.\<close>

definition poll_verdict ::
    "SolanaSettler \<Rightarrow> SignatureStatus option list option \<Rightarrow> (settle_error + unit) option" where
  "poll_verdict s statuses =
     (case statuses of
        Some (Some status # _) \<Rightarrow>
          if StatusErr status then Some (Inl TxFailed)
          else if ConfirmationStatus status = Some Finalized \<or>
                  commitment s = Confirmed \<and> ConfirmationStatus status = Some Confirmed
               then Some (Inr ())
          else None
      | _ \<Rightarrow> None)"

text \<open>The loop, for a context that outlives \<open>ticks\<close> ticks: poll, then a tick or the end of the context.\<close>

fun waitConfirmed ::
    "'w solana_rpc \<Rightarrow> SolanaSettler \<Rightarrow> nat \<Rightarrow> 'w \<Rightarrow> string \<Rightarrow> (settle_error + unit) \<times> 'w" where
  "waitConfirmed rpc s 0 w sig =
     (case GetSignatureStatuses rpc w sig of (statuses, w) \<Rightarrow>
        case poll_verdict s statuses of Some r \<Rightarrow> (r, w) | None \<Rightarrow> (Inl WaitConfirmation, w))"
| "waitConfirmed rpc s (Suc ticks) w sig =
     (case GetSignatureStatuses rpc w sig of (statuses, w) \<Rightarrow>
        case poll_verdict s statuses of Some r \<Rightarrow> (r, w) | None \<Rightarrow> waitConfirmed rpc s ticks w sig)"

subsection \<open>\<open>Settle\<close>\<close>

definition Solana_Settle ::
    "solana \<Rightarrow> 'w solana_rpc \<Rightarrow> SolanaSettler \<Rightarrow> 'w \<Rightarrow> PaymentPayload \<Rightarrow> int \<Rightarrow> string \<Rightarrow>
     (settle_error + Settlement) \<times> 'w" where
  "Solana_Settle sol rpc s w payment cost reqID =
     (case Unmarshal decode_ExactSolanaPayload (Payload payment) zero_solana_payload of
        (_, True) \<Rightarrow> (Inl BadPayload, w)
      | (payload, False) \<Rightarrow>
          if SolType payload \<noteq> SolanaPayType then (Inl (PaymentType (SolType payload)), w)
          else if SolRequestID payload \<noteq> reqID then (Inl RequestIDMismatch, w)
          else case TransactionFromBase64 rpc (ExactSolanaPayload.Transaction payload) of
            None \<Rightarrow> (Inl DecodeTransaction, w)
          | Some tx \<Rightarrow>
              case validateTransaction rpc s tx cost reqID of
                Inl e \<Rightarrow> (Inl (TxInvalid e), w)
              | Inr payer_key \<Rightarrow>
                  if DryRun (scfg s) then
                    (Inr \<lparr>StTxHash = ''DRYRUN-'' @ Signature_String rpc (Signatures tx ! 0),
                          StPayer = PublicKey_String sol payer_key\<rparr>, w)
                  else case SendTransaction rpc w tx of
                    (None, w) \<Rightarrow> (Inl SubmitTx, w)
                  | (Some sig, w) \<Rightarrow>
                      case waitConfirmed rpc s (ticks_left rpc w) w sig of
                        (Inl e, w) \<Rightarrow> (Inl e, w)
                      | (Inr _, w) \<Rightarrow>
                          (Inr \<lparr>StTxHash = Signature_String rpc sig, StPayer = PublicKey_String sol payer_key\<rparr>, w))"

subsection \<open>What the check accepts\<close>

text \<open>The meaning of an instruction, if the settler supports it.\<close>

datatype ix_effect = NoEffect | MemoText string | Transfer TransferChecked PubKey

definition effect_of :: "'w solana_rpc \<Rightarrow> Transaction \<Rightarrow> Instruction \<Rightarrow> ix_effect option" where
  "effect_of rpc tx ix =
     (case (ResolveProgramIDIndex rpc tx (ProgramIDIndex ix), ResolveInstructionAccounts rpc tx ix) of
        (Some programID, Some accounts) \<Rightarrow>
          if programID = ComputeBudget rpc then Some NoEffect
          else if programID = MemoProgramID rpc then
            (case memo_DecodeInstruction rpc accounts (ixData ix) of Some (MemoCreate m) \<Rightarrow> Some (MemoText m) | _ \<Rightarrow> None)
          else if programID = TokenProgramID rpc then
            (case token_DecodeInstruction rpc accounts (ixData ix) of
               Some (TokenTransferChecked tc) \<Rightarrow> map_option (Transfer tc) (OwnerAccount tc) | _ \<Rightarrow> None)
          else None
      | _ \<Rightarrow> None)"

fun effects :: "'w solana_rpc \<Rightarrow> Transaction \<Rightarrow> Instruction list \<Rightarrow> ix_effect list option" where
  "effects rpc tx [] = Some []"
| "effects rpc tx (ix # ixs) =
     (case (effect_of rpc tx ix, effects rpc tx ixs) of (Some e, Some es) \<Rightarrow> Some (e # es) | _ \<Rightarrow> None)"

fun transfers :: "ix_effect list \<Rightarrow> (TransferChecked \<times> PubKey) list" where
  "transfers [] = []"
| "transfers (Transfer tc owner # es) = (tc, owner) # transfers es"
| "transfers (_ # es) = transfers es"

fun memos :: "ix_effect list \<Rightarrow> string list" where
  "memos [] = []"
| "memos (MemoText m # es) = m # memos es"
| "memos (_ # es) = memos es"

text \<open>
  The contract of \<open>validateTransaction\<close>: only supported instructions, exactly one transfer, of the price in
  USDC to the merchant's token account, owned by a signer, and a memo with the request id.
\<close>

definition valid_transaction ::
    "'w solana_rpc \<Rightarrow> SolanaSettler \<Rightarrow> Transaction \<Rightarrow> int \<Rightarrow> string \<Rightarrow> PubKey \<Rightarrow> bool" where
  "valid_transaction rpc s tx cost reqID p \<longleftrightarrow>
     Signatures tx \<noteq> [] \<and> AddressTableLookups tx = [] \<and> VerifySignatures rpc tx \<and>
     0 < cost \<and> cost < 2 ^ 63 \<and>
     (\<exists>es tc a. effects rpc tx (Instructions tx) = Some es \<and> transfers es = [(tc, p)] \<and>
        solanaMemo reqID \<in> set (memos es) \<and>
        TcAmount tc = Some a \<and> uint a = cost \<and> TcDecimals tc = Some 6 \<and> MintAccount tc = Some (mint s) \<and>
        DestinationAccount tc = Some (payToTokenATA s) \<and> \<not> IsZero rpc p \<and> IsSigner rpc tx p)"

fun apply_effect :: "string \<Rightarrow> scan \<Rightarrow> ix_effect \<Rightarrow> scan" where
  "apply_effect expected st NoEffect = st"
| "apply_effect expected st (MemoText m) = (if m = expected then st\<lparr>memoOK := True\<rparr> else st)"
| "apply_effect expected st (Transfer tc owner) =
     st\<lparr>transferCount := transferCount st + 1, transfer := Some tc, payer := owner\<rparr>"

lemma instruction_step_Inr:
  "instruction_step rpc tx m i ix st = Inr st' \<longleftrightarrow>
   (\<exists>e. effect_of rpc tx ix = Some e \<and> st' = apply_effect m st e)"
  by (auto simp: instruction_step_def effect_of_def
      split: option.splits memo_instruction.splits token_instruction.splits if_splits)

lemma instruction_loop_Inr:
  "instruction_loop rpc tx m i ixs st = Inr st' \<longleftrightarrow>
   (\<exists>es. effects rpc tx ixs = Some es \<and> st' = foldl (apply_effect m) st es)"
  by (induction ixs arbitrary: i st)
    (fastforce simp: instruction_step_Inr split: option.splits)+

lemma scan_effects:
  fixes m :: string and st :: scan
  defines "out \<equiv> \<lambda>es. foldl (apply_effect m) st es"
  shows "memoOK (out es) \<longleftrightarrow> memoOK st \<or> m \<in> set (memos es)"
    "transferCount (out es) = transferCount st + length (transfers es)"
    "transfer (out es) = (if transfers es = [] then transfer st else Some (fst (last (transfers es))))"
    "payer (out es) = (if transfers es = [] then payer st else snd (last (transfers es)))"
proof -
  have "(memoOK (foldl (apply_effect m) st es) \<longleftrightarrow> memoOK st \<or> m \<in> set (memos es)) \<and>
      transferCount (foldl (apply_effect m) st es) = transferCount st + length (transfers es) \<and>
      transfer (foldl (apply_effect m) st es) = (if transfers es = [] then transfer st else Some (fst (last (transfers es)))) \<and>
      payer (foldl (apply_effect m) st es) = (if transfers es = [] then payer st else snd (last (transfers es)))"
  proof (induction es arbitrary: st)
    case (Cons e es)
    show ?case by (cases e) (simp_all add: Cons.IH)
  qed simp
  then show "memoOK (out es) \<longleftrightarrow> memoOK st \<or> m \<in> set (memos es)"
    "transferCount (out es) = transferCount st + length (transfers es)"
    "transfer (out es) = (if transfers es = [] then transfer st else Some (fst (last (transfers es))))"
    "payer (out es) = (if transfers es = [] then payer st else snd (last (transfers es)))"
    by (simp_all add: out_def)
qed

lemma uint64_of_eq: "0 \<le> n \<Longrightarrow> n < 2 ^ 64 \<Longrightarrow> a = uint64_of n \<longleftrightarrow> uint a = n"
  by (auto simp: uint64_of_def word_of_int_inverse take_bit_int_eq_self)

lemma check_scan_Inr:
  assumes "0 < cost" "cost < 2 ^ 63"
  shows "check_scan rpc s tx cost m (foldl (apply_effect m) scan_start es) = Inr p \<longleftrightarrow>
    (\<exists>tc a. transfers es = [(tc, p)] \<and> m \<in> set (memos es) \<and> TcAmount tc = Some a \<and> uint a = cost \<and>
       TcDecimals tc = Some 6 \<and> MintAccount tc = Some (mint s) \<and> DestinationAccount tc = Some (payToTokenATA s) \<and>
       \<not> IsZero rpc p \<and> IsSigner rpc tx p)"
proof -
  have one: "length xs = Suc 0 \<longleftrightarrow> (\<exists>x. xs = [x])" for xs :: "(TransferChecked \<times> PubKey) list"
    by (simp add: length_Suc_conv)
  have amount: "TcAmount tc = Some (uint64_of cost) \<longleftrightarrow> (\<exists>a. TcAmount tc = Some a \<and> uint a = cost)" for tc :: TransferChecked
    using assms uint64_of_eq [of cost] by (cases "TcAmount tc") auto
  show ?thesis
    by (auto simp: check_scan_def account_is_def scan_effects scan_start_def one amount split: option.splits)
qed

lemma validateTransaction_Inr:
  "validateTransaction rpc s tx cost reqID = Inr p \<longleftrightarrow> valid_transaction rpc s tx cost reqID p"
proof (cases "0 < cost \<and> cost < 2 ^ 64")
  case True
  then have "unat (uint64_of cost) = nat cost"
    by (simp add: uint64_of_def unat_eq_nat_uint word_of_int_inverse take_bit_int_eq_self)
  with True have range: "\<not> 2 ^ 63 - 1 < unat (uint64_of cost) \<longleftrightarrow> cost < 2 ^ 63" by auto
  show ?thesis
  proof (cases "cost < 2 ^ 63")
    case small: True
    then show ?thesis
      using True range check_scan_Inr [of cost rpc s tx "solanaMemo reqID" _ p]
      by (simp add: validateTransaction_def valid_transaction_def instruction_loop_Inr) metis
  qed (use range in \<open>simp add: validateTransaction_def valid_transaction_def\<close>)
qed (auto simp: validateTransaction_def valid_transaction_def)

subsection \<open>The wait ends\<close>

text \<open>The cluster as the loop sees it: its state before the \<open>k\<close>-th poll, and what that poll says.\<close>

fun before_poll :: "'w solana_rpc \<Rightarrow> string \<Rightarrow> 'w \<Rightarrow> nat \<Rightarrow> 'w" where
  "before_poll rpc sig w 0 = w"
| "before_poll rpc sig w (Suc k) = before_poll rpc sig (snd (GetSignatureStatuses rpc w sig)) k"

definition poll :: "'w solana_rpc \<Rightarrow> string \<Rightarrow> 'w \<Rightarrow> nat \<Rightarrow> SignatureStatus option list option" where
  "poll rpc sig w k = fst (GetSignatureStatuses rpc (before_poll rpc sig w k) sig)"

definition known :: "SignatureStatus option list option \<Rightarrow> SignatureStatus option" where
  "known statuses = (case statuses of Some (st # _) \<Rightarrow> st | _ \<Rightarrow> None)"

text \<open>The transaction succeeded and has at least the required level; or it is known to have failed.\<close>

definition reached :: "confirmation \<Rightarrow> SignatureStatus option list option \<Rightarrow> bool" where
  "reached level statuses \<longleftrightarrow>
     (\<exists>st l. known statuses = Some st \<and> \<not> StatusErr st \<and> ConfirmationStatus st = Some l \<and> level \<le> l)"

definition failed_tx :: "SignatureStatus option list option \<Rightarrow> bool" where
  "failed_tx statuses \<longleftrightarrow> (\<exists>st. known statuses = Some st \<and> StatusErr st)"

lemma level_iff:
  "Confirmed \<le> level \<Longrightarrow> level \<le> l \<longleftrightarrow> l = Finalized \<or> level = Confirmed \<and> l = Confirmed"
  by (cases level; cases l) (simp_all add: less_eq_confirmation_def confirmation_level_def)

lemma poll_verdict_cases:
  assumes "Confirmed \<le> commitment s"
  shows "poll_verdict s p = Some (Inr ()) \<longleftrightarrow> reached (commitment s) p"
    "poll_verdict s p = Some (Inl e) \<longleftrightarrow> e = TxFailed \<and> failed_tx p"
    "poll_verdict s p = None \<longleftrightarrow> \<not> reached (commitment s) p \<and> \<not> failed_tx p"
  using level_iff [OF assms]
  by (auto simp: poll_verdict_def reached_def failed_tx_def known_def split: option.splits list.splits)

lemma poll_Suc [simp]: "poll rpc sig w (Suc k) = poll rpc sig (snd (GetSignatureStatuses rpc w sig)) k"
  by (simp add: poll_def)

lemma poll_0 [simp]: "poll rpc sig w 0 = fst (GetSignatureStatuses rpc w sig)"
  by (simp add: poll_def)

lemma waitConfirmed_step:
  "waitConfirmed rpc s n w sig =
     (case poll_verdict s (poll rpc sig w 0) of
        Some r \<Rightarrow> (r, before_poll rpc sig w 1)
      | None \<Rightarrow> (case n of 0 \<Rightarrow> (Inl WaitConfirmation, before_poll rpc sig w 1)
                 | Suc m \<Rightarrow> waitConfirmed rpc s m (before_poll rpc sig w 1) sig))"
  by (cases n) (auto split: prod.splits option.splits)

lemma waitConfirmed_first:
  "(fst (waitConfirmed rpc s n w sig) = r \<and> r \<noteq> Inl WaitConfirmation \<longleftrightarrow>
    r \<noteq> Inl WaitConfirmation \<and>
    (\<exists>k \<le> n. poll_verdict s (poll rpc sig w k) = Some r \<and> (\<forall>j < k. poll_verdict s (poll rpc sig w j) = None)))"
proof (induction n arbitrary: w)
  case 0
  have none: "poll_verdict s p \<noteq> Some (Inl WaitConfirmation)" for p
    by (auto simp: poll_verdict_def split: option.splits list.splits)
  have "fst (waitConfirmed rpc s 0 w sig) =
      (case poll_verdict s (poll rpc sig w 0) of Some r \<Rightarrow> r | None \<Rightarrow> Inl WaitConfirmation)"
    by (simp split: prod.split option.split)
  then show ?case
    using none [of "poll rpc sig w 0"]
    by (cases "poll_verdict s (poll rpc sig w 0)") (simp_all del: waitConfirmed.simps poll_0, blast+)
next
  case (Suc n)
  have shift: "(\<exists>k \<le> Suc n. P k \<and> (\<forall>j < k. Q j)) \<longleftrightarrow> P 0 \<or> Q 0 \<and> (\<exists>k \<le> n. P (Suc k) \<and> (\<forall>j < k. Q (Suc j)))"
    for P Q :: "nat \<Rightarrow> bool"
    unfolding less_Suc_eq_le [symmetric] Ex_less_Suc2 [of "Suc n"] All_less_Suc2 by auto
  show ?case
    unfolding shift using Suc.IH [of "snd (GetSignatureStatuses rpc w sig)"]
    by (subst waitConfirmed_step) (cases "poll_verdict s (poll rpc sig w 0)"; auto)
qed

text \<open>C8: What \<open>validateTransaction\<close> accepts, in full: a transaction with valid signatures and without
  lookup tables, made of compute-budget, memo and token instructions only, with one transfer, of
  exactly the price with six decimals in the configured mint to the merchant's token account, owned
  by a signer (the payer it returns), and among its memos one with the request id. Nothing else is
  asked: further memos, of any text, and versioned messages are accepted too.\<close>

theorem validateTransaction_iff:
  "validateTransaction rpc s tx cost reqID = Inr p \<longleftrightarrow> valid_transaction rpc s tx cost reqID p"
  by (rule validateTransaction_Inr)

definition first_poll ::
    "'w solana_rpc \<Rightarrow> SolanaSettler \<Rightarrow> string \<Rightarrow> 'w \<Rightarrow> nat \<Rightarrow> (SignatureStatus option list option \<Rightarrow> bool) \<Rightarrow> bool" where
  "first_poll rpc s sig w n P \<longleftrightarrow>
     (\<exists>k \<le> n. P (poll rpc sig w k) \<and>
        (\<forall>j < k. \<not> reached (commitment s) (poll rpc sig w j) \<and> \<not> failed_tx (poll rpc sig w j)))"

text \<open>C20: The wait for the confirmation always ends, and it ends the right way: it succeeds exactly if,
  within the ticks the context leaves, some poll shows the transaction without error at the
  configured level or above (\<open>Processed < Confirmed < Finalized\<close>) before any poll shows it failed; it
  reports a failed transaction exactly if such a poll comes first; otherwise it gives up.\<close>

theorem waitConfirmed_outcome:
  assumes "Confirmed \<le> commitment s"
  shows "fst (waitConfirmed rpc s n w sig) =
    (if first_poll rpc s sig w n (reached (commitment s)) then Inr ()
     else if first_poll rpc s sig w n failed_tx then Inl TxFailed else Inl WaitConfirmation)"
proof -
  note iff = waitConfirmed_first [of rpc s n w sig]
  have ok: "fst (waitConfirmed rpc s n w sig) = Inr () \<longleftrightarrow> first_poll rpc s sig w n (reached (commitment s))"
    using iff [of "Inr ()"] by (simp add: poll_verdict_cases [OF assms(1)] first_poll_def)
  have bad: "fst (waitConfirmed rpc s n w sig) = Inl e \<longleftrightarrow> e = TxFailed \<and> first_poll rpc s sig w n failed_tx"
    if "e \<noteq> WaitConfirmation" for e
    using iff [of "Inl e"] that by (auto simp: poll_verdict_cases [OF assms(1)] first_poll_def)
  show ?thesis
  proof (cases "fst (waitConfirmed rpc s n w sig)")
    case (Inl e)
    then show ?thesis using ok bad [of e] bad [of TxFailed] by (cases "e = WaitConfirmation") auto
  qed (use ok in auto)
qed

subsection \<open>What a settlement proves\<close>

text \<open>The payload names the request and holds a transaction.\<close>

definition solana_payload :: "'w solana_rpc \<Rightarrow> PaymentPayload \<Rightarrow> string \<Rightarrow> Transaction \<Rightarrow> bool" where
  "solana_payload rpc p reqID tx \<longleftrightarrow>
     (\<exists>payload. Unmarshal decode_ExactSolanaPayload (Payload p) zero_solana_payload = (payload, False) \<and>
        SolType payload = SolanaPayType \<and> SolRequestID payload = reqID \<and>
        TransactionFromBase64 rpc (ExactSolanaPayload.Transaction payload) = Some tx)"

definition confirmed_send ::
    "'w solana_rpc \<Rightarrow> SolanaSettler \<Rightarrow> 'w \<Rightarrow> Transaction \<Rightarrow> string \<Rightarrow> 'w \<Rightarrow> bool" where
  "confirmed_send rpc s w tx hash w' \<longleftrightarrow>
     (if DryRun (scfg s) then hash = ''DRYRUN-'' @ Signature_String rpc (Signatures tx ! 0) \<and> w' = w
      else \<exists>sig w1. SendTransaction rpc w tx = (Some sig, w1) \<and> hash = Signature_String rpc sig \<and>
        waitConfirmed rpc s (ticks_left rpc w1) w1 sig = (Inr (), w'))"

lemma Solana_Settle_Inr:
  "Solana_Settle sol rpc s w p cost rid = (Inr st, w') \<longleftrightarrow>
   (\<exists>tx k. solana_payload rpc p rid tx \<and> valid_transaction rpc s tx cost rid k \<and>
      confirmed_send rpc s w tx (StTxHash st) w' \<and> StPayer st = PublicKey_String sol k)"
  (is "?settled \<longleftrightarrow> ?paid")
proof
  assume ?settled
  then obtain payload tx k where p:
    "Unmarshal decode_ExactSolanaPayload (Payload p) zero_solana_payload = (payload, False)"
    "SolType payload = SolanaPayType" "SolRequestID payload = rid"
    "TransactionFromBase64 rpc (ExactSolanaPayload.Transaction payload) = Some tx"
    "validateTransaction rpc s tx cost rid = Inr k"
    by (auto simp: Solana_Settle_def split: prod.splits bool.splits sum.splits if_splits option.splits)
  with \<open>?settled\<close> have "confirmed_send rpc s w tx (StTxHash st) w' \<and> StPayer st = PublicKey_String sol k"
    by (auto simp: Solana_Settle_def confirmed_send_def
        split: prod.splits bool.splits sum.splits if_splits option.splits)
  then show ?paid using p unfolding solana_payload_def validateTransaction_Inr by blast
next
  assume ?paid
  then show ?settled
    by (cases st) (auto simp: Solana_Settle_def solana_payload_def confirmed_send_def
        simp flip: validateTransaction_Inr split: if_splits)
qed

text \<open>C7: \<open>Settle\<close> on Solana succeeds exactly when the payload names this very request, its
  transaction is one \<open>validateTransaction\<close> accepts for this price and request, the cluster took it and
  confirmed it in time (in dry-run mode: nothing was sent). The payer named is the transfer's owner.\<close>

theorem Solana_Settle_iff:
  "Solana_Settle sol rpc s w p cost rid = (Inr st, w') \<longleftrightarrow>
   (\<exists>tx k. solana_payload rpc p rid tx \<and> valid_transaction rpc s tx cost rid k \<and>
      confirmed_send rpc s w tx (StTxHash st) w' \<and> StPayer st = PublicKey_String sol k)"
  by (rule Solana_Settle_Inr)

lemma Solana_Settle_Inl:
  assumes "Solana_Settle sol rpc s w p cost rid = (Inl e, w')" "before_submission e"
  shows "w' = w"
proof -
  have "fst (waitConfirmed rpc s n w sig) = Inl e \<Longrightarrow> e = TxFailed \<or> e = WaitConfirmation" for n w sig
    by (induction n arbitrary: w)
      (auto simp: poll_verdict_def split: prod.splits option.splits list.splits if_splits)
  then have "waitConfirmed rpc s n w sig \<noteq> (Inl e, w')" for n w sig
    using assms(2) by (metis before_submission_def fst_conv)
  then show ?thesis
    using assms
    by (auto simp: Solana_Settle_def before_submission_def
        split: prod.splits bool.splits sum.splits if_splits option.splits)
qed

definition solana_authorises ::
    "solana \<Rightarrow> 'w solana_rpc \<Rightarrow> SolanaSettler \<Rightarrow> PaymentPayload \<Rightarrow> int \<Rightarrow> string \<Rightarrow> Settlement \<Rightarrow> bool" where
  "solana_authorises sol rpc s p cost rid st \<longleftrightarrow>
     (\<exists>tx k. solana_payload rpc p rid tx \<and> valid_transaction rpc s tx cost rid k \<and>
        StPayer st = PublicKey_String sol k)"

interpretation solana_pay: payment_settler "Solana_BuildRequirements sol rpc"
  "\<lambda>s w now. Solana_Settle sol rpc s w" "\<lambda>s now. solana_authorises sol rpc s"
  for sol :: solana and rpc :: "'w solana_rpc"
proof unfold_locales
  show "Solana_Settle sol rpc s w p cost rid = (Inr st, w') \<Longrightarrow> solana_authorises sol rpc s p cost rid st"
    for s w p cost rid st w'
    by (auto simp: Solana_Settle_Inr solana_authorises_def)
qed (auto simp: Solana_BuildRequirements_def dest: Solana_Settle_Inl)

subsection \<open>The settler of the configured chain\<close>

text \<open>The libraries of the two chains, and a value of the interface.\<close>

record 'w libs =
  geth_lib :: geth
  solana_lib :: solana
  evm_client :: "'w eth_rpc"
  solana_client :: "'w solana_rpc"

datatype PaymentSettler = EVM EVMSettler | SOL SolanaSettler

definition Settler_New :: "'w libs \<Rightarrow> Config \<Rightarrow> new_error + PaymentSettler" where
  "Settler_New l c =
     (if PaymentChain c = ''solana'' then map_sum (\<lambda>e. e) SOL (NewSolana (solana_lib l) c)
      else map_sum (\<lambda>e. e) EVM (NewEVM (geth_lib l) (evm_client l) c))"

definition BuildRequirements ::
    "'w libs \<Rightarrow> PaymentSettler \<Rightarrow> string \<Rightarrow> string \<Rightarrow> string \<Rightarrow> int \<Rightarrow> int \<Rightarrow> PaymentRequirements" where
  "BuildRequirements l s =
     (case s of EVM e \<Rightarrow> EVM_BuildRequirements e
      | SOL e \<Rightarrow> Solana_BuildRequirements (solana_lib l) (solana_client l) e)"

definition Settle ::
    "'w libs \<Rightarrow> PaymentSettler \<Rightarrow> 'w \<Rightarrow> int \<Rightarrow> PaymentPayload \<Rightarrow> int \<Rightarrow> string \<Rightarrow>
     (settle_error + Settlement) \<times> 'w" where
  "Settle l s w now payment cost reqID =
     (case s of
        EVM e \<Rightarrow> EVM_Settle (geth_lib l) (evm_client l) e w now payment cost reqID
      | SOL e \<Rightarrow> Solana_Settle (solana_lib l) (solana_client l) e w payment cost reqID)"

definition authorises :: "'w libs \<Rightarrow> PaymentSettler \<Rightarrow> int \<Rightarrow> PaymentPayload \<Rightarrow> int \<Rightarrow> string \<Rightarrow> Settlement \<Rightarrow> bool" where
  "authorises l s now p cost rid st =
     (case s of
        EVM e \<Rightarrow> evm_authorises (geth_lib l) e now p cost rid st
      | SOL e \<Rightarrow> solana_authorises (solana_lib l) (solana_client l) e p cost rid st)"

interpretation chain_pay: payment_settler "BuildRequirements l" "Settle l" "authorises l"
  for l :: "'w libs"
proof unfold_locales
  fix s w now p cost rid st w' e
  show "Settle l s w now p cost rid = (Inr st, w') \<Longrightarrow> authorises l s now p cost rid st"
    by (cases s) (auto simp: Settle_def authorises_def dest: evm.settle_authorised solana_pay.settle_authorised)
  show "Settle l s w now p cost rid = (Inl e, w') \<Longrightarrow> before_submission e \<Longrightarrow> w' = w"
    by (cases s) (auto simp: Settle_def dest: evm.settle_refused Solana_Settle_Inl)
next
  fix s resource desc rid cost t
  show "MaxAmountRequired (BuildRequirements l s resource desc rid cost t) = itoa cost"
    "ReqScheme (BuildRequirements l s resource desc rid cost t) = SchemeExact"
    "map_of (Extra (BuildRequirements l s resource desc rid cost t)) ''requestId'' = Some rid"
    by (cases s; simp add: BuildRequirements_def EVM_BuildRequirements_def Solana_BuildRequirements_def)+
qed

text \<open>A payment that is refused costs the payer nothing, on either chain: whenever \<open>Settle\<close> fails with
  anything but a failed submission, a failed transaction or a missing confirmation, no call was made
  that could move money.\<close>

theorem refused_payment_untouched:
  assumes "Settle l s w now p cost rid = (Inl e, w')" "before_submission e"
  shows "w' = w"
  using assms by (rule chain_pay.settle_refused)

text \<open>A configuration that \<open>Load\<close> accepted for Solana gets a settler as soon as the token account can
  be derived, and that settler waits at least for the level \<open>confirmed\<close>, for \<open>finalized\<close> if so configured.\<close>

theorem solana_settler_ready:
  assumes "Load (geth_lib l) (solana_lib l) up env = Inr c" "PaymentChain c = ''solana''"
    and "\<forall>k m. FindAssociatedTokenAddress (solana_lib l) k m \<noteq> None"
  shows "\<exists>s. Settler_New l c = Inr (SOL s) \<and> scfg s = c \<and> Confirmed \<le> commitment s \<and>
    (commitment s = Finalized \<longleftrightarrow> SolanaConfirmation c = ''finalized'')"
proof -
  have "config_ok (geth_lib l) (solana_lib l) c" using assms(1) by (rule Load_config_ok)
  then have "solana_ok (solana_lib l) c" using assms(2) by (auto simp: config_ok_def)
  then obtain payTo m where "PublicKeyFromBase58 (solana_lib l) (PayToAddress c) = Some payTo"
    "PublicKeyFromBase58 (solana_lib l) (USDCAddress c) = Some m"
    by (auto simp: solana_ok_def)
  moreover obtain ata where "FindAssociatedTokenAddress (solana_lib l) payTo m = Some ata"
    using assms(3) by fastforce
  ultimately show ?thesis
    using assms(2)
    by (simp add: Settler_New_def NewSolana_def Let_def less_eq_confirmation_def confirmation_level_def)
qed

subsection \<open>A small cluster\<close>

text \<open>
  A client to evaluate the settler with: the cluster is a counter of the calls made to it, and confirms
  a transaction at the third poll.
\<close>

definition sample_tx :: Transaction where
  "sample_tx =
     \<lparr>Signatures = [''sig''], AccountKeys = [''P'', ''B'', ''M'', ''T'', ''N'', ''D'', ''S''], AddressTableLookups = [],
      Instructions = [\<lparr>ProgramIDIndex = 1, AccountIndices = [], ixData = ''''\<rparr>,
        \<lparr>ProgramIDIndex = 2, AccountIndices = [], ixData = ''x402:r''\<rparr>,
        \<lparr>ProgramIDIndex = 3, AccountIndices = [6, 4, 5, 0], ixData = ''12345''\<rparr>]\<rparr>"

text \<open>An account of an instruction, as the accessors find it: source, mint, destination, owner.\<close>

definition account_at :: "PubKey list \<Rightarrow> nat \<Rightarrow> PubKey option" where
  "account_at accounts i = (if i < length accounts then Some (accounts ! i) else None)"

definition sample_solana_rpc :: "nat solana_rpc" where
  "sample_solana_rpc =
     \<lparr>TransactionFromBase64 = (\<lambda>s. if s = [] then None else Some sample_tx), VerifySignatures = (\<lambda>tx. True),
      ResolveProgramIDIndex = (\<lambda>tx i. if i < length (AccountKeys tx) then Some (AccountKeys tx ! i) else None),
      ResolveInstructionAccounts = (\<lambda>tx ix. Some (map (\<lambda>i. AccountKeys tx ! i) (AccountIndices ix))),
      IsSigner = (\<lambda>tx k. k = ''P''), IsZero = (\<lambda>k. k = zero_key),
      ComputeBudget = ''B'', MemoProgramID = ''M'', TokenProgramID = ''T'',
      memo_DecodeInstruction = (\<lambda>accounts data. Some (MemoCreate data)),
      token_DecodeInstruction = (\<lambda>accounts data. Some (TokenTransferChecked
        \<lparr>TcAmount = Some (of_nat (length data)), TcDecimals = Some 6, MintAccount = account_at accounts 1,
         DestinationAccount = account_at accounts 2, OwnerAccount = account_at accounts 3\<rparr>)),
      Signature_String = (\<lambda>s. s), Commitment_String = (\<lambda>c. ''confirmed''),
      SendTransaction = (\<lambda>w tx. (Some (hd (Signatures tx)), Suc w)),
      GetSignatureStatuses = (\<lambda>w sig. (if w < 3 then Some [None]
        else Some [Some \<lparr>StatusErr = False, ConfirmationStatus = Some Confirmed\<rparr>], Suc w)),
      ticks_left = (\<lambda>w. 60)\<rparr>"

definition sample_solana_settler :: SolanaSettler where
  "sample_solana_settler =
     \<lparr>scfg = sample_config, mint = ''N'', payToWallet = ''W'', payToTokenATA = ''D'', commitment = Confirmed\<rparr>"

definition sample_solana_payment :: PaymentPayload where
  "sample_solana_payment =
     \<lparr>PayX402Version = 1, PayScheme = ''exact'', PayloadNetwork = ''solana:devnet'',
      Payload = json_object [(''type'', json_quote SolanaPayType), (''transaction'', json_quote ''AQID''),
        (''requestId'', json_quote ''r'')]\<rparr>"

definition sample_eth_rpc :: "nat eth_rpc" where
  "sample_eth_rpc =
     \<lparr>Dial = (\<lambda>url. True), NewKeyedTransactor = (\<lambda>key chain. Some (take 40 key)), abi_JSON = (\<lambda>m. True),
      Transact = (\<lambda>w usdc sender m args. (Some ''0xhash'', Suc w))\<rparr>"

definition sample_libs :: "nat libs" where
  "sample_libs = \<lparr>geth_lib = sample_geth, solana_lib = sample_solana, evm_client = sample_eth_rpc,
     solana_client = sample_solana_rpc\<rparr>"

theorem waitConfirmed_outcome_witness:
  "fst (waitConfirmed sample_solana_rpc sample_solana_settler 60 1 ''sig'') = Inr ()"
proof -
  have "Confirmed \<le> commitment sample_solana_settler" by (simp add: sample_solana_settler_def)
  note outcome = waitConfirmed_outcome [OF this, of sample_solana_rpc 60 1 "''sig''"]
  have third: "reached (commitment sample_solana_settler) (poll sample_solana_rpc ''sig'' 1 2)"
    by (simp add: reached_def known_def poll_def numeral_2_eq_2 sample_solana_rpc_def sample_solana_settler_def)
  moreover have "\<not> reached l (poll sample_solana_rpc ''sig'' 1 j) \<and> \<not> failed_tx (poll sample_solana_rpc ''sig'' 1 j)"
    if "j < 2" for j l
    using that
    by (auto simp: less_2_cases_iff reached_def failed_tx_def known_def poll_def sample_solana_rpc_def)
  ultimately have "first_poll sample_solana_rpc sample_solana_settler ''sig'' 1 60
      (reached (commitment sample_solana_settler))"
    unfolding first_poll_def by (intro exI [of _ 2]) simp
  then show ?thesis using outcome by simp
qed



theorem refused_payment_untouched_witness:
  "Settle sample_libs (SOL sample_solana_settler) 7 0 sample_solana_payment 5 ''q'' = (Inl RequestIDMismatch, 7)"
proof -
  have "fst (Settle sample_libs (SOL sample_solana_settler) 7 0 sample_solana_payment 5 ''q'') = Inl RequestIDMismatch"
    by code_simp
  then show ?thesis
    using refused_payment_untouched [of sample_libs "SOL sample_solana_settler" 7 0 sample_solana_payment 5 "''q''"
        RequestIDMismatch "snd (Settle sample_libs (SOL sample_solana_settler) 7 0 sample_solana_payment 5 ''q'')"]
    by (simp add: prod_eq_iff before_submission_def)
qed

definition sample_solana_env :: Env where
  "sample_solana_env k = (if k = ''PAYMENT_CHAIN'' then ''Solana'' else if k = ''USDC_ADDRESS'' then ''N'' else sample_env k)"

theorem solana_settler_ready_witness:
  "\<exists>c s. Load sample_geth sample_solana (\<lambda>_. None) sample_solana_env = Inr c \<and>
     Settler_New sample_libs c = Inr (SOL s) \<and> Confirmed \<le> commitment s"
proof -
  have "is_ok (Load sample_geth sample_solana (\<lambda>_. None) sample_solana_env)" by code_simp
  then obtain c where c: "Load sample_geth sample_solana (\<lambda>_. None) sample_solana_env = Inr c"
    by (auto simp: is_ok_iff)
  have "map_sum (\<lambda>e. e) PaymentChain (Load sample_geth sample_solana (\<lambda>_. None) sample_solana_env) = Inr ''solana''"
    by code_simp
  with c have "PaymentChain c = ''solana''" by simp
  moreover have "\<forall>k m. FindAssociatedTokenAddress (solana_lib sample_libs) k m \<noteq> None"
    by (simp add: sample_libs_def sample_solana_def)
  ultimately show ?thesis
    using c solana_settler_ready [of sample_libs "\<lambda>_. None" sample_solana_env c] by (auto simp: sample_libs_def)
qed

subsection \<open>Which requests a transaction pays for\<close>

definition memo_texts :: "'w solana_rpc \<Rightarrow> Transaction \<Rightarrow> string list" where
  "memo_texts rpc tx = (case effects rpc tx (Instructions tx) of Some es \<Rightarrow> memos es | None \<Rightarrow> [])"

lemma valid_for_other_request:
  assumes "valid_transaction rpc s tx cost rid k"
  shows "valid_transaction rpc s tx cost' rid' k' \<longleftrightarrow>
    cost' = cost \<and> k' = k \<and> solanaMemo rid' \<in> set (memo_texts rpc tx)"
  using assms by (auto simp: valid_transaction_def memo_texts_def)

text \<open>C21: What binds a transfer to a request is its memos alone. A transaction that settled one request is
  settled for another, by whatever payload carries it there, exactly if the price is the same, the
  other request's memo is among its memos too, and the cluster takes the transaction and confirms it
  (in dry-run mode nothing is sent); the payer is then the same. So a transaction with one memo pays
  for one request only, but memos of other requests are not refused, and a transaction that carries
  two is as good for either.\<close>

theorem transfer_pays_each_memo:
  assumes "Solana_Settle sol rpc s w p cost rid = (Inr st, w1)" "solana_payload rpc p rid tx"
    and "solana_payload rpc p' rid' tx"
  shows "(Solana_Settle sol rpc s w' p' cost' rid' = (Inr st', w2) \<longleftrightarrow>
      cost' = cost \<and> solanaMemo rid' \<in> set (memo_texts rpc tx) \<and>
      confirmed_send rpc s w' tx (StTxHash st') w2 \<and> StPayer st' = StPayer st) \<and>
    (length (memo_texts rpc tx) = 1 \<and> Solana_Settle sol rpc s w' p' cost' rid' = (Inr st', w2) \<longrightarrow> rid' = rid)"
proof -
  have same: "tx1 = tx2" if "solana_payload rpc q r tx1" "solana_payload rpc q r tx2" for q r tx1 tx2
    using that by (auto simp: solana_payload_def)
  obtain k where k: "valid_transaction rpc s tx cost rid k" "StPayer st = PublicKey_String sol k"
    using assms(1,2) same unfolding Solana_Settle_Inr by blast
  have "Solana_Settle sol rpc s w' p' cost' rid' = (Inr st', w2) \<longleftrightarrow>
      (\<exists>k'. valid_transaction rpc s tx cost' rid' k' \<and> confirmed_send rpc s w' tx (StTxHash st') w2 \<and>
        StPayer st' = PublicKey_String sol k')"
    using assms(3) same unfolding Solana_Settle_Inr by blast
  then have iff: "Solana_Settle sol rpc s w' p' cost' rid' = (Inr st', w2) \<longleftrightarrow>
      cost' = cost \<and> solanaMemo rid' \<in> set (memo_texts rpc tx) \<and>
      confirmed_send rpc s w' tx (StTxHash st') w2 \<and> StPayer st' = StPayer st"
    unfolding valid_for_other_request [OF k(1)] k(2) by blast
  have own: "solanaMemo rid \<in> set (memo_texts rpc tx)" using valid_for_other_request [OF k(1), of cost rid k] k(1) by simp
  have "rid' = rid" if "length (memo_texts rpc tx) = 1" "solanaMemo rid' \<in> set (memo_texts rpc tx)"
    using that own by (auto simp: length_Suc_conv solanaMemo_def)
  then show ?thesis using iff by blast
qed

text \<open>
  A cluster that takes a transaction until it has processed it, in its third state, and a transaction
  with the memos of \<open>r\<close> and \<open>q\<close>: the second settlement starts right after the first was sent.
\<close>

definition two_memo_tx :: Transaction where
  "two_memo_tx = sample_tx\<lparr>Instructions := \<lparr>ProgramIDIndex = 2, AccountIndices = [], ixData = ''x402:q''\<rparr> # Instructions sample_tx\<rparr>"

definition two_memo_rpc :: "nat solana_rpc" where
  "two_memo_rpc = sample_solana_rpc\<lparr>TransactionFromBase64 := (\<lambda>s. Some two_memo_tx),
     SendTransaction := (\<lambda>w tx. if w < 3 then (Some (hd (Signatures tx)), Suc w) else (None, w))\<rparr>"

definition solana_payment :: "string \<Rightarrow> PaymentPayload" where
  "solana_payment rid = \<lparr>PayX402Version = 1, PayScheme = ''exact'', PayloadNetwork = ''solana:devnet'',
     Payload = json_object [(''type'', json_quote SolanaPayType), (''transaction'', json_quote ''AQID''),
       (''requestId'', json_quote rid)]\<rparr>"

definition live_solana_settler :: SolanaSettler where
  "live_solana_settler = sample_solana_settler\<lparr>scfg := sample_config\<lparr>DryRun := False\<rparr>\<rparr>"

theorem transfer_pays_each_memo_witness:
  "Solana_Settle sample_solana two_memo_rpc live_solana_settler 0 (solana_payment ''r'') 5 ''r'' =
     (Inr \<lparr>StTxHash = ''sig'', StPayer = ''P''\<rparr>, 4) \<and>
   Solana_Settle sample_solana two_memo_rpc live_solana_settler 1 (solana_payment ''q'') 5 ''q'' =
     (Inr \<lparr>StTxHash = ''sig'', StPayer = ''P''\<rparr>, 4)"
proof -
  let ?st = "\<lparr>StTxHash = ''sig'', StPayer = ''P''\<rparr>"
  have r: "Solana_Settle sample_solana two_memo_rpc live_solana_settler 0 (solana_payment ''r'') 5 ''r'' = (Inr ?st, 4)"
    by code_simp
  have "Unmarshal decode_ExactSolanaPayload (Payload (solana_payment ''r'')) zero_solana_payload =
      (\<lparr>SolType = SolanaPayType, Transaction = ''AQID'', SolRequestID = ''r''\<rparr>, False)"
    "Unmarshal decode_ExactSolanaPayload (Payload (solana_payment ''q'')) zero_solana_payload =
      (\<lparr>SolType = SolanaPayType, Transaction = ''AQID'', SolRequestID = ''q''\<rparr>, False)" by code_simp+
  then have pay: "solana_payload two_memo_rpc (solana_payment ''r'') ''r'' two_memo_tx"
    "solana_payload two_memo_rpc (solana_payment ''q'') ''q'' two_memo_tx"
    by (simp_all add: solana_payload_def two_memo_rpc_def)
  have memo: "solanaMemo ''q'' \<in> set (memo_texts two_memo_rpc two_memo_tx)" by code_simp
  have wait: "waitConfirmed two_memo_rpc live_solana_settler (ticks_left two_memo_rpc 2) 2 ''sig'' = (Inr (), 4)"
    by code_simp
  have "\<not> DryRun (scfg live_solana_settler)" by code_simp
  moreover have "SendTransaction two_memo_rpc 1 two_memo_tx = (Some ''sig'', 2)" "Signature_String two_memo_rpc ''sig'' = ''sig''"
    by code_simp+
  ultimately have "confirmed_send two_memo_rpc live_solana_settler 1 two_memo_tx ''sig'' 4"
    using wait by (simp add: confirmed_send_def)
  then show ?thesis
    using r transfer_pays_each_memo [OF r pay, of 1 5 ?st 4] memo by simp
qed

end
