(* ===== verification/Cache.thy ===== *)
theory Cache
  imports Pricing
begin

section \<open>The cache of staged responses\<close>

text \<open>
  The package \<open>internal/cache\<close> (\<open>cache.go\<close>): completed model responses wait here until the
  client pays. Every exported method takes the lock for its whole body, so it is one atomic step on
  the state. Times and durations are nanoseconds as integers; \<open>time.Now()\<close> is an argument. The
  background sweeper is the step \<open>sweep_tick\<close>, taken at every tick until \<open>Close\<close>. The
  function SHA-256 is a parameter: nothing here depends on more than its values.
\<close>

record Entry =
  Body :: string
  Status :: int
  ContentType :: string
  Cost :: int
  EntryUsage :: Usage
  EntryModel :: string
  CreatedAt :: int

record Cache =
  store :: "string \<rightharpoonup> Entry"
  ttl :: int
  stopped :: bool

definition second :: int where
  "second = 10 ^ 9"

definition New :: "int \<Rightarrow> Cache" where
  "New d = \<lparr>store = Map.empty, ttl = (if d \<le> 0 then 3 * 60 * second else d), stopped = False\<rparr>"

subsection \<open>Request ids\<close>

definition hex_digit :: "nat \<Rightarrow> char" where
  "hex_digit d = (if d < 10 then char_of (48 + d) else char_of (87 + d))"

definition HexEncode :: "string \<Rightarrow> string" where
  "HexEncode bs = concat (map (\<lambda>b. [hex_digit (code b div 16), hex_digit (code b mod 16)]) bs)"

definition RequestID :: "(string \<Rightarrow> string) \<Rightarrow> string \<Rightarrow> string" where
  "RequestID sha256 body = ''req_'' @ HexEncode (take 16 (sha256 body))"

subsection \<open>Operations\<close>

definition Store :: "Cache \<Rightarrow> int \<Rightarrow> string \<Rightarrow> Entry \<Rightarrow> Cache" where
  "Store c now rid e = c\<lparr>store := (store c)(rid \<mapsto> e\<lparr>CreatedAt := now\<rparr>)\<rparr>"

definition Get :: "Cache \<Rightarrow> int \<Rightarrow> string \<Rightarrow> Entry option" where
  "Get c now rid =
     (case store c rid of
        None \<Rightarrow> None
      | Some e \<Rightarrow> if ttl c < now - CreatedAt e then None else Some e)"

definition Delete :: "Cache \<Rightarrow> string \<Rightarrow> Cache" where
  "Delete c rid = c\<lparr>store := (store c)(rid := None)\<rparr>"

definition sweep_tick :: "Cache \<Rightarrow> int \<Rightarrow> Cache" where
  "sweep_tick c now =
     (if stopped c then c
      else c\<lparr>store := (\<lambda>k. case store c k of
                            None \<Rightarrow> None
                          | Some v \<Rightarrow> if ttl c < now - CreatedAt v then None else Some v)\<rparr>)"

text \<open>Closing the channel a second time panics: \<open>None\<close>.\<close>

definition Close :: "Cache \<Rightarrow> Cache option" where
  "Close c = (if stopped c then None else Some (c\<lparr>stopped := True\<rparr>))"

subsection \<open>Basic facts\<close>

lemma ttl_ops [simp]:
  "ttl (Store c now rid e) = ttl c" "ttl (Delete c rid) = ttl c" "ttl (sweep_tick c now) = ttl c"
  by (simp_all add: Store_def Delete_def sweep_tick_def)

lemma ttl_New_pos: "0 < ttl (New d)"
  by (simp add: New_def second_def)

lemma Get_Store_same:
  "Get (Store c now rid e) now' rid =
     (if ttl c < now' - now then None else Some (e\<lparr>CreatedAt := now\<rparr>))"
  by (simp add: Get_def Store_def)

lemma Get_Store_other: "rid' \<noteq> rid \<Longrightarrow> Get (Store c now rid e) now' rid' = Get c now' rid'"
  by (simp add: Get_def Store_def split: option.split)

lemma Get_Delete: "Get (Delete c rid) now rid' = (if rid' = rid then None else Get c now rid')"
  by (simp add: Get_def Delete_def split: option.split)

lemma Get_sweep: "now \<le> now' \<Longrightarrow> Get (sweep_tick c now) now' rid = Get c now' rid"
  by (auto simp: Get_def sweep_tick_def split: option.splits)

lemma Get_sweep_gone: "Get c now' rid = None \<Longrightarrow> Get (sweep_tick c now) now' rid = None"
  by (auto simp: Get_def sweep_tick_def split: option.splits if_splits)

lemma Get_expires: "Get c now rid = None \<Longrightarrow> now \<le> now' \<Longrightarrow> Get c now' rid = None"
  by (auto simp: Get_def split: option.splits if_splits)

lemma Get_fresh: "Get c now rid = Some e \<Longrightarrow> now - CreatedAt e \<le> ttl c"
  by (auto simp: Get_def split: option.splits if_splits)

subsection \<open>The contract of a staging area\<close>

text \<open>
  The calls the server makes, each at its time: those of the handlers, and the sweeper's. A run of
  calls is followed for any implementation of them.
\<close>

datatype 'e cache_call = CStore string 'e | CGet string | CDelete string | CSweep

fun call_step ::
    "('c \<Rightarrow> int \<Rightarrow> string \<Rightarrow> 'e \<Rightarrow> 'c) \<Rightarrow> ('c \<Rightarrow> string \<Rightarrow> 'c) \<Rightarrow> ('c \<Rightarrow> int \<Rightarrow> 'c) \<Rightarrow>
     'c \<Rightarrow> int \<Rightarrow> 'e cache_call \<Rightarrow> 'c" where
  "call_step put remove tick c now (CStore rid e) = put c now rid e"
| "call_step put remove tick c now (CGet rid) = c"
| "call_step put remove tick c now (CDelete rid) = remove c rid"
| "call_step put remove tick c now CSweep = tick c now"

fun after_calls ::
    "('c \<Rightarrow> int \<Rightarrow> string \<Rightarrow> 'e \<Rightarrow> 'c) \<Rightarrow> ('c \<Rightarrow> string \<Rightarrow> 'c) \<Rightarrow> ('c \<Rightarrow> int \<Rightarrow> 'c) \<Rightarrow>
     'c \<Rightarrow> (int \<times> 'e cache_call) list \<Rightarrow> 'c" where
  "after_calls put remove tick c [] = c"
| "after_calls put remove tick c ((now, call) # calls) =
     after_calls put remove tick (call_step put remove tick c now call) calls"

text \<open>A call that leaves the entry under \<open>rid\<close> alone, as far as fetches from \<open>now'\<close> on can tell.\<close>

fun spares :: "int \<Rightarrow> string \<Rightarrow> int \<times> 'e cache_call \<Rightarrow> bool" where
  "spares now' rid (t, CStore rid' e) \<longleftrightarrow> rid' \<noteq> rid"
| "spares now' rid (t, CGet rid') \<longleftrightarrow> True"
| "spares now' rid (t, CDelete rid') \<longleftrightarrow> rid' \<noteq> rid"
| "spares now' rid (t, CSweep) \<longleftrightarrow> t \<le> now'"

text \<open>
  What the relay relies on: an entry put under an id can be fetched while it lives, a removed
  one never, other ids are not disturbed, and housekeeping is invisible to later fetches and brings
  nothing back.
\<close>

locale staging =
  fixes put :: "'c \<Rightarrow> int \<Rightarrow> string \<Rightarrow> 'e \<Rightarrow> 'c"
    and fetch :: "'c \<Rightarrow> int \<Rightarrow> string \<Rightarrow> 'e option"
    and remove :: "'c \<Rightarrow> string \<Rightarrow> 'c"
    and tick :: "'c \<Rightarrow> int \<Rightarrow> 'c"
    and stamp :: "int \<Rightarrow> 'e \<Rightarrow> 'e"
    and life :: "'c \<Rightarrow> int"
  assumes fetch_put: "now' \<le> now + life c \<Longrightarrow> fetch (put c now rid e) now' rid = Some (stamp now e)"
    and fetch_put_other: "rid' \<noteq> rid \<Longrightarrow> fetch (put c now rid e) now' rid' = fetch c now' rid'"
    and fetch_remove: "fetch (remove c rid) now rid = None"
    and fetch_remove_other: "rid' \<noteq> rid \<Longrightarrow> fetch (remove c rid) now rid' = fetch c now rid'"
    and fetch_tick: "now \<le> now' \<Longrightarrow> fetch (tick c now) now' rid = fetch c now' rid"
    and fetch_tick_gone: "fetch c now' rid = None \<Longrightarrow> fetch (tick c now) now' rid = None"
begin

lemma undisturbed:
  "\<forall>x \<in> set calls. spares now' rid x \<Longrightarrow>
   fetch (after_calls put remove tick c calls) now' rid = fetch c now' rid"
proof (induction calls arbitrary: c)
  case (Cons x calls)
  obtain now call where x: "x = (now, call)" by (cases x)
  have "fetch (call_step put remove tick c now call) now' rid = fetch c now' rid"
    using Cons.prems x by (cases call) (auto simp: fetch_put_other fetch_remove_other fetch_tick)
  then show ?case using Cons x by simp
qed simp

text \<open>A staged entry survives sweeps and the traffic of other clients until its time is over.\<close>

lemma staged_survives:
  "now' \<le> now + life c \<Longrightarrow> \<forall>x \<in> set calls. spares now' rid x \<Longrightarrow>
   fetch (after_calls put remove tick (put c now rid e) calls) now' rid = Some (stamp now e)"
  by (simp add: undisturbed fetch_put)

text \<open>An entry that is gone stays away unless one is staged under the very same id.\<close>

lemma stays_gone:
  "fetch c now' rid = None \<Longrightarrow> \<forall>t e. (t, CStore rid e) \<notin> set calls \<Longrightarrow>
   fetch (after_calls put remove tick c calls) now' rid = None"
proof (induction calls arbitrary: c)
  case (Cons x calls)
  obtain now call where x: "x = (now, call)" by (cases x)
  have "fetch (call_step put remove tick c now call) now' rid = None"
  proof (cases call)
    case (CStore rid' e)
    then have "rid' \<noteq> rid" using Cons.prems(2) x by auto
    then show ?thesis using Cons.prems(1) CStore fetch_put_other [of rid rid'] by auto
  next
    case (CDelete rid')
    then show ?thesis using Cons.prems(1) by (cases "rid' = rid") (simp_all add: fetch_remove fetch_remove_other)
  qed (simp_all add: Cons.prems(1) fetch_tick_gone)
  then show ?case using Cons.IH Cons.prems(2) x by simp
qed simp

lemma removed_stays:
  "\<forall>t e. (t, CStore rid e) \<notin> set calls \<Longrightarrow> fetch (after_calls put remove tick (remove c rid) calls) now' rid = None"
  by (rule stays_gone [OF fetch_remove])

end

interpretation cache_area: staging Store Get Delete sweep_tick "\<lambda>now e. e\<lparr>CreatedAt := now\<rparr>" ttl
  by unfold_locales
    (simp_all add: Get_Store_same Get_Store_other Get_Delete Get_sweep Get_sweep_gone)

definition cache_run :: "Cache \<Rightarrow> (int \<times> Entry cache_call) list \<Rightarrow> Cache" where
  "cache_run = after_calls Store Delete sweep_tick"

text \<open>C38: A staged response can be fetched, unchanged, until its time to live is over: after any number
  of calls in any order, be they fetches, responses staged under other ids, deletions of other ids,
  or sweeps up to the time of the fetch.\<close>

theorem staged_response_survives:
  assumes "now' \<le> now + ttl c" "\<forall>x \<in> set calls. spares now' rid x"
  shows "Get (cache_run (Store c now rid e) calls) now' rid = Some (e\<lparr>CreatedAt := now\<rparr>)"
  unfolding cache_run_def using assms by (rule cache_area.staged_survives)

definition sample_entry :: Entry where
  "sample_entry = \<lparr>Body = ''{}'', Status = 200, ContentType = ''application/json'', Cost = 7,
     EntryUsage = \<lparr>PromptTokens = 1, CompletionTokens = 1, CachedTokens = 0\<rparr>,
     EntryModel = ''m'', CreatedAt = 0\<rparr>"

theorem staged_response_survives_witness:
  "Get (cache_run (Store (New 0) 5 ''a'' sample_entry)
       [(6, CStore ''b'' sample_entry), (7, CSweep), (8, CGet ''a''), (8, CDelete ''b''), (9, CSweep)]) 9 ''a'' =
     Some (sample_entry\<lparr>CreatedAt := 5\<rparr>)"
  by (rule staged_response_survives) (simp_all add: New_def second_def)

subsection \<open>Sweeping is invisible\<close>

text \<open>The answers of the \<open>Get\<close> calls of a run. The reference run leaves the sweeper out.\<close>

abbreviation cache_call_step :: "Cache \<Rightarrow> int \<Rightarrow> Entry cache_call \<Rightarrow> Cache" where
  "cache_call_step \<equiv> call_step Store Delete sweep_tick"

fun cache_answers :: "Cache \<Rightarrow> (int \<times> Entry cache_call) list \<Rightarrow> Entry option list" where
  "cache_answers c [] = []"
| "cache_answers c ((now, call) # rest) =
     (case call of CGet rid \<Rightarrow> [Get c now rid] | _ \<Rightarrow> []) @
     cache_answers (cache_call_step c now call) rest"

definition no_sweep :: "(int \<times> Entry cache_call) list \<Rightarrow> (int \<times> Entry cache_call) list" where
  "no_sweep = filter (\<lambda>(_, call). call \<noteq> CSweep)"

text \<open>The simulation relation: from \<open>now\<close> on, the two caches answer alike.\<close>

definition agree_from :: "int \<Rightarrow> Cache \<Rightarrow> Cache \<Rightarrow> bool" where
  "agree_from now c c' \<longleftrightarrow> ttl c = ttl c' \<and> (\<forall>t \<ge> now. \<forall>rid. Get c t rid = Get c' t rid)"

lemma agree_from_mono: "agree_from now c c' \<Longrightarrow> now \<le> now' \<Longrightarrow> agree_from now' c c'"
  by (auto simp: agree_from_def)

lemma agree_from_step:
  "agree_from now c c' \<Longrightarrow> call \<noteq> CSweep \<Longrightarrow>
   agree_from now (cache_call_step c now call) (cache_call_step c' now call)"
proof (cases call)
  case (CStore rid e)
  assume a: "agree_from now c c'"
  have "Get (Store c now rid e) t i = Get (Store c' now rid e) t i" if "now \<le> t" for t i
    using a that by (cases "i = rid") (simp_all add: agree_from_def Get_Store_same Get_Store_other)
  then show ?thesis using a CStore by (simp add: agree_from_def)
qed (simp_all add: agree_from_def Get_Delete)

lemma agree_from_sweep: "agree_from now c c' \<Longrightarrow> agree_from now (sweep_tick c now) c'"
  by (simp add: agree_from_def Get_sweep)

lemma cache_answers_agree:
  "agree_from start c c' \<Longrightarrow> sorted (map fst tr) \<Longrightarrow> \<forall>(t, _) \<in> set tr. start \<le> t \<Longrightarrow>
   cache_answers c tr = cache_answers c' (no_sweep tr)"
proof (induction tr arbitrary: c c' start)
  case (Cons tc rest)
  obtain now call where tc: "tc = (now, call)" by (cases tc)
  have a: "agree_from now c c'" using Cons.prems(1,3) tc by (auto intro: agree_from_mono)
  have later: "sorted (map fst rest)" "\<forall>(t, _) \<in> set rest. now \<le> t"
    using Cons.prems(2) tc by auto
  show ?case
  proof (cases "call = CSweep")
    case True
    then show ?thesis
      using Cons.IH [OF agree_from_sweep [OF a] later] tc by (simp add: no_sweep_def)
  next
    case False
    have "Get c now rid = Get c' now rid" for rid using a by (simp add: agree_from_def)
    then show ?thesis
      using Cons.IH [OF agree_from_step [OF a False] later] tc False
      by (cases call) (simp_all add: no_sweep_def)
  qed
qed (simp add: no_sweep_def)

text \<open>The background sweeper cannot be observed: over any run whose times do not decrease, every
  \<open>Get\<close> answers as it would if the sweeper never ran (expiry is decided by \<open>Get\<close> alone; the
  sweeper only frees memory).\<close>

theorem sweeper_invisible:
  assumes "sorted (map fst tr)"
  shows "cache_answers c tr = cache_answers c (no_sweep tr)"
proof (cases tr)
  case (Cons x xs)
  show ?thesis
  proof (rule cache_answers_agree [where start = "fst x"])
    show "agree_from (fst x) c c" by (simp add: agree_from_def)
    show "\<forall>(t, _) \<in> set tr. fst x \<le> t" using assms Cons by auto
  qed (rule assms)
qed (simp add: no_sweep_def)

theorem sweeper_invisible_witness:
  "cache_answers (New 10) [(0, CStore ''a'' sample_entry), (5, CSweep), (9, CGet ''a''), (11, CSweep), (12, CGet ''a'')] =
   [Some (sample_entry\<lparr>CreatedAt := 0\<rparr>), None]"
  by (subst sweeper_invisible)
    (simp_all add: no_sweep_def New_def Get_def Store_def sample_entry_def)

end
