(* ===== verification/Client.thy ===== *)
theory Client
  imports Settler Cache GoBase64
begin

section \<open>The paying client\<close>

text \<open>
  \<open>cmd/testpay/main.go\<close>, the client that pays a challenge end to end: how it writes the payment
  header, and that the server's decoders read back what it wrote.
\<close>

subsection \<open>The payment header\<close>

text \<open>
  The structs \<open>payment\<close>, \<open>exactPayload\<close> and \<open>authPayload\<close> of \<open>main\<close> have the fields and tags of the
  wire types; \<open>json.Marshal\<close> writes the fields in their order.
\<close>

definition Marshal_authorization :: "AuthorizationPayload \<Rightarrow> string" where
  "Marshal_authorization a = json_object
     [(''from'', json_quote (From a)), (''to'', json_quote (To a)), (''value'', json_quote (Value a)),
      (''validAfter'', json_quote (ValidAfter a)), (''validBefore'', json_quote (ValidBefore a)),
      (''nonce'', json_quote (Nonce a))]"

definition Marshal_evm_payload :: "ExactEvmPayload \<Rightarrow> string" where
  "Marshal_evm_payload p = json_object
     [(''signature'', json_quote (Signature p)), (''authorization'', Marshal_authorization (Authorization p))]"

definition Marshal_payment :: "int \<Rightarrow> string \<Rightarrow> string \<Rightarrow> string \<Rightarrow> string" where
  "Marshal_payment version scheme network payload = json_object
     [(''x402Version'', itoa version), (''scheme'', json_quote scheme), (''network'', json_quote network),
      (''payload'', payload)]"

subsection \<open>The server reads it back\<close>

lemma client_keys:
  "utf8_valid ''from''" "utf8_valid ''to''" "utf8_valid ''value''" "utf8_valid ''validAfter''"
  "utf8_valid ''validBefore''" "utf8_valid ''nonce''" "utf8_valid ''signature''" "utf8_valid ''authorization''"
  "utf8_valid ''x402Version''" "utf8_valid ''scheme''" "utf8_valid ''network''" "utf8_valid ''payload''"
  by code_simp+

text \<open>Folded names, so that the decoders' key tests are string comparisons.\<close>

lemma fold_client_keys:
  "fold_key ''from'' = ''FROM''" "fold_key ''to'' = ''TO''" "fold_key ''value'' = ''VALUE''"
  "fold_key ''validAfter'' = ''VALIDAFTER''" "fold_key ''validBefore'' = ''VALIDBEFORE''"
  "fold_key ''nonce'' = ''NONCE''" "fold_key ''signature'' = ''SIGNATURE''"
  "fold_key ''authorization'' = ''AUTHORIZATION''" "fold_key ''x402Version'' = ''X402VERSION''"
  "fold_key ''scheme'' = ''SCHEME''" "fold_key ''network'' = ''NETWORK''" "fold_key ''payload'' = ''PAYLOAD''"
  by code_simp+

definition authorization_utf8 :: "AuthorizationPayload \<Rightarrow> bool" where
  "authorization_utf8 a \<longleftrightarrow> utf8_valid (From a) \<and> utf8_valid (To a) \<and> utf8_valid (Value a) \<and>
     utf8_valid (ValidAfter a) \<and> utf8_valid (ValidBefore a) \<and> utf8_valid (Nonce a)"

definition authorization_members :: "AuthorizationPayload \<Rightarrow> (string \<times> string \<times> json) list" where
  "authorization_members a =
     [(''from'', json_quote (From a), JStr (From a)), (''to'', json_quote (To a), JStr (To a)),
      (''value'', json_quote (Value a), JStr (Value a)),
      (''validAfter'', json_quote (ValidAfter a), JStr (ValidAfter a)),
      (''validBefore'', json_quote (ValidBefore a), JStr (ValidBefore a)),
      (''nonce'', json_quote (Nonce a), JStr (Nonce a))]"

lemma encodes_authorization:
  "authorization_utf8 a \<Longrightarrow> encodes (Suc 0) (Marshal_authorization a) (JObj (authorization_members a))"
  using encodes_object [of "authorization_members a" 0]
  by (simp add: authorization_members_def Marshal_authorization_def client_keys encodes_string authorization_utf8_def
      del: utf8_valid.simps)

lemma decode_authorization_members:
  "decode_AuthorizationPayload (JObj (authorization_members a)) a0 = (a, False)"
  by (cases a) (simp add: decode_AuthorizationPayload_def decode_struct_def authorization_members_def is_field_def
      fold_client_keys decode_string_def del: fold_key.simps)

definition evm_payload_members :: "ExactEvmPayload \<Rightarrow> (string \<times> string \<times> json) list" where
  "evm_payload_members p =
     [(''signature'', json_quote (Signature p), JStr (Signature p)),
      (''authorization'', Marshal_authorization (Authorization p), JObj (authorization_members (Authorization p)))]"

lemma evm_payload_encodes:
  assumes "utf8_valid (Signature p)" "authorization_utf8 (Authorization p)"
  shows "\<forall>(k, t, v) \<in> set (evm_payload_members p). utf8_valid k \<and> encodes (Suc 0) t v"
  using assms encodes_authorization by (simp add: evm_payload_members_def client_keys encodes_string del: utf8_valid.simps)

lemma Marshal_evm_payload_members:
  "Marshal_evm_payload p = json_object (map (\<lambda>(k, t, v). (k, t)) (evm_payload_members p))"
  by (simp add: Marshal_evm_payload_def evm_payload_members_def)

lemma Unmarshal_evm_payload:
  assumes "utf8_valid (Signature p)" "authorization_utf8 (Authorization p)"
  shows "Unmarshal decode_ExactEvmPayload (Marshal_evm_payload p) p0 = (p, False)"
proof -
  have "json_parse (Marshal_evm_payload p) = Some (JObj (evm_payload_members p))"
    unfolding Marshal_evm_payload_members
    by (rule json_parse_object [OF _ evm_payload_encodes [OF assms]])
      (simp_all add: evm_payload_members_def max_nesting_def)
  then show ?thesis
    by (cases p) (simp add: Unmarshal_def decode_ExactEvmPayload_def decode_struct_def evm_payload_members_def
        is_field_def fold_client_keys decode_string_def decode_authorization_members
        del: fold_key.simps)
qed

lemma hd_utoa: "hd (utoa n) = CHR ''0'' \<Longrightarrow> n = 0"
proof (induction n rule: utoa.induct)
  case (1 n)
  have "digit n \<noteq> CHR ''0''" if "n < 10" "0 < n"
  proof
    assume "digit n = CHR ''0''"
    moreover have "digit 0 = CHR ''0''" by code_simp
    ultimately have "digit n = digit 0" by simp
    then have "digit_value (digit n) = digit_value (digit 0)" by simp
    then show False using that by simp
  qed
  then show ?case
    using 1 by (cases "n < 10") (auto simp: utoa.simps [of n] split: if_splits)
qed

lemma json_unsigned_utoa: "json_unsigned (utoa n) = Some (utoa n, [])"
proof -
  obtain c cs where u: "utoa n = c # cs" by (meson utoa_nonempty neq_Nil_conv)
  have d: "\<forall>x \<in> set (utoa n). is_digit x" using utoa_digits by blast
  then have t: "takeWhile is_digit (utoa n) = utoa n" "dropWhile is_digit (utoa n) = []"
    by (simp_all add: takeWhile_eq_all_conv dropWhile_eq_Nil_conv)
  have "num_int (utoa n) = Some (utoa n, [])"
  proof (cases "c = CHR ''0''")
    case True
    then have "n = 0" using hd_utoa [of n] u by simp
    then show ?thesis by (simp add: num_int_def)
  next
    case False
    then show ?thesis using t u by (simp add: num_int_def digits1_def)
  qed
  then show ?thesis by (simp add: json_unsigned_def num_frac_def num_exp_def)
qed

lemma encodes_itoa: "encodes d (itoa n) (JNum (itoa n))"
proof -
  have "\<not> HasPrefix (utoa m) ''-''" for m
    using utoa_digits [of "CHR ''-''" m] by (cases "utoa m") (auto simp: HasPrefix_def is_digit_def code_def)
  then have "json_num (itoa n) = Some (itoa n, [])"
    by (simp add: itoa_def json_num_def json_unsigned_utoa prepend_Some HasPrefix_def)
  then show ?thesis by (rule encodes_number)
qed

lemma Unmarshal_payment:
  assumes "int64_range version" "utf8_valid scheme" "utf8_valid network" "encodes d payload v" "d < max_nesting"
  shows "Unmarshal decode_PaymentPayload (Marshal_payment version scheme network payload) p0 =
    (\<lparr>PayX402Version = version, PayScheme = scheme, PayloadNetwork = network, Payload = payload\<rparr>, False)"
proof -
  let ?ms = "[(''x402Version'', itoa version, JNum (itoa version)), (''scheme'', json_quote scheme, JStr scheme),
     (''network'', json_quote network, JStr network), (''payload'', payload, v)]"
  have "json_parse (json_object (map (\<lambda>(k, t, v). (k, t)) ?ms)) = Some (JObj ?ms)"
    by (rule json_parse_object [where d = d])
      (use assms in \<open>auto simp: client_keys encodes_string encodes_itoa simp del: utf8_valid.simps\<close>)
  then have "json_parse (Marshal_payment version scheme network payload) = Some (JObj ?ms)"
    by (simp add: Marshal_payment_def)
  then show ?thesis
    by (simp add: Unmarshal_def decode_PaymentPayload_def decode_struct_def is_field_def fold_client_keys
        decode_string_def decode_int_def decode_raw_def ParseInt_itoa assms(1) del: fold_key.simps)
qed

end
