(* ===== verification/Database.thy ===== *)
theory Database
  imports Pricing
begin

section \<open>The SQLite store\<close>

text \<open>
  The package \<open>internal/store\<close> (\<open>db.go\<close>, \<open>payment.go\<close>, \<open>settings.go\<close>). The three
  tables of \<open>migrate\<close> are lists of rows in insertion order, and every statement has the meaning of
  its SQL text: unique indexes refuse an insert, \<open>ON CONFLICT\<close> updates or ignores, a transaction
  that is not committed leaves the tables as they were. The engine itself may fail at any statement:
  \<open>faults\<close> says, for the statements to come, which ones fail (once the list is used up, none does).
  \<open>CURRENT_TIMESTAMP\<close> is an argument, in seconds. Rows that \<open>ORDER BY\<close> does not separate come in
  insertion order here; SQL leaves their order open, and no property depends on it.
\<close>

subsection \<open>Tables\<close>

record Payment =
  PayID :: int
  FromAddress :: string
  ToAddress :: string
  Amount :: int
  TxHash :: string
  PayModel :: string
  PayPromptTokens :: int
  PayCompletionTokens :: int
  PayRequestID :: string
  PayNetwork :: string
  PayCreatedAt :: int

record SettingRow =
  skey :: string
  svalue :: string
  supdated_at :: int

record PriceRow =
  pmodel :: string
  pinput :: string
  poutput :: string
  pcached_input :: string
  pis_default :: int
  pupdated_at :: int

record DB =
  payments :: "Payment list"
  next_id :: int
  settings :: "SettingRow list"
  model_prices :: "PriceRow list"
  faults :: "bool list"

datatype db_error = EngineFailure | UniqueViolation string | IntegerOverflow | ModelRequired

definition empty_db :: DB where
  "empty_db = \<lparr>payments = [], next_id = 1, settings = [], model_prices = [], faults = []\<rparr>"

text \<open>One statement reaches the engine: does it fail, and what is left of the fault plan.\<close>

definition stmt :: "DB \<Rightarrow> bool \<times> DB" where
  "stmt d = (case faults d of [] \<Rightarrow> (False, d) | f # fs \<Rightarrow> (f, d\<lparr>faults := fs\<rparr>))"

subsection \<open>Payments\<close>

definition tx_key :: "Payment \<Rightarrow> string \<times> string" where
  "tx_key p = (PayNetwork p, TxHash p)"

definition Record :: "DB \<Rightarrow> int \<Rightarrow> Payment \<Rightarrow> (db_error + unit) \<times> DB" where
  "Record d now p =
     (case stmt d of (failed, d) \<Rightarrow>
        if failed then (Inl EngineFailure, d)
        else if has_key tx_key (tx_key p) (payments d) then (Inl (UniqueViolation ''network, tx_hash''), d)
        else if has_key PayRequestID (PayRequestID p) (payments d) then (Inl (UniqueViolation ''request_id''), d)
        else (Inr (), d\<lparr>payments := payments d @ [p\<lparr>PayID := next_id d, PayCreatedAt := now\<rparr>],
                         next_id := next_id d + 1\<rparr>))"

text \<open>SQLite adds in 64 bits; an overflow of the running sum is an error of the query.\<close>

fun sql_sum_from :: "int \<Rightarrow> int list \<Rightarrow> int option" where
  "sql_sum_from s [] = Some s"
| "sql_sum_from s (x # xs) = (if int64_range (s + x) then sql_sum_from (s + x) xs else None)"

definition sql_sum :: "int list \<Rightarrow> int option" where
  "sql_sum = sql_sum_from 0"

definition SumByAddress :: "DB \<Rightarrow> string \<Rightarrow> (db_error + int \<times> int) \<times> DB" where
  "SumByAddress d addr =
     (case stmt d of (failed, d) \<Rightarrow>
        if failed then (Inl EngineFailure, d)
        else
          let rows = filter (\<lambda>p. FromAddress p = addr) (payments d)
          in case sql_sum (map Amount rows) of
               None \<Rightarrow> (Inl IntegerOverflow, d)
             | Some s \<Rightarrow> (Inr (s, int (length rows)), d))"

definition clamp_limit :: "int \<Rightarrow> int" where
  "clamp_limit limit = (if limit \<le> 0 \<or> 200 < limit then 50 else limit)"

definition newest_first :: "Payment list \<Rightarrow> Payment list" where
  "newest_first rows = sort_key (\<lambda>p. - PayCreatedAt p) rows"

definition RecentByAddress :: "DB \<Rightarrow> string \<Rightarrow> int \<Rightarrow> (db_error + Payment list) \<times> DB" where
  "RecentByAddress d addr limit =
     (case stmt d of (failed, d) \<Rightarrow>
        if failed then (Inl EngineFailure, d)
        else (Inr (take (nat (clamp_limit limit))
                (newest_first (filter (\<lambda>p. FromAddress p = addr) (payments d)))), d))"

definition RecentPayments :: "DB \<Rightarrow> int \<Rightarrow> (db_error + Payment list) \<times> DB" where
  "RecentPayments d limit =
     (case stmt d of (failed, d) \<Rightarrow>
        if failed then (Inl EngineFailure, d)
        else (Inr (take (nat (clamp_limit limit)) (newest_first (payments d))), d))"

record Summary =
  TotalAmount :: int
  PaymentCount :: int
  UniquePayers :: int
  SumPromptTokens :: int
  SumCompletionTokens :: int

definition DB_Summary :: "DB \<Rightarrow> (db_error + Summary) \<times> DB" where
  "DB_Summary d =
     (case stmt d of (failed, d) \<Rightarrow>
        if failed then (Inl EngineFailure, d)
        else
          (case (sql_sum (map Amount (payments d)), sql_sum (map PayPromptTokens (payments d)),
                 sql_sum (map PayCompletionTokens (payments d))) of
             (Some a, Some p, Some c) \<Rightarrow>
               (Inr \<lparr>TotalAmount = a, PaymentCount = int (length (payments d)),
                     UniquePayers = int (card (set (map FromAddress (payments d)))),
                     SumPromptTokens = p, SumCompletionTokens = c\<rparr>, d)
           | _ \<Rightarrow> (Inl IntegerOverflow, d)))"

subsection \<open>Settings\<close>

definition GetSetting :: "DB \<Rightarrow> string \<Rightarrow> (db_error + string \<times> bool) \<times> DB" where
  "GetSetting d key =
     (case stmt d of (failed, d) \<Rightarrow>
        if failed then (Inl EngineFailure, d)
        else case lookup_by skey key (settings d) of
          Some r \<Rightarrow> (Inr (svalue r, True), d)
        | None \<Rightarrow> (Inr ('''', False), d))"

definition SetSetting :: "DB \<Rightarrow> int \<Rightarrow> string \<Rightarrow> string \<Rightarrow> (db_error + unit) \<times> DB" where
  "SetSetting d now key v =
     (case stmt d of (failed, d) \<Rightarrow>
        if failed then (Inl EngineFailure, d)
        else (Inr (), d\<lparr>settings :=
                upsert_by skey \<lparr>skey = key, svalue = v, supdated_at = now\<rparr> (settings d)\<rparr>))"

subsection \<open>Model prices\<close>

definition boolToInt :: "bool \<Rightarrow> int" where
  "boolToInt v = (if v then 1 else 0)"

definition row_of_entry :: "int \<Rightarrow> ModelPriceEntry \<Rightarrow> PriceRow" where
  "row_of_entry now e =
     \<lparr>pmodel = Model e, pinput = Input e, poutput = Output e, pcached_input = CachedInput e,
      pis_default = boolToInt (IsDefault e), pupdated_at = now\<rparr>"

definition entry_of_row :: "PriceRow \<Rightarrow> ModelPriceEntry" where
  "entry_of_row r =
     \<lparr>Model = pmodel r, Input = pinput r, Output = poutput r, CachedInput = pcached_input r,
      IsDefault = (pis_default r \<noteq> 0)\<rparr>"

text \<open>
  A transaction: \<open>Begin\<close>, the body, \<open>Commit\<close>. Unless all three succeed the deferred
  \<open>Rollback\<close> restores the tables.
\<close>

definition in_tx :: "DB \<Rightarrow> (DB \<Rightarrow> (db_error + unit) \<times> DB) \<Rightarrow> (db_error + unit) \<times> DB" where
  "in_tx d body =
     (case stmt d of (failed, d0) \<Rightarrow>
        if failed then (Inl EngineFailure, d0)
        else case body d0 of
          (Inl e, d1) \<Rightarrow> (Inl e, d0\<lparr>faults := faults d1\<rparr>)
        | (Inr _, d1) \<Rightarrow>
            (case stmt d1 of (failed, d2) \<Rightarrow>
               if failed then (Inl EngineFailure, d0\<lparr>faults := faults d2\<rparr>) else (Inr (), d2)))"

fun bootstrap_rows :: "int \<Rightarrow> ModelPriceEntry list \<Rightarrow> DB \<Rightarrow> (db_error + unit) \<times> DB" where
  "bootstrap_rows now [] d = (Inr (), d)"
| "bootstrap_rows now (entry # entries) d =
     (case stmt d of (failed, d) \<Rightarrow>
        if failed then (Inl EngineFailure, d)
        else bootstrap_rows now entries
               (d\<lparr>model_prices := insert_new_by pmodel (row_of_entry now entry) (model_prices d)\<rparr>))"

definition BootstrapDefaultPrices :: "DB \<Rightarrow> int \<Rightarrow> ModelPriceEntry list \<Rightarrow> (db_error + unit) \<times> DB" where
  "BootstrapDefaultPrices d now entries = in_tx d (bootstrap_rows now entries)"

definition ListModelPrices :: "DB \<Rightarrow> (db_error + ModelPriceEntry list) \<times> DB" where
  "ListModelPrices d =
     (case stmt d of (failed, d) \<Rightarrow>
        if failed then (Inl EngineFailure, d)
        else (Inr (map entry_of_row (sort_key pmodel (model_prices d))), d))"

definition UpsertModelPrice :: "DB \<Rightarrow> int \<Rightarrow> ModelPriceEntry \<Rightarrow> (db_error + unit) \<times> DB" where
  "UpsertModelPrice d now entry =
     (if Model entry = [] then (Inl ModelRequired, d)
      else case stmt d of (failed, d) \<Rightarrow>
        if failed then (Inl EngineFailure, d)
        else (Inr (), d\<lparr>model_prices := upsert_by pmodel (row_of_entry now entry) (model_prices d)\<rparr>))"

definition DeleteModelPrice :: "DB \<Rightarrow> string \<Rightarrow> (db_error + unit) \<times> DB" where
  "DeleteModelPrice d model =
     (case stmt d of (failed, d) \<Rightarrow>
        if failed then (Inl EngineFailure, d)
        else (Inr (), d\<lparr>model_prices := delete_by pmodel model (model_prices d)\<rparr>))"

fun insert_rows :: "int \<Rightarrow> ModelPriceEntry list \<Rightarrow> DB \<Rightarrow> (db_error + unit) \<times> DB" where
  "insert_rows now [] d = (Inr (), d)"
| "insert_rows now (entry # entries) d =
     (case stmt d of (failed, d) \<Rightarrow>
        if failed then (Inl EngineFailure, d)
        else if has_key pmodel (Model entry) (model_prices d) then (Inl (UniqueViolation ''model''), d)
        else insert_rows now entries
               (d\<lparr>model_prices := model_prices d @ [row_of_entry now entry]\<rparr>))"

definition ReplaceModelPrices :: "DB \<Rightarrow> int \<Rightarrow> ModelPriceEntry list \<Rightarrow> (db_error + unit) \<times> DB" where
  "ReplaceModelPrices d now entries =
     in_tx d (\<lambda>d.
       case stmt d of (failed, d) \<Rightarrow>
         if failed then (Inl EngineFailure, d)
         else insert_rows now entries (d\<lparr>model_prices := []\<rparr>))"

subsection \<open>Statements and transactions\<close>

text \<open>The tables without the fault plan.\<close>

definition tables :: "DB \<Rightarrow> DB" where
  "tables d = d\<lparr>faults := []\<rparr>"

lemma stmt_tables: "stmt d = (f, d') \<Longrightarrow> \<exists>fs. d' = d\<lparr>faults := fs\<rparr>"
  by (cases "faults d") (auto simp: stmt_def intro: exI [of _ "[]"])

lemma stmt_ok [simp]: "faults d = [] \<Longrightarrow> stmt d = (False, d)"
  by (simp add: stmt_def)

lemma tables_faults [simp]: "tables (d\<lparr>faults := fs\<rparr>) = tables d"
  by (simp add: tables_def)

lemma tables_eqD:
  "tables d = tables d' \<Longrightarrow> payments d = payments d' \<and> next_id d = next_id d' \<and>
   settings d = settings d' \<and> model_prices d = model_prices d'"
  unfolding tables_def by (cases d; cases d') simp

lemma in_tx_Inl: "in_tx d body = (Inl e, d') \<Longrightarrow> tables d' = tables d"
  by (auto simp: in_tx_def split: prod.splits sum.splits if_splits dest!: stmt_tables)

lemma in_tx_Inr:
  "in_tx d body = (Inr (), d') \<Longrightarrow> \<exists>fs d1 fs'. body (d\<lparr>faults := fs\<rparr>) = (Inr (), d1) \<and> d' = d1\<lparr>faults := fs'\<rparr>"
  by (auto simp: in_tx_def split: prod.splits sum.splits if_splits dest!: stmt_tables)

subsection \<open>The writes of the store, and the invariant they keep\<close>

datatype db_call =
    CRecord Payment
  | CSetSetting string string
  | CBootstrap "ModelPriceEntry list"
  | CUpsert ModelPriceEntry
  | CDeletePrice string
  | CReplace "ModelPriceEntry list"

fun db_call_step :: "DB \<Rightarrow> int \<Rightarrow> db_call \<Rightarrow> (db_error + unit) \<times> DB" where
  "db_call_step d now (CRecord p) = Record d now p"
| "db_call_step d now (CSetSetting k v) = SetSetting d now k v"
| "db_call_step d now (CBootstrap es) = BootstrapDefaultPrices d now es"
| "db_call_step d now (CUpsert e) = UpsertModelPrice d now e"
| "db_call_step d now (CDeletePrice m) = DeleteModelPrice d m"
| "db_call_step d now (CReplace es) = ReplaceModelPrices d now es"

fun db_run :: "DB \<Rightarrow> (int \<times> db_call) list \<Rightarrow> DB" where
  "db_run d [] = d"
| "db_run d ((now, call) # rest) = db_run (snd (db_call_step d now call)) rest"

definition db_wf :: "DB \<Rightarrow> bool" where
  "db_wf d \<longleftrightarrow>
     distinct (map PayRequestID (payments d)) \<and> distinct (map tx_key (payments d)) \<and>
     sorted_wrt (<) (map PayID (payments d)) \<and> (\<forall>p \<in> set (payments d). PayID p < next_id d) \<and>
     distinct (map skey (settings d)) \<and> distinct (map pmodel (model_prices d))"

lemma db_wf_tables: "tables d = tables d' \<Longrightarrow> db_wf d = db_wf d'"
  by (auto dest!: tables_eqD simp: db_wf_def)

lemma db_wf_faults [simp]: "db_wf (d\<lparr>faults := fs\<rparr>) = db_wf d"
  by (simp add: db_wf_def)

lemma db_wf_Record: "db_wf d \<Longrightarrow> db_wf (snd (Record d now p))"
  by (auto simp: Record_def db_wf_def has_key_iff tx_key_def sorted_wrt_append
      split: prod.splits dest!: stmt_tables intro: less_imp_le)

lemma db_wf_SetSetting: "db_wf d \<Longrightarrow> db_wf (snd (SetSetting d now k v))"
  by (auto simp: SetSetting_def db_wf_def table_simps split: prod.splits dest!: stmt_tables)

lemma db_wf_Upsert: "db_wf d \<Longrightarrow> db_wf (snd (UpsertModelPrice d now e))"
  by (auto simp: UpsertModelPrice_def db_wf_def table_simps split: prod.splits dest!: stmt_tables)

lemma db_wf_DeletePrice: "db_wf d \<Longrightarrow> db_wf (snd (DeleteModelPrice d m))"
  by (auto simp: DeleteModelPrice_def db_wf_def table_simps split: prod.splits dest!: stmt_tables)

lemma db_wf_bootstrap_rows: "db_wf d \<Longrightarrow> db_wf (snd (bootstrap_rows now es d))"
proof (induction es arbitrary: d)
  case (Cons e es)
  obtain f d0 where s: "stmt d = (f, d0)" by (cases "stmt d")
  then obtain fs where d0: "d0 = d\<lparr>faults := fs\<rparr>" using stmt_tables by blast
  have "db_wf (d0\<lparr>model_prices := insert_new_by pmodel (row_of_entry now e) (model_prices d0)\<rparr>)"
    using Cons.prems by (simp add: d0 db_wf_def table_simps)
  then show ?case using Cons s d0 by auto
qed simp

lemma db_wf_insert_rows: "db_wf d \<Longrightarrow> db_wf (snd (insert_rows now es d))"
proof (induction es arbitrary: d)
  case (Cons e es)
  obtain f d0 where s: "stmt d = (f, d0)" by (cases "stmt d")
  then obtain fs where d0: "d0 = d\<lparr>faults := fs\<rparr>" using stmt_tables by blast
  have "db_wf (d0\<lparr>model_prices := model_prices d0 @ [row_of_entry now e]\<rparr>)"
    if "\<not> has_key pmodel (Model e) (model_prices d)"
    using Cons.prems that by (auto simp: d0 db_wf_def has_key_iff row_of_entry_def)
  then show ?case using Cons s d0 by auto
qed simp

lemma db_wf_in_tx:
  assumes "db_wf d" "\<And>d. db_wf d \<Longrightarrow> db_wf (snd (body d))"
  shows "db_wf (snd (in_tx d body))"
proof (cases "fst (in_tx d body)")
  case (Inl e)
  then have "tables (snd (in_tx d body)) = tables d"
    by (intro in_tx_Inl [of d body e]) (simp add: prod_eq_iff)
  then show ?thesis using assms(1) db_wf_tables by blast
next
  case (Inr u)
  then have "in_tx d body = (Inr (), snd (in_tx d body))" by (simp add: prod_eq_iff)
  then obtain fs d1 fs' where "body (d\<lparr>faults := fs\<rparr>) = (Inr (), d1)"
    "snd (in_tx d body) = d1\<lparr>faults := fs'\<rparr>" using in_tx_Inr by blast
  then show ?thesis using assms(2) [of "d\<lparr>faults := fs\<rparr>"] assms(1) by simp
qed

lemma db_wf_step: "db_wf d \<Longrightarrow> db_wf (snd (db_call_step d now call))"
proof (cases call)
  case (CReplace es)
  assume wf: "db_wf d"
  have "db_wf (snd (case stmt d of (failed, d) \<Rightarrow>
         if failed then (Inl EngineFailure, d) else insert_rows now es (d\<lparr>model_prices := []\<rparr>)))"
    if "db_wf d" for d
    using that db_wf_insert_rows by (auto simp: db_wf_def split: prod.splits dest!: stmt_tables)
  then show ?thesis using wf CReplace by (simp add: ReplaceModelPrices_def db_wf_in_tx)
qed (simp_all add: db_wf_Record BootstrapDefaultPrices_def db_wf_in_tx db_wf_bootstrap_rows
    db_wf_SetSetting db_wf_Upsert db_wf_DeletePrice)

text \<open>C34: Whatever the server writes, in whatever order and wherever the engine fails, no two
  payments share a request id or a transaction of a network, row ids grow, and settings and prices
  have one row per key.\<close>

theorem store_invariant: "db_wf (db_run (empty_db\<lparr>faults := fs\<rparr>) calls)"
proof -
  have "db_wf d \<Longrightarrow> db_wf (db_run d calls)" for d
    by (induction d calls rule: db_run.induct) (auto dest: db_wf_step)
  moreover have "db_wf (empty_db\<lparr>faults := fs\<rparr>)" by (simp add: db_wf_def empty_db_def)
  ultimately show ?thesis .
qed

lemma write_Inl_tables:
  assumes "db_call_step d now call = (Inl e, d')"
  shows "tables d' = tables d"
proof (cases call)
  case (CRecord p)
  then show ?thesis using assms by (auto simp: Record_def split: prod.splits if_splits dest!: stmt_tables)
next
  case (CReplace es)
  then show ?thesis using assms by (simp add: ReplaceModelPrices_def in_tx_Inl)
qed (use assms in \<open>auto simp: SetSetting_def BootstrapDefaultPrices_def UpsertModelPrice_def
      DeleteModelPrice_def in_tx_Inl split: prod.splits if_splits dest!: stmt_tables\<close>)

text \<open>C35: A write that returns an error leaves every table as it was: single statements are atomic,
  and the two price transactions roll back wherever they break off.\<close>

theorem failed_write_no_effect:
  assumes "db_call_step d now call = (Inl e, d')"
  shows "tables d' = tables d"
  using assms by (rule write_Inl_tables)

theorem failed_write_no_effect_witness:
  "let d = empty_db\<lparr>faults := [False, False, False, True],
             model_prices := [row_of_entry 0 \<lparr>Model = ''m'', Input = ''1'', Output = ''2'', CachedInput = '''', IsDefault = False\<rparr>]\<rparr>
   in tables (snd (db_call_step d 9 (CReplace DefaultEntries))) = tables d"
proof -
  define d where "d = empty_db\<lparr>faults := [False, False, False, True],
    model_prices := [row_of_entry 0 \<lparr>Model = ''m'', Input = ''1'', Output = ''2'', CachedInput = '''', IsDefault = False\<rparr>]\<rparr>"
  have "fst (db_call_step d 9 (CReplace DefaultEntries)) = Inl EngineFailure"
    unfolding d_def by code_simp
  then have "db_call_step d 9 (CReplace DefaultEntries) =
      (Inl EngineFailure, snd (db_call_step d 9 (CReplace DefaultEntries)))"
    by (simp add: prod_eq_iff)
  from failed_write_no_effect [OF this] show ?thesis unfolding d_def Let_def .
qed

subsection \<open>The ledger\<close>

text \<open>The payments a run of the store accepts, in order: those for which \<open>Record\<close> returned nil.\<close>

fun accepted :: "DB \<Rightarrow> (int \<times> db_call) list \<Rightarrow> Payment list" where
  "accepted d [] = []"
| "accepted d ((now, call) # rest) =
     (case call of CRecord p \<Rightarrow> if is_ok (fst (Record d now p)) then [p] else [] | _ \<Rightarrow> []) @
     accepted (snd (db_call_step d now call)) rest"

text \<open>What a row keeps of the payment it records.\<close>

definition payment_core :: "Payment \<Rightarrow> Payment" where
  "payment_core p = p\<lparr>PayID := 0, PayCreatedAt := 0\<rparr>"

lemma payment_core_fields [simp]:
  "FromAddress (payment_core p) = FromAddress p" "Amount (payment_core p) = Amount p"
  by (simp_all add: payment_core_def)

lemma payments_bootstrap_rows: "payments (snd (bootstrap_rows now es d)) = payments d"
  by (induction now es d rule: bootstrap_rows.induct) (auto split: prod.splits dest!: stmt_tables)

lemma payments_insert_rows: "payments (snd (insert_rows now es d)) = payments d"
  by (induction now es d rule: insert_rows.induct) (auto split: prod.splits dest!: stmt_tables)

lemma payments_in_tx:
  assumes "\<And>d. payments (snd (body d)) = payments d"
  shows "payments (snd (in_tx d body)) = payments d"
proof (cases "fst (in_tx d body)")
  case (Inl e)
  then have "tables (snd (in_tx d body)) = tables d"
    by (intro in_tx_Inl [of d body e]) (simp add: prod_eq_iff)
  then show ?thesis by (blast dest: tables_eqD)
next
  case (Inr u)
  then have "in_tx d body = (Inr (), snd (in_tx d body))" by (simp add: prod_eq_iff)
  then obtain fs d1 fs' where "body (d\<lparr>faults := fs\<rparr>) = (Inr (), d1)"
    "snd (in_tx d body) = d1\<lparr>faults := fs'\<rparr>" using in_tx_Inr by blast
  then show ?thesis using assms [of "d\<lparr>faults := fs\<rparr>"] by simp
qed

lemma payments_step:
  "map payment_core (payments (snd (db_call_step d now call))) =
   map payment_core (payments d @ accepted d [(now, call)])"
proof (cases call)
  case (CRecord p)
  then show ?thesis
    by (auto simp: Record_def payment_core_def split: prod.splits dest!: stmt_tables)
next
  case (CReplace es)
  have "payments (snd (case stmt d of (f, d) \<Rightarrow> if f then (Inl EngineFailure, d)
          else insert_rows now es (d\<lparr>model_prices := []\<rparr>))) = payments d" for d
    by (auto simp: payments_insert_rows split: prod.splits dest!: stmt_tables)
  with CReplace show ?thesis by (simp add: ReplaceModelPrices_def payments_in_tx)
qed (auto simp: SetSetting_def BootstrapDefaultPrices_def UpsertModelPrice_def DeleteModelPrice_def
      payments_in_tx payments_bootstrap_rows split: prod.splits dest!: stmt_tables)

lemma payments_run:
  "map payment_core (payments (db_run d calls)) = map payment_core (payments d @ accepted d calls)"
proof (induction d calls rule: db_run.induct)
  case (2 d now call rest)
  then show ?case using payments_step [of d now call] by simp
qed simp

lemma sql_sum_from_exact:
  "\<forall>x \<in> set xs. 0 \<le> x \<Longrightarrow> 0 \<le> s \<Longrightarrow> s + sum_list xs < 2 ^ 63 \<Longrightarrow>
   sql_sum_from s xs = Some (s + sum_list xs)"
proof (induction xs arbitrary: s)
  case (Cons x xs)
  then have "0 \<le> sum_list xs" by (simp add: sum_list_nonneg)
  with Cons show ?case by (simp add: int64_range_def algebra_simps)
qed simp

lemma filter_payment_core:
  "map payment_core xs = map payment_core ys \<Longrightarrow>
   map Amount (filter (\<lambda>p. FromAddress p = a) xs) = map Amount (filter (\<lambda>p. FromAddress p = a) ys)"
proof (induction xs arbitrary: ys)
  case (Cons x xs)
  then obtain y ys' where ys: "ys = y # ys'" "payment_core x = payment_core y"
    "map payment_core xs = map payment_core ys'" by (cases ys) auto
  then have "FromAddress x = FromAddress y" "Amount x = Amount y"
    using payment_core_fields by metis+
  then show ?case using Cons.IH [OF ys(3)] ys(1) by simp
qed simp

text \<open>C37: The balance endpoint's figures are the ledger's: after any run, the sum and the count
  stored for an address are those of the payments of that address that \<open>Record\<close> accepted, as long
  as the sum fits 64 bits (beyond that the query fails).\<close>

theorem balance_is_ledger:
  fixes calls :: "(int \<times> db_call) list" and plan :: "bool list"
  defines "d \<equiv> db_run (empty_db\<lparr>faults := plan\<rparr>) calls"
    and "mine \<equiv> \<lambda>a. filter (\<lambda>p. FromAddress p = a) (accepted (empty_db\<lparr>faults := plan\<rparr>) calls)"
  assumes "\<forall>p \<in> set (mine addr). 0 \<le> Amount p" "sum_list (map Amount (mine addr)) < 2 ^ 63"
    and "faults d = []"
  shows "SumByAddress d addr = (Inr (sum_list (map Amount (mine addr)), int (length (mine addr))), d)"
proof -
  let ?rows = "filter (\<lambda>p. FromAddress p = addr) (payments d)"
  have "map payment_core (payments d) = map payment_core (accepted (empty_db\<lparr>faults := plan\<rparr>) calls)"
    using payments_run [of "empty_db\<lparr>faults := plan\<rparr>" calls] by (simp add: d_def empty_db_def)
  then have rows: "map Amount ?rows = map Amount (mine addr)"
    unfolding mine_def by (rule filter_payment_core)
  then have "length ?rows = length (mine addr)" by (metis length_map)
  moreover have "sql_sum (map Amount ?rows) = Some (sum_list (map Amount (mine addr)))"
    using assms(3,4) unfolding rows sql_sum_def by (subst sql_sum_from_exact) auto
  ultimately show ?thesis using assms(5) by (simp add: SumByAddress_def Let_def)
qed

definition sample_payment :: "string \<Rightarrow> int \<Rightarrow> string \<Rightarrow> string \<Rightarrow> Payment" where
  "sample_payment addr amount tx rid =
     \<lparr>PayID = 0, FromAddress = addr, ToAddress = ''0x2'', Amount = amount, TxHash = tx,
      PayModel = ''m'', PayPromptTokens = 1, PayCompletionTokens = 1, PayRequestID = rid,
      PayNetwork = ''eip155:84532'', PayCreatedAt = 0\<rparr>"

definition sample_calls :: "(int \<times> db_call) list" where
  "sample_calls =
     [(1, CRecord (sample_payment ''0xA'' 5 ''t1'' ''r1'')), (2, CRecord (sample_payment ''0xB'' 9 ''t2'' ''r2'')),
      (3, CRecord (sample_payment ''0xA'' 7 ''t3'' ''r1'')), (4, CRecord (sample_payment ''0xA'' 8 ''t4'' ''r4''))]"

theorem balance_is_ledger_witness:
  "fst (SumByAddress (db_run (empty_db\<lparr>faults := [False]\<rparr>) sample_calls) ''0xA'') = Inr (13, 2)"
proof -
  have a: "filter (\<lambda>p. FromAddress p = ''0xA'') (accepted (empty_db\<lparr>faults := [False]\<rparr>) sample_calls) =
      [sample_payment ''0xA'' 5 ''t1'' ''r1'', sample_payment ''0xA'' 8 ''t4'' ''r4'']" by code_simp
  have f: "faults (db_run (empty_db\<lparr>faults := [False]\<rparr>) sample_calls) = []" by code_simp
  show ?thesis
    using balance_is_ledger [of "''0xA''" "[False]" sample_calls] unfolding a
    by (simp add: f sample_payment_def)
qed

subsection \<open>Recent payments\<close>

lemma newest_first_sorted: "sorted_wrt (\<lambda>p q. PayCreatedAt q \<le> PayCreatedAt p) (newest_first ps)"
proof -
  have "sorted (map (\<lambda>p. - PayCreatedAt p) (newest_first ps))"
    unfolding newest_first_def by (rule sorted_sort_key)
  then show ?thesis by (simp add: sorted_map)
qed

text \<open>The listing of an address holds only its own payments, newest first, never more than 200
  (50 when the limit is out of range), and leaves out none newer than one it shows.\<close>

theorem recent_payments_spec:
  fixes addr :: string
  assumes "faults d = []"
  defines "mine \<equiv> filter (\<lambda>p. FromAddress p = addr) (payments d)"
  shows "\<exists>out omitted. RecentByAddress d addr limit = (Inr out, d) \<and>
     mset mine = mset out + mset omitted \<and> length out = min (nat (clamp_limit limit)) (length mine) \<and>
     length out \<le> 200 \<and> sorted_wrt (\<lambda>p q. PayCreatedAt q \<le> PayCreatedAt p) out \<and>
     (\<forall>p \<in> set out. \<forall>q \<in> set omitted. PayCreatedAt q \<le> PayCreatedAt p)"
proof (intro exI conjI)
  define n where "n = nat (clamp_limit limit)"
  let ?s = "newest_first mine"
  show "RecentByAddress d addr limit = (Inr (take n ?s), d)"
    using assms(1) by (simp add: RecentByAddress_def mine_def n_def)
  have split: "take n ?s @ drop n ?s = ?s" by simp
  show "mset mine = mset (take n ?s) + mset (drop n ?s)"
    using arg_cong [OF split, of mset] unfolding mset_append by (simp add: newest_first_def)
  have len: "length ?s = length mine" by (simp add: newest_first_def)
  then show "length (take n ?s) = min (nat (clamp_limit limit)) (length mine)"
    by (simp add: n_def min.commute)
  moreover have "nat (clamp_limit limit) \<le> 200" by (auto simp: clamp_limit_def)
  ultimately show "length (take n ?s) \<le> 200" by linarith
  have "sorted_wrt (\<lambda>p q. PayCreatedAt q \<le> PayCreatedAt p) (take n ?s @ drop n ?s)"
    unfolding split by (rule newest_first_sorted)
  then have sorted: "sorted_wrt (\<lambda>p q. PayCreatedAt q \<le> PayCreatedAt p) (take n ?s) \<and>
      (\<forall>p \<in> set (take n ?s). \<forall>q \<in> set (drop n ?s). PayCreatedAt q \<le> PayCreatedAt p)"
    unfolding sorted_wrt_append by blast
  then show "sorted_wrt (\<lambda>p q. PayCreatedAt q \<le> PayCreatedAt p) (take n ?s)" ..
  from sorted show "\<forall>p \<in> set (take n ?s). \<forall>q \<in> set (drop n ?s). PayCreatedAt q \<le> PayCreatedAt p" ..
qed

theorem recent_payments_spec_witness:
  "\<exists>out (omitted :: Payment list). RecentByAddress (db_run empty_db sample_calls) ''0xA'' 1 =
      (Inr out, db_run empty_db sample_calls) \<and> length out = 1 \<and> length omitted = 1 \<and>
      (\<forall>p \<in> set out. \<forall>q \<in> set omitted. PayCreatedAt q \<le> PayCreatedAt p)"
proof -
  let ?d = "db_run empty_db sample_calls"
  let ?mine = "filter (\<lambda>p. FromAddress p = ''0xA'') (payments ?d)"
  have f: "faults ?d = []" and n: "length ?mine = 2" by code_simp+
  obtain out omitted where r: "RecentByAddress ?d ''0xA'' 1 = (Inr out, ?d)"
    "mset ?mine = mset out + mset omitted" "length out = 1"
    "\<forall>p \<in> set out. \<forall>q \<in> set omitted. PayCreatedAt q \<le> PayCreatedAt p"
    using recent_payments_spec [OF f, of "''0xA''" 1] n by (auto simp: clamp_limit_def)
  moreover have "size (mset ?mine) = 2" using n by (simp only: size_mset)
  then have "length omitted = 1" using r(2,3) by simp
  ultimately show ?thesis by blast
qed

subsection \<open>Settings and prices as maps\<close>

text \<open>
  The abstract views: a setting or a price per key. A successful write acts on them as the
  corresponding map operation, and the reads return them.
\<close>

definition setting :: "DB \<Rightarrow> string \<Rightarrow> string option" where
  "setting d k = map_option svalue (lookup_by skey k (settings d))"

definition catalog :: "DB \<Rightarrow> string \<Rightarrow> ModelPriceEntry option" where
  "catalog d m = map_option entry_of_row (lookup_by pmodel m (model_prices d))"

definition entries_map :: "ModelPriceEntry list \<Rightarrow> string \<Rightarrow> ModelPriceEntry option" where
  "entries_map es = map_of (map (\<lambda>e. (Model e, e)) es)"

fun catalog_step :: "db_call \<Rightarrow> (string \<Rightarrow> ModelPriceEntry option) \<Rightarrow> string \<Rightarrow> ModelPriceEntry option" where
  "catalog_step (CUpsert e) m = m(Model e \<mapsto> e)"
| "catalog_step (CDeletePrice k) m = m(k := None)"
| "catalog_step (CReplace es) m = entries_map es"
| "catalog_step (CBootstrap es) m = entries_map es ++ m"
| "catalog_step (CRecord p) m = m"
| "catalog_step (CSetSetting k v) m = m"

fun setting_step :: "db_call \<Rightarrow> (string \<Rightarrow> string option) \<Rightarrow> string \<Rightarrow> string option" where
  "setting_step (CSetSetting k v) s = s(k \<mapsto> v)"
| "setting_step _ s = s"

lemma entry_row_roundtrip [simp]: "entry_of_row (row_of_entry now e) = e"
  by (simp add: entry_of_row_def row_of_entry_def boolToInt_def)

lemma pmodel_row [simp]: "pmodel (row_of_entry now e) = Model e"
  by (simp add: row_of_entry_def)

lemma catalog_faults [simp]: "catalog (d\<lparr>faults := fs\<rparr>) = catalog d"
  by (simp add: catalog_def fun_eq_iff)

lemma catalog_payments [simp]: "catalog (d\<lparr>payments := ps, next_id := n\<rparr>) = catalog d"
  by (simp add: catalog_def fun_eq_iff)

lemma catalog_insert_new:
  "catalog (d\<lparr>model_prices := insert_new_by pmodel (row_of_entry now e) (model_prices d)\<rparr>) =
   [Model e \<mapsto> e] ++ catalog d"
  by (auto simp: catalog_def fun_eq_iff table_simps map_add_def split: option.split)

lemma entries_map_Cons: "entries_map (e # es) = (entries_map es)(Model e \<mapsto> e)"
  by (simp add: entries_map_def)

lemma catalog_bootstrap_rows:
  "bootstrap_rows now es d = (Inr (), d') \<Longrightarrow> catalog d' = entries_map es ++ catalog d"
proof (induction es arbitrary: d)
  case (Cons e es)
  obtain f d0 where s: "stmt d = (f, d0)" by (cases "stmt d")
  then have c0: "catalog d0 = catalog d" by (auto dest!: stmt_tables)
  have "catalog d' = entries_map es ++ ([Model e \<mapsto> e] ++ catalog d)"
    using Cons.prems s
    by (auto dest!: Cons.IH simp: catalog_insert_new c0 split: if_splits)
  then show ?case by (auto simp: entries_map_Cons map_add_def fun_eq_iff split: option.split)
qed (simp add: entries_map_def)

lemma catalog_insert_rows:
  "insert_rows now es d = (Inr (), d') \<Longrightarrow> catalog d' = entries_map es ++ catalog d"
proof (induction es arbitrary: d)
  case (Cons e es)
  obtain f d0 where s: "stmt d = (f, d0)" by (cases "stmt d")
  then have c0: "catalog d0 = catalog d" by (auto dest!: stmt_tables)
  have "\<not> has_key pmodel (Model e) (model_prices d0)"
    and rest: "insert_rows now es (d0\<lparr>model_prices := model_prices d0 @ [row_of_entry now e]\<rparr>) = (Inr (), d')"
    using Cons.prems s by (auto split: if_splits)
  then have "model_prices d0 @ [row_of_entry now e] =
      insert_new_by pmodel (row_of_entry now e) (model_prices d0)"
    by (simp add: insert_new_by_def)
  then have "catalog d' = entries_map es ++ ([Model e \<mapsto> e] ++ catalog d)"
    using Cons.IH [OF rest] catalog_insert_new [of now e d0] c0 by simp
  then show ?case by (auto simp: entries_map_Cons map_add_def fun_eq_iff split: option.split)
qed (simp add: entries_map_def)

lemma catalog_in_tx:
  assumes "in_tx d body = (Inr (), d')"
    and "\<And>d d'. body d = (Inr (), d') \<Longrightarrow> catalog d' = f (catalog d)"
  shows "catalog d' = f (catalog d)"
  using in_tx_Inr [OF assms(1)] assms(2) by auto

lemma catalog_Replace:
  assumes "ReplaceModelPrices d now es = (Inr (), d')"
  shows "catalog d' = entries_map es"
proof (rule catalog_in_tx [OF assms [unfolded ReplaceModelPrices_def]])
  fix d d'
  assume "(case stmt d of (failed, d) \<Rightarrow> if failed then (Inl EngineFailure, d)
             else insert_rows now es (d\<lparr>model_prices := []\<rparr>)) = (Inr (), d')"
  then obtain d0 where "insert_rows now es (d0\<lparr>model_prices := []\<rparr>) = (Inr (), d')"
    by (auto split: prod.splits if_splits)
  moreover have "catalog (d0\<lparr>model_prices := []\<rparr>) = Map.empty"
    by (simp add: catalog_def fun_eq_iff lookup_by_def)
  ultimately show "catalog d' = entries_map es" using catalog_insert_rows by fastforce
qed

lemma setting_tables: "tables d = tables d' \<Longrightarrow> setting d = setting d'"
  by (auto dest!: tables_eqD simp: setting_def fun_eq_iff)

lemma settings_bootstrap_rows: "settings (snd (bootstrap_rows now es d)) = settings d"
  by (induction now es d rule: bootstrap_rows.induct) (auto split: prod.splits dest!: stmt_tables)

lemma settings_insert_rows: "settings (snd (insert_rows now es d)) = settings d"
  by (induction now es d rule: insert_rows.induct) (auto split: prod.splits dest!: stmt_tables)

lemma settings_in_tx:
  assumes "in_tx d body = (Inr (), d')" "\<And>d. settings (snd (body d)) = settings d"
  shows "settings d' = settings d"
proof -
  obtain fs d1 fs' where "body (d\<lparr>faults := fs\<rparr>) = (Inr (), d1)" "d' = d1\<lparr>faults := fs'\<rparr>"
    using in_tx_Inr [OF assms(1)] by blast
  then show ?thesis using assms(2) [of "d\<lparr>faults := fs\<rparr>"] by simp
qed

lemma setting_step_refines:
  assumes "db_call_step d now call = (Inr (), d')"
  shows "setting d' = setting_step call (setting d)"
proof (cases call)
  case (CSetSetting k v)
  then show ?thesis using assms
    by (auto simp: SetSetting_def setting_def fun_eq_iff table_simps
        split: prod.splits if_splits dest!: stmt_tables)
next
  case (CBootstrap es)
  then have "settings d' = settings d"
    using assms settings_in_tx settings_bootstrap_rows by (simp add: BootstrapDefaultPrices_def)
  then show ?thesis using CBootstrap by (simp add: setting_def fun_eq_iff)
next
  case (CReplace es)
  have "settings (snd (case stmt d of (f, d) \<Rightarrow> if f then (Inl EngineFailure, d)
          else insert_rows now es (d\<lparr>model_prices := []\<rparr>))) = settings d" for d
    by (auto simp: settings_insert_rows split: prod.splits dest!: stmt_tables)
  then have "settings d' = settings d"
    using assms CReplace settings_in_tx by (fastforce simp: ReplaceModelPrices_def)
  then show ?thesis using CReplace by (simp add: setting_def fun_eq_iff)
qed (use assms in \<open>auto simp: Record_def UpsertModelPrice_def DeleteModelPrice_def setting_def
      fun_eq_iff split: prod.splits if_splits dest!: stmt_tables\<close>)

lemma catalog_step_refines:
  assumes "db_call_step d now call = (Inr (), d')"
  shows "catalog d' = catalog_step call (catalog d)"
proof (cases call)
  case (CBootstrap es)
  then have tx: "in_tx d (bootstrap_rows now es) = (Inr (), d')"
    using assms by (simp add: BootstrapDefaultPrices_def)
  show ?thesis
    using catalog_in_tx [OF tx, where f = "\<lambda>m. entries_map es ++ m"] catalog_bootstrap_rows CBootstrap
    by simp
next
  case (CReplace es)
  then show ?thesis using assms by (simp add: catalog_Replace)
next
  case (CRecord p)
  then show ?thesis using assms
    by (auto simp: Record_def split: prod.splits if_splits dest!: stmt_tables)
next
  case (CSetSetting k v)
  then show ?thesis using assms
    by (auto simp: SetSetting_def catalog_def fun_eq_iff split: prod.splits if_splits dest!: stmt_tables)
next
  case (CUpsert e)
  then show ?thesis using assms
    by (auto simp: UpsertModelPrice_def catalog_def fun_eq_iff table_simps split: prod.splits if_splits dest!: stmt_tables)
next
  case (CDeletePrice k)
  then show ?thesis using assms
    by (auto simp: DeleteModelPrice_def catalog_def fun_eq_iff table_simps split: prod.splits if_splits dest!: stmt_tables)
qed

text \<open>C36: The store implements two maps: a successful write acts on the settings and on the price
  catalog exactly as the map operation its call stands for (an upsert overwrites, a bootstrap only
  fills gaps, a replacement leaves nothing else), a payment touches neither.\<close>

theorem store_refines_maps:
  assumes "db_call_step d now call = (Inr (), d')"
  shows "catalog d' = catalog_step call (catalog d) \<and> setting d' = setting_step call (setting d)"
  using catalog_step_refines [OF assms] setting_step_refines [OF assms] ..

theorem store_refines_maps_witness:
  "let e = \<lparr>Model = ''gpt-4o'', Input = ''1'', Output = ''2'', CachedInput = '''', IsDefault = False\<rparr>;
       d = snd (db_call_step empty_db 1 (CUpsert e))
   in catalog (snd (db_call_step d 2 (CBootstrap DefaultEntries))) ''gpt-4o'' = Some e"
proof -
  define e where "e = \<lparr>Model = ''gpt-4o'', Input = ''1'', Output = ''2'', CachedInput = '''', IsDefault = False\<rparr>"
  define d where "d = snd (db_call_step empty_db 1 (CUpsert e))"
  have "is_ok (fst (db_call_step d 2 (CBootstrap DefaultEntries)))"
    unfolding d_def e_def by code_simp
  then have "db_call_step d 2 (CBootstrap DefaultEntries) =
      (Inr (), snd (db_call_step d 2 (CBootstrap DefaultEntries)))"
    by (simp add: prod_eq_iff is_ok_iff)
  from store_refines_maps [OF this]
  have "catalog (snd (db_call_step d 2 (CBootstrap DefaultEntries))) ''gpt-4o'' =
      (entries_map DefaultEntries ++ catalog d) ''gpt-4o''" by simp
  moreover have "catalog d ''gpt-4o'' = Some e" unfolding d_def e_def by code_simp
  ultimately show ?thesis unfolding d_def [symmetric] e_def [symmetric] Let_def
    by (simp add: map_add_def)
qed

lemma GetSetting_setting:
  "faults d = [] \<Longrightarrow> GetSetting d k =
     (Inr (case setting d k of None \<Rightarrow> ('''', False) | Some v \<Rightarrow> (v, True)), d)"
  by (simp add: GetSetting_def setting_def split: option.split)

lemma ListModelPrices_Inr:
  assumes "ListModelPrices d = (Inr out, d')" "db_wf d"
  shows "tables d' = tables d" "sorted_wrt (<) (map Model out)" "entries_map out = catalog d"
    "e \<in> set out \<longleftrightarrow> catalog d (Model e) = Some e"
proof -
  let ?rows = "sort_key pmodel (model_prices d)"
  let ?out = "map entry_of_row ?rows"
  obtain f d0 where s: "stmt d = (f, d0)" by (cases "stmt d")
  then obtain fs where d0: "d0 = d\<lparr>faults := fs\<rparr>" using stmt_tables by blast
  then have out: "out = ?out" and d': "d' = d0" using assms(1) s by (auto simp: ListModelPrices_def split: if_splits)
  show "tables d' = tables d" by (simp add: d' d0)
  have m: "Model (entry_of_row r) = pmodel r" for r by (simp add: entry_of_row_def)
  have dist: "distinct (map pmodel (model_prices d))" using assms(2) by (simp add: db_wf_def)
  have distinct: "distinct (map pmodel ?rows)"
    using dist mset_sort by (metis mset_map mset_eq_imp_distinct_iff)
  then show "sorted_wrt (<) (map Model out)"
    unfolding out using sorted_sort_key [of pmodel "model_prices d"]
    by (simp add: m comp_def strict_sorted_iff)
  have in_iff: "e \<in> set ?out \<longleftrightarrow> catalog d (Model e) = Some e" for e
    using lookup_by_distinct [OF dist] lookup_by_Some
    by (fastforce simp: catalog_def m image_iff)
  then show "e \<in> set out \<longleftrightarrow> catalog d (Model e) = Some e" unfolding out by blast
  have "map_of (map (\<lambda>e. (Model e, e)) ?out) k = catalog d k" for k
  proof (cases "catalog d k")
    case None
    then have "k \<notin> pmodel ` set (model_prices d)" by (simp add: catalog_def lookup_by_None)
    then show ?thesis using None by (auto simp: map_of_eq_None_iff m image_iff)
  next
    case (Some e)
    then have "Model e = k" using lookup_by_Some by (fastforce simp: catalog_def m)
    with Some have "e \<in> set ?out" using in_iff by simp
    moreover have "distinct (map fst (map (\<lambda>e. (Model e, e)) ?out))"
      using distinct by (simp add: comp_def m)
    ultimately show ?thesis using Some \<open>Model e = k\<close> by (force intro!: map_of_is_SomeI)
  qed
  then show "entries_map out = catalog d" unfolding out by (simp add: entries_map_def fun_eq_iff)
qed

lemma ListModelPrices_ok: "faults d = [] \<Longrightarrow> \<exists>out. ListModelPrices d = (Inr out, d)"
  by (simp add: ListModelPrices_def)

text \<open>The price listing is the catalog, once per model and in the order of the ids.\<close>

theorem ListModelPrices_catalog:
  assumes "faults d = []" "db_wf d"
  shows "\<exists>out. ListModelPrices d = (Inr out, d) \<and> sorted_wrt (<) (map Model out) \<and>
     entries_map out = catalog d \<and> (\<forall>e. e \<in> set out \<longleftrightarrow> catalog d (Model e) = Some e)"
  using ListModelPrices_ok [OF assms(1)] ListModelPrices_Inr [OF _ assms(2)] by blast

theorem ListModelPrices_catalog_witness:
  "let d = db_run empty_db [(1, CBootstrap DefaultEntries)]
   in \<exists>out. ListModelPrices d = (Inr out, d) \<and> sorted_wrt (<) (map Model out)"
proof -
  let ?d = "db_run empty_db [(1, CBootstrap DefaultEntries)]"
  have "faults ?d = []" by code_simp
  moreover have "db_wf ?d" by code_simp
  ultimately show ?thesis using ListModelPrices_catalog [of ?d] by auto
qed

end
