(* ===== verification/Relay.thy ===== *)
theory Relay
  imports Solana Client Database
begin

section \<open>The payment-gated relay\<close>

text \<open>
  \<open>internal/handler/relay.go\<close>. A handler takes the state all handlers share, the time, and the
  request, and gives the response and the state afterwards. Behind \<open>'w\<close> are the chain and the
  upstream service; \<open>outside\<close> holds what is asked of them. Times are nanoseconds, and every place
  that reads the clock has its own. Log output is left out.
\<close>

subsection \<open>Requests, responses, the shared state\<close>

text \<open>A missing header is the empty string, as \<open>GetHeader\<close> has it; the body is \<open>None\<close> if it cannot be read.\<close>

record Request =
  Method :: string
  Path :: string
  GetHeader :: "string \<Rightarrow> string"
  Query :: "string \<Rightarrow> string"
  ReqBody :: "string option"

datatype header_error = EmptyHeader | BadPaymentJSON | UnsupportedScheme string

text \<open>What an error response says: a fixed text, or the text of a Go error.\<close>

datatype fault =
    Message string
  | CannotReadBody
  | UpstreamFailed
  | BadPayment header_error
  | SettlementFailed settle_error
  | StoreError db_error
  | PriceError price_error
  | BadJSONBody

record Balance =
  BalAddress :: string
  TotalSpent :: int
  TotalSpentUSD :: string
  BalPaymentCount :: int
  BalRecent :: "Payment list"

record ConfigView =
  CvPaymentChain :: string
  CvNetwork :: string
  CvChainID :: int
  CvPayTo :: string
  CvAsset :: string
  CvUpstream :: string
  CvMarkup :: f64
  CvCacheTTLSecs :: int
  CvSigTimeoutSecs :: int
  CvMaxBodyBytes :: int
  CvAllowedOrigins :: "string list"
  CvAdminAuthEnabled :: bool
  CvDryRun :: bool

record Overview =
  OvSummary :: Summary
  OvRecent :: "Payment list"
  OvPrices :: "ModelPriceEntry list"
  OvConfig :: ConfigView

text \<open>Bodies: \<open>c.JSON\<close> of the values the code sends, and \<open>c.Data\<close> with its content type.\<close>

datatype body =
    Failure fault
  | Data string string
  | Challenge PaymentRequiredResponse
  | JSONOk
  | MarkupSaved f64
  | AddressInfo "(string \<times> string) list" int
  | BalanceInfo Balance
  | OverviewInfo Overview
  | Empty

record Response =
  RStatus :: int
  RHeaders :: "(string \<times> string) list"
  RBody :: body

text \<open>\<open>c.Header\<close>: an empty value removes the header.\<close>

definition set_header :: "string \<Rightarrow> string \<Rightarrow> (string \<times> string) list \<Rightarrow> (string \<times> string) list" where
  "set_header k v hs = (if v = [] then filter (\<lambda>h. fst h \<noteq> k) hs else AList.update k v hs)"

definition respond :: "int \<Rightarrow> body \<Rightarrow> Response" where
  "respond status b = \<lparr>RStatus = status, RHeaders = [], RBody = b\<rparr>"

definition fail :: "int \<Rightarrow> fault \<Rightarrow> Response" where
  "fail status f = respond status (Failure f)"

text \<open>The request sent upstream and its answer.\<close>

record UpstreamRequest =
  UpURL :: string
  UpHeaders :: "(string \<times> string) list"
  UpBody :: string

record UpstreamResponse =
  UpStatus :: int
  UpContentType :: string
  UpRespBody :: string

text \<open>
  The outside: the libraries of the settlers, SHA-256, whether \<open>net/http\<close> can build a request for a
  URL, and the exchange with the upstream (\<open>None\<close> when it fails; a body is what could be read).
\<close>

record 'w outside =
  libs_of :: "'w libs"
  sha256 :: "string \<Rightarrow> string"
  NewRequest_ok :: "string \<Rightarrow> bool"
  HTTP_Do :: "'w \<Rightarrow> UpstreamRequest \<Rightarrow> UpstreamResponse option \<times> 'w"

text \<open>The fields of \<open>Relay\<close>; \<open>Admin\<close> and \<open>Info\<close> point to the same configuration, database and prices.\<close>

record 'w Server =
  cfg :: Config
  cache :: Cache
  settler :: PaymentSettler
  db :: DB
  prices :: Manager
  world :: 'w

subsection \<open>Token usage of a response\<close>

record TokenDetails =
  DetCachedTokens :: int

record EnvUsage =
  EnvPromptTokens :: int
  EnvCompletionTokens :: int
  EnvInputTokens :: int
  EnvOutputTokens :: int
  EnvCacheReadTokens :: int
  EnvPromptDetails :: TokenDetails
  EnvInputDetails :: TokenDetails

record Envelope =
  EnvModel :: string
  EnvelopeUsage :: EnvUsage

definition zero_details :: TokenDetails where
  "zero_details = \<lparr>DetCachedTokens = 0\<rparr>"

definition zero_envelope :: Envelope where
  "zero_envelope =
     \<lparr>EnvModel = '''', EnvelopeUsage = \<lparr>EnvPromptTokens = 0, EnvCompletionTokens = 0, EnvInputTokens = 0,
      EnvOutputTokens = 0, EnvCacheReadTokens = 0, EnvPromptDetails = zero_details,
      EnvInputDetails = zero_details\<rparr>\<rparr>"

definition decode_TokenDetails :: "json \<Rightarrow> TokenDetails \<Rightarrow> TokenDetails \<times> bool" where
  "decode_TokenDetails = decode_struct (\<lambda>k raw v p.
     if is_field k ''cached_tokens'' then decode_int DetCachedTokens_update v p else (p, False))"

definition decode_EnvUsage :: "json \<Rightarrow> EnvUsage \<Rightarrow> EnvUsage \<times> bool" where
  "decode_EnvUsage = decode_struct (\<lambda>k raw v p.
     if is_field k ''prompt_tokens'' then decode_int EnvPromptTokens_update v p
     else if is_field k ''completion_tokens'' then decode_int EnvCompletionTokens_update v p
     else if is_field k ''input_tokens'' then decode_int EnvInputTokens_update v p
     else if is_field k ''output_tokens'' then decode_int EnvOutputTokens_update v p
     else if is_field k ''cache_read_input_tokens'' then decode_int EnvCacheReadTokens_update v p
     else if is_field k ''prompt_tokens_details'' then
       (case decode_TokenDetails v (EnvPromptDetails p) of (d, e) \<Rightarrow> (p\<lparr>EnvPromptDetails := d\<rparr>, e))
     else if is_field k ''input_tokens_details'' then
       (case decode_TokenDetails v (EnvInputDetails p) of (d, e) \<Rightarrow> (p\<lparr>EnvInputDetails := d\<rparr>, e))
     else (p, False))"

definition decode_Envelope :: "json \<Rightarrow> Envelope \<Rightarrow> Envelope \<times> bool" where
  "decode_Envelope = decode_struct (\<lambda>k raw v p.
     if is_field k ''model'' then decode_string EnvModel_update v p
     else if is_field k ''usage'' then
       (case decode_EnvUsage v (EnvelopeUsage p) of (u, e) \<Rightarrow> (p\<lparr>EnvelopeUsage := u\<rparr>, e))
     else (p, False))"

text \<open>OpenAI counts first, then the Anthropic names; cached tokens from whichever place has them.\<close>

definition usage_of :: "EnvUsage \<Rightarrow> Usage" where
  "usage_of eu =
     (let u = \<lparr>PromptTokens = EnvPromptTokens eu, CompletionTokens = EnvCompletionTokens eu,
               CachedTokens = DetCachedTokens (EnvPromptDetails eu)\<rparr>;
          u = (if PromptTokens u = 0 \<and> CompletionTokens u = 0
               then u\<lparr>PromptTokens := EnvInputTokens eu, CompletionTokens := EnvOutputTokens eu\<rparr> else u);
          u = (if CachedTokens u = 0 then u\<lparr>CachedTokens := DetCachedTokens (EnvInputDetails eu)\<rparr> else u)
      in if CachedTokens u = 0 then u\<lparr>CachedTokens := EnvCacheReadTokens eu\<rparr> else u)"

text \<open>The model of a request body, read when the response names none.\<close>

definition request_model :: "string \<Rightarrow> string" where
  "request_model body = fst (Unmarshal (decode_struct (\<lambda>k raw v p.
     if is_field k ''model'' then decode_string (\<lambda>f. f) v p else (p, False))) body '''')"

subsection \<open>The first request\<close>

definition upstream_request :: "Config \<Rightarrow> Request \<Rightarrow> string \<Rightarrow> UpstreamRequest" where
  "upstream_request c req body =
     \<lparr>UpURL = UpstreamURL c @ Path req,
      UpHeaders = [(''Content-Type'', ''application/json''), (''Authorization'', ''Bearer '' @ UpstreamToken c)] @
        (if GetHeader req ''anthropic-version'' \<noteq> [] then [(''anthropic-version'', GetHeader req ''anthropic-version'')] else []),
      UpBody = body\<rparr>"

definition json_type :: "string \<Rightarrow> string" where
  "json_type ct = (if ct = [] then ''application/json'' else ct)"

definition usage_text :: "string \<Rightarrow> Usage \<Rightarrow> string" where
  "usage_text model u =
     model @ '': '' @ itoa (PromptTokens u) @ '' prompt + '' @ itoa (CompletionTokens u) @ '' completion tokens''"

definition handleInitial ::
    "'w outside \<Rightarrow> 'w Server \<Rightarrow> int \<Rightarrow> int \<Rightarrow> Request \<Rightarrow> string \<Rightarrow> Response \<times> 'w Server" where
  "handleInitial out s t_id t_store req body =
     (let up = upstream_request (cfg s) req body in
      if \<not> NewRequest_ok out (UpURL up) then (fail 500 (Message ''build upstream request''), s)
      else case HTTP_Do out (world s) up of
        (None, w) \<Rightarrow> (fail 502 UpstreamFailed, s\<lparr>world := w\<rparr>)
      | (Some resp, w) \<Rightarrow>
          let s = s\<lparr>world := w\<rparr> in
          if UpStatus resp < 200 \<or> 300 \<le> UpStatus resp
          then (respond (UpStatus resp) (Data (json_type (UpContentType resp)) (UpRespBody resp)), s)
          else
            let env = fst (Unmarshal decode_Envelope (UpRespBody resp) zero_envelope);
                u = usage_of (EnvelopeUsage env)
            in if PromptTokens u = 0 \<and> CompletionTokens u = 0
               then (fail 502 (Message ''x402: could not determine token usage (streaming is not supported; set stream=false)''), s)
               else
                 let model = (if EnvModel env = [] then request_model body else EnvModel env);
                     cost = Manager_CostMicroUSDC (prices s) model u (Markup (cfg s));
                     reqID = RequestID (sha256 out) (body @ ''|'' @ itoa t_id);
                     entry = \<lparr>Body = UpRespBody resp, Status = UpStatus resp,
                              ContentType = json_type (UpContentType resp), Cost = cost, EntryUsage = u,
                              EntryModel = model, CreatedAt = 0\<rparr>;
                     challenge = \<lparr>ResX402Version = X402Version,
                       Accepts = [BuildRequirements (libs_of out) (settler s) (Path req) (usage_text model u)
                                   reqID cost (SigTimeoutSecs (cfg s))],
                       ResError = ''''\<rparr>
                 in (\<lparr>RStatus = 402,
                      RHeaders = set_header HeaderCost (USDCUnitsToUSD (Some cost)) (set_header HeaderRequest reqID []),
                      RBody = Challenge challenge\<rparr>,
                     s\<lparr>cache := Store (cache s) t_store reqID entry\<rparr>))"

subsection \<open>The paid request\<close>

definition decodePaymentHeader :: "string \<Rightarrow> header_error + PaymentPayload" where
  "decodePaymentHeader h =
     (if h = [] then Inl EmptyHeader
      else
        let raw = (case DecodeString h of Some raw \<Rightarrow> raw | None \<Rightarrow> h)
        in case Unmarshal decode_PaymentPayload raw zero_payment_payload of
             (_, True) \<Rightarrow> Inl BadPaymentJSON
           | (p, False) \<Rightarrow> if PayScheme p \<noteq> SchemeExact then Inl (UnsupportedScheme (PayScheme p)) else Inr p)"

text \<open>
  \<open>handlePayment\<close> in its three parts: everything up to the settlement, which only reads; the
  settlement; and what follows a successful one. A panic of the settler unwinds the handler up to
  gin's \<open>Recovery\<close>, which answers 500 with no body.
\<close>

definition open_payment :: "'w Server \<Rightarrow> int \<Rightarrow> Request \<Rightarrow> Response + (string \<times> Entry \<times> PaymentPayload)" where
  "open_payment s t_get req =
     (let reqID = GetHeader req HeaderRequest in
      if reqID = [] then Inl (fail 400 (Message (''missing '' @ HeaderRequest)))
      else case Get (cache s) t_get reqID of
        None \<Rightarrow> Inl (fail 410 (Message ''staged response expired or not found''))
      | Some cached \<Rightarrow>
          case decodePaymentHeader (GetHeader req HeaderPayment) of
            Inl e \<Rightarrow> Inl (fail 400 (BadPayment e))
          | Inr payment \<Rightarrow>
              if PayX402Version payment \<noteq> X402Version then Inl (fail 400 (Message ''unsupported x402Version''))
              else if PayloadNetwork payment \<noteq> Network (cfg s) then Inl (fail 400 (Message ''network mismatch''))
              else Inr (reqID, cached, payment))"

definition settle_payment ::
    "'w outside \<Rightarrow> 'w Server \<Rightarrow> int \<Rightarrow> string \<Rightarrow> Entry \<Rightarrow> PaymentPayload \<Rightarrow> (Response + Settlement) \<times> 'w Server" where
  "settle_payment out s t_settle reqID cached payment =
     (case Settle (libs_of out) (settler s) (world s) (t_settle div second) payment (Cost cached) reqID of
        (Inl e, w) \<Rightarrow> (Inl (if panicked e then respond 500 Empty else fail 502 (SettlementFailed e)), s\<lparr>world := w\<rparr>)
      | (Inr st, w) \<Rightarrow> (Inr st, s\<lparr>world := w\<rparr>))"

definition payment_row :: "Config \<Rightarrow> string \<Rightarrow> Entry \<Rightarrow> Settlement \<Rightarrow> Payment" where
  "payment_row c reqID cached st =
     \<lparr>PayID = 0, FromAddress = StPayer st, ToAddress = PayToAddress c, Amount = wrap64 (Cost cached),
      TxHash = StTxHash st, PayModel = EntryModel cached, PayPromptTokens = PromptTokens (EntryUsage cached),
      PayCompletionTokens = CompletionTokens (EntryUsage cached), PayRequestID = reqID, PayNetwork = Network c,
      PayCreatedAt = 0\<rparr>"

definition paid_headers :: "'w Server \<Rightarrow> Entry \<Rightarrow> Settlement \<Rightarrow> (string \<times> string) list" where
  "paid_headers s cached st =
     (let settlementJSON = Marshal_SettlementResponse
            \<lparr>Success = True, SetTransaction = StTxHash st, SetNetwork = Network (cfg s), SetPayer = StPayer st\<rparr>;
          u = EntryUsage cached;
          uncachedInput = wrap64 (PromptTokens u - CachedTokens u);
          uncachedInput = (if uncachedInput < 0 then 0 else uncachedInput);
          (inputPerM, cachedPerM, outputPerM) = Manager_PricesFor (prices s) (EntryModel cached)
      in fold (\<lambda>(k, v). set_header k v)
           [(HeaderResponse, EncodeToString settlementJSON), (HeaderCost, USDCUnitsToUSD (Some (Cost cached))),
            (HeaderTx, StTxHash st), (HeaderUsageInput, itoa uncachedInput),
            (HeaderUsageCached, itoa (CachedTokens u)), (HeaderUsageOutput, itoa (CompletionTokens u)),
            (HeaderPriceInput, inputPerM), (HeaderPriceCached, cachedPerM), (HeaderPriceOutput, outputPerM)] [])"

text \<open>An error of \<open>Record\<close> is only logged.\<close>

definition deliver ::
    "'w Server \<Rightarrow> int \<Rightarrow> string \<Rightarrow> Entry \<Rightarrow> Settlement \<Rightarrow> Response \<times> 'w Server" where
  "deliver s t_record reqID cached st =
     (let s = s\<lparr>db := snd (Record (db s) (t_record div second) (payment_row (cfg s) reqID cached st))\<rparr>;
          s = s\<lparr>cache := Delete (cache s) reqID\<rparr>
      in (\<lparr>RStatus = Status cached, RHeaders = paid_headers s cached st,
           RBody = Data (ContentType cached) (Body cached)\<rparr>, s))"

definition handlePayment ::
    "'w outside \<Rightarrow> 'w Server \<Rightarrow> int \<Rightarrow> int \<Rightarrow> int \<Rightarrow> Request \<Rightarrow> Response \<times> 'w Server" where
  "handlePayment out s t_get t_settle t_record req =
     (case open_payment s t_get req of
        Inl r \<Rightarrow> (r, s)
      | Inr (reqID, cached, payment) \<Rightarrow>
          (case settle_payment out s t_settle reqID cached payment of
             (Inl r, s) \<Rightarrow> (r, s)
           | (Inr st, s) \<Rightarrow> deliver s t_record reqID cached st))"

text \<open>
  \<open>Handle\<close>. \<open>MaxBytesReader\<close> fails the read of a body longer than \<open>MaxBodyBytes\<close>. The times are those
  of the request id and of \<open>Store\<close>, or of \<open>Get\<close>, of \<open>Settle\<close> and of \<open>Record\<close>.
\<close>

record Times =
  t_first :: int
  t_second :: int
  t_third :: int

definition Handle :: "'w outside \<Rightarrow> 'w Server \<Rightarrow> Times \<Rightarrow> Request \<Rightarrow> Response \<times> 'w Server" where
  "Handle out s t req =
     (case ReqBody req of
        None \<Rightarrow> (fail 400 CannotReadBody, s)
      | Some body \<Rightarrow>
          if MaxBodyBytes (cfg s) < int (length body) then (fail 400 CannotReadBody, s)
          else if GetHeader req HeaderPayment \<noteq> [] then handlePayment out s (t_first t) (t_second t) (t_third t) req
          else handleInitial out s (t_first t) (t_second t) req body)"

subsection \<open>The parts of a payment\<close>

lemma fail_simps [simp]: "RStatus (fail n f) = n" "RBody (fail n f) = Failure f"
  by (simp_all add: fail_def respond_def)

lemma respond_simps [simp]: "RStatus (respond n b) = n" "RBody (respond n b) = b"
  by (simp_all add: respond_def)

lemma fail_eq [simp]: "fail n f = fail m g \<longleftrightarrow> n = m \<and> f = g"
  by (auto simp: fail_def respond_def)

lemma open_payment_Inr:
  "open_payment s t req = Inr (rid, e, p) \<longleftrightarrow>
   rid = GetHeader req HeaderRequest \<and> rid \<noteq> [] \<and> Get (cache s) t rid = Some e \<and>
   decodePaymentHeader (GetHeader req HeaderPayment) = Inr p \<and>
   PayX402Version p = X402Version \<and> PayloadNetwork p = Network (cfg s)"
  by (auto simp: open_payment_def Let_def split: option.splits sum.splits if_splits)

lemma open_payment_Inl:
  "open_payment s t req = Inl r \<Longrightarrow> RStatus r \<in> {400, 410} \<and> (\<exists>m. RBody r = Failure m \<and> (\<forall>e. m \<noteq> SettlementFailed e))"
  by (auto simp: open_payment_def Let_def split: option.splits sum.splits if_splits)

lemma settle_payment_Inr:
  assumes "settle_payment out s t rid e p = (Inr st, s')"
  shows "authorises (libs_of out) (settler s) (t div second) p (Cost e) rid st" "s' = s\<lparr>world := world s'\<rparr>"
  using assms
  by (auto simp: settle_payment_def split: prod.splits sum.splits dest: chain_pay.settle_authorised)

lemma settle_payment_Inl:
  assumes "settle_payment out s t rid e p = (Inl r, s')"
  shows "\<exists>err. r = (if panicked err then respond 500 Empty else fail 502 (SettlementFailed err)) \<and>
    s' = s\<lparr>world := world s'\<rparr> \<and> (before_submission err \<longrightarrow> world s' = world s)"
proof -
  obtain res w where st: "Settle (libs_of out) (settler s) (world s) (t div second) p (Cost e) rid = (res, w)"
    by fastforce
  then obtain err where "res = Inl err" using assms by (cases res) (simp_all add: settle_payment_def)
  then show ?thesis
    using assms st chain_pay.settle_refused [of "libs_of out" "settler s" "world s" "t div second" p "Cost e" rid err w]
    by (intro exI [of _ err]) (auto simp: settle_payment_def)
qed

lemma deliver_simps [simp]:
  "RStatus (fst (deliver s t rid e st)) = Status e"
  "RBody (fst (deliver s t rid e st)) = Data (ContentType e) (Body e)"
  "cache (snd (deliver s t rid e st)) = Delete (cache s) rid"
  "db (snd (deliver s t rid e st)) = snd (Record (db s) (t div second) (payment_row (cfg s) rid e st))"
  "cfg (snd (deliver s t rid e st)) = cfg s" "prices (snd (deliver s t rid e st)) = prices s"
  "settler (snd (deliver s t rid e st)) = settler s" "world (snd (deliver s t rid e st)) = world s"
  by (simp_all add: deliver_def Let_def)

text \<open>A paid delivery: what it took, and what it leaves.\<close>

definition paid_delivery ::
    "'w outside \<Rightarrow> 'w Server \<Rightarrow> int \<Rightarrow> int \<Rightarrow> int \<Rightarrow> Request \<Rightarrow> Response \<Rightarrow> 'w Server \<Rightarrow> bool" where
  "paid_delivery out s t_get t_settle t_record req r s' \<longleftrightarrow>
     (\<exists>rid e p st. rid = GetHeader req HeaderRequest \<and> Get (cache s) t_get rid = Some e \<and>
        decodePaymentHeader (GetHeader req HeaderPayment) = Inr p \<and> PayloadNetwork p = Network (cfg s) \<and>
        authorises (libs_of out) (settler s) (t_settle div second) p (Cost e) rid st \<and>
        RStatus r = Status e \<and> RBody r = Data (ContentType e) (Body e) \<and>
        cache s' = Delete (cache s) rid \<and> cfg s' = cfg s \<and> prices s' = prices s \<and> settler s' = settler s \<and>
        db s' = snd (Record (db s) (t_record div second) (payment_row (cfg s) rid e st)))"

definition failed_payment :: "'w Server \<Rightarrow> Response \<Rightarrow> 'w Server \<Rightarrow> bool" where
  "failed_payment s r s' \<longleftrightarrow> s' = s\<lparr>world := world s'\<rparr> \<and>
     (RStatus r = 500 \<and> RBody r = Empty \<and> world s' = world s \<or>
      RStatus r \<in> {400, 410, 502} \<and> (\<exists>f. RBody r = Failure f \<and>
        (world s' = world s \<or> (\<exists>e. f = SettlementFailed e \<and> \<not> before_submission e))))"

lemma panicked_before: "panicked e \<Longrightarrow> before_submission e"
  by (simp add: panicked_def before_submission_def)

lemma handlePayment_cases:
  assumes "handlePayment out s t_get t_settle t_record req = (r, s')"
  shows "paid_delivery out s t_get t_settle t_record req r s' \<or> failed_payment s r s'"
proof (cases "open_payment s t_get req")
  case (Inl r0)
  then have "r = r0" "s' = s" using assms by (simp_all add: handlePayment_def)
  then show ?thesis using open_payment_Inl [OF Inl] by (auto simp: failed_payment_def)
next
  case (Inr x)
  obtain rid e p where o: "open_payment s t_get req = Inr (rid, e, p)" using Inr by (cases x) auto
  obtain res s1 where st: "settle_payment out s t_settle rid e p = (res, s1)" by fastforce
  show ?thesis
  proof (cases res)
    case (Inl r0)
    then have "r = r0" "s' = s1" using assms o st by (simp_all add: handlePayment_def)
    moreover obtain err where "r0 = (if panicked err then respond 500 Empty else fail 502 (SettlementFailed err))"
      "s1 = s\<lparr>world := world s1\<rparr>" "before_submission err \<longrightarrow> world s1 = world s"
      using settle_payment_Inl [OF st [unfolded Inl]] by blast
    ultimately have "failed_payment s r s'" using panicked_before [of err] by (auto simp: failed_payment_def)
    then show ?thesis ..
  next
    case (Inr stl)
    then have "(r, s') = deliver s1 t_record rid e stl" using assms o st by (simp add: handlePayment_def)
    then have d: "r = fst (deliver s1 t_record rid e stl)" "s' = snd (deliver s1 t_record rid e stl)"
      by (metis fst_conv, metis snd_conv)
    obtain w where s1: "s1 = s\<lparr>world := w\<rparr>" using settle_payment_Inr(2) [OF st [unfolded Inr]] by blast
    have "paid_delivery out s t_get t_settle t_record req r s'"
      using settle_payment_Inr(1) [OF st [unfolded Inr]] o [unfolded open_payment_Inr]
      unfolding paid_delivery_def d by (intro exI [of _ rid] exI [of _ e] exI [of _ p] exI [of _ stl]) (auto simp: s1)
    then show ?thesis ..
  qed
qed

lemma handleInitial_status:
  assumes "handleInitial out s t_id t_store req body = (r, s')"
  shows "RStatus r < 200 \<or> 300 \<le> RStatus r"
  using assms by (auto simp: handleInitial_def Let_def split: if_splits option.splits prod.splits)

text \<open>C1: No completion leaves the server unpaid: a response of the \<open>/v1\<close> endpoints with a 2xx status
  is the staged answer of the request id in the header, delivered for a payment header whose payload
  authorises exactly its price (a valid signed authorization or transaction on the configured
  chain) to the merchant; the answer is removed from the cache and the payment handed to the ledger.\<close>

theorem no_free_completion:
  assumes "Handle out s t req = (r, s')" "200 \<le> RStatus r" "RStatus r < 300"
  shows "paid_delivery out s (t_first t) (t_second t) (t_third t) req r s'"
proof -
  have "\<not> failed_payment s r s'" using assms(2,3) by (auto simp: failed_payment_def)
  moreover have "handlePayment out s (t_first t) (t_second t) (t_third t) req = (r, s')"
    using assms handleInitial_status
    by (fastforce simp: Handle_def split: option.splits if_splits)
  ultimately show ?thesis using handlePayment_cases by blast
qed

text \<open>C9: A payment that fails can be tried again: whatever the answer is, if it is not the staged one (an
  error of any kind, or the empty 500 of a panic), the staged answer, the ledger, the prices and the
  configuration are as before; the chain was touched only if the submission itself failed or was not
  confirmed.\<close>

theorem failed_payment_keeps_state:
  assumes "handlePayment out s t_get t_settle t_record req = (r, s')" "\<forall>ct b. RBody r \<noteq> Data ct b"
  shows "cache s' = cache s \<and> db s' = db s \<and> prices s' = prices s \<and> cfg s' = cfg s \<and>
    (world s' = world s \<or> (\<exists>e. RBody r = Failure (SettlementFailed e) \<and> \<not> before_submission e))"
proof -
  have "\<not> paid_delivery out s t_get t_settle t_record req r s'"
    using assms(2) by (auto simp: paid_delivery_def)
  then have g: "s' = s\<lparr>world := world s'\<rparr>"
    "world s' = world s \<or> (\<exists>e. RBody r = Failure (SettlementFailed e) \<and> \<not> before_submission e)"
    using handlePayment_cases [OF assms(1)] by (auto simp: failed_payment_def)
  from g(1) have "cache s' = cache s \<and> db s' = db s \<and> prices s' = prices s \<and> cfg s' = cfg s"
    by (cases s; cases s') simp
  then show ?thesis using g(2) by simp
qed

subsection \<open>The challenge\<close>

lemma handleInitial_Challenge:
  assumes "handleInitial out s t_id t_store req body = (r, s')" "RBody r = Challenge ch"
  obtains resp w e rid where
    "HTTP_Do out (world s) (upstream_request (cfg s) req body) = (Some resp, w)"
    "200 \<le> UpStatus resp" "UpStatus resp < 300" "Body e = UpRespBody resp" "Status e = UpStatus resp"
    "PromptTokens (EntryUsage e) \<noteq> 0 \<or> CompletionTokens (EntryUsage e) \<noteq> 0"
    "Cost e = Manager_CostMicroUSDC (prices s) (EntryModel e) (EntryUsage e) (Markup (cfg s))"
    "rid = RequestID (sha256 out) (body @ ''|'' @ itoa t_id)"
    "RStatus r = 402"
    "RHeaders r = set_header HeaderCost (USDCUnitsToUSD (Some (Cost e))) (set_header HeaderRequest rid [])"
    "Accepts ch = [BuildRequirements (libs_of out) (settler s) (Path req) (usage_text (EntryModel e) (EntryUsage e))
        rid (Cost e) (SigTimeoutSecs (cfg s))]"
    "s' = s\<lparr>world := w, cache := Store (cache s) t_store rid e\<rparr>"
proof -
  define entry where "entry = (\<lambda>resp :: UpstreamResponse.
    let env = fst (Unmarshal decode_Envelope (UpRespBody resp) zero_envelope); u = usage_of (EnvelopeUsage env);
        model = (if EnvModel env = [] then request_model body else EnvModel env)
    in \<lparr>Body = UpRespBody resp, Status = UpStatus resp, ContentType = json_type (UpContentType resp),
        Cost = Manager_CostMicroUSDC (prices s) model u (Markup (cfg s)), EntryUsage = u, EntryModel = model,
        CreatedAt = 0\<rparr>)"
  from assms obtain resp w where
    "HTTP_Do out (world s) (upstream_request (cfg s) req body) = (Some resp, w)"
    by (auto simp: handleInitial_def Let_def split: if_splits prod.splits option.splits)
  with assms show thesis
    by (intro that [of resp w "entry resp" "RequestID (sha256 out) (body @ ''|'' @ itoa t_id)"])
      (auto simp: handleInitial_def entry_def Let_def split: if_splits)
qed

lemma RequestID_nonempty [simp]: "RequestID h b \<noteq> []"
  by (simp add: RequestID_def)

lemma header_keys: "HeaderRequest \<noteq> HeaderCost"
  by (simp add: HeaderRequest_def HeaderCost_def)

lemma map_of_set_header: "k' \<noteq> k \<Longrightarrow> map_of (set_header k v hs) k' = map_of hs k'"
  by (induction hs) (auto simp: set_header_def update_conv')

text \<open>C3: The challenge binds the server: the amount it names is the price of the staged answer, computed
  from the token usage at the prices and markup of that moment, and it reads back as that number; the
  request id is in the header and in the requirements; the answer stays staged under it, unchanged,
  for the whole time to live. With sound prices the amount of a used call is positive.\<close>

theorem challenge_binds:
  assumes "handleInitial out s t_id t_store req body = (r, s')" "RBody r = Challenge ch"
  shows "\<exists>rid e pr. Accepts ch = [pr] \<and> map_of (Extra pr) ''requestId'' = Some rid \<and>
     map_of (RHeaders r) HeaderRequest = Some rid \<and>
     int_SetString False (MaxAmountRequired pr) = Some (Cost e) \<and>
     Cost e = Manager_CostMicroUSDC (prices s) (EntryModel e) (EntryUsage e) (Markup (cfg s)) \<and>
     (\<forall>t \<le> t_store + ttl (cache s). Get (cache s') t rid = Some (e\<lparr>CreatedAt := t_store\<rparr>)) \<and>
     (manager_sound (prices s) \<and> f64_wf (Markup (cfg s)) \<and> used_tokens (EntryUsage e) \<longrightarrow> 0 < Cost e)"
proof -
  obtain e rid w where e: "RHeaders r = set_header HeaderCost (USDCUnitsToUSD (Some (Cost e))) (set_header HeaderRequest rid [])"
    "Cost e = Manager_CostMicroUSDC (prices s) (EntryModel e) (EntryUsage e) (Markup (cfg s))"
    "Accepts ch = [BuildRequirements (libs_of out) (settler s) (Path req) (usage_text (EntryModel e) (EntryUsage e))
        rid (Cost e) (SigTimeoutSecs (cfg s))]" (is "_ = [?pr]")
    "s' = s\<lparr>world := w, cache := Store (cache s) t_store rid e\<rparr>" "rid \<noteq> []"
    using assms by (auto elim!: handleInitial_Challenge)
  have "map_of (RHeaders r) HeaderRequest = Some rid"
    unfolding e(1) map_of_set_header [OF header_keys] using e(5) by (simp add: set_header_def)
  moreover have "Get (cache s') t rid = Some (e\<lparr>CreatedAt := t_store\<rparr>)" if "t \<le> t_store + ttl (cache s)" for t
    using cache_area.fetch_put [OF that] by (simp add: e(4))
  moreover have "manager_sound (prices s) \<and> f64_wf (Markup (cfg s)) \<and> used_tokens (EntryUsage e) \<longrightarrow> 0 < Cost e"
    using manager_quote.quote_pos e(2) by simp
  moreover have "map_of (Extra ?pr) ''requestId'' = Some rid" by (rule chain_pay.build_request)
  moreover have "int_SetString False (MaxAmountRequired ?pr) = Some (Cost e)"
    by (simp only: chain_pay.build_price int_SetString_itoa)
  ultimately show ?thesis using e(2,3) by blast
qed

text \<open>C2: An answer is delivered once: after a successful payment its request id is gone; whatever calls
  of the cache follow, in any number and order (other answers staged, fetches, deletions, sweeps), as
  long as none stages an answer under that very id, a further payment for it gets 410 and touches
  nothing, in particular not the chain.\<close>

theorem paid_once:
  assumes "handlePayment out s t_get t_settle t_record req = (r, s1)" "RBody r = Data ct b"
    and "cache s2 = cache_run (cache s1) calls" "\<forall>t e. (t, CStore (GetHeader req HeaderRequest) e) \<notin> set calls"
    and "GetHeader req2 HeaderRequest = GetHeader req HeaderRequest"
  shows "\<exists>m. handlePayment out s2 t_get2 t_settle2 t_record2 req2 = (fail 410 (Message m), s2)"
proof -
  let ?rid = "GetHeader req HeaderRequest"
  have "\<not> failed_payment s r s1" using assms(2) by (auto simp: failed_payment_def)
  then have "paid_delivery out s t_get t_settle t_record req r s1" using handlePayment_cases [OF assms(1)] by blast
  then have c: "cache s1 = Delete (cache s) ?rid" by (auto simp: paid_delivery_def)
  have ne: "?rid \<noteq> []" using assms(1,2) by (auto simp: handlePayment_def open_payment_def)
  have "Get (cache s2) t_get2 ?rid = None"
    unfolding assms(3) c cache_run_def by (rule cache_area.removed_stays [OF assms(4)])
  then show ?thesis using ne assms(5) by (simp add: handlePayment_def open_payment_def)
qed

subsection \<open>Requests side by side\<close>

text \<open>
  gin runs every request in a goroutine of its own, and \<open>handlePayment\<close> holds no lock from \<open>Get\<close> to
  \<open>Delete\<close>. A system is the shared state, the payment requests in progress, and a history of what
  happened; its steps are the atomic parts of the handlers in any order, the sweeper, changes by the
  admin API (markup, prices, database) and by others on the chain.
\<close>

datatype job =
    Fresh Request
  | Opened string Entry PaymentPayload
  | Paid string Entry Settlement
  | Done Response

datatype event =
    Staged string Entry
  | Charged string Entry PaymentPayload int Settlement
  | Delivered string Entry

record 'w system =
  srv :: "'w Server"
  jobs :: "job list"
  history :: "event list"

inductive relay_step :: "'w outside \<Rightarrow> 'w system \<Rightarrow> 'w system \<Rightarrow> bool" for out where
  arrive: "relay_step out c (c\<lparr>jobs := jobs c @ [Fresh req]\<rparr>)"
| challenge: "handleInitial out (srv c) t t' req body = (r, s') \<Longrightarrow> RBody r = Challenge ch \<Longrightarrow>
    map_of (RHeaders r) HeaderRequest = Some rid \<Longrightarrow> store (cache s') rid = Some e \<Longrightarrow>
    relay_step out c (c\<lparr>srv := s', history := Staged rid e # history c\<rparr>)"
| no_challenge: "handleInitial out (srv c) t t' req body = (r, s') \<Longrightarrow> \<forall>ch. RBody r \<noteq> Challenge ch \<Longrightarrow>
    relay_step out c (c\<lparr>srv := s'\<rparr>)"
| refuse: "i < length (jobs c) \<Longrightarrow> jobs c ! i = Fresh req \<Longrightarrow> open_payment (srv c) t req = Inl r \<Longrightarrow>
    relay_step out c (c\<lparr>jobs := (jobs c)[i := Done r]\<rparr>)"
| opened: "i < length (jobs c) \<Longrightarrow> jobs c ! i = Fresh req \<Longrightarrow> open_payment (srv c) t req = Inr (rid, e, p) \<Longrightarrow>
    relay_step out c (c\<lparr>jobs := (jobs c)[i := Opened rid e p]\<rparr>)"
| settle_fail: "i < length (jobs c) \<Longrightarrow> jobs c ! i = Opened rid e p \<Longrightarrow>
    settle_payment out (srv c) t rid e p = (Inl r, s') \<Longrightarrow>
    relay_step out c (c\<lparr>srv := s', jobs := (jobs c)[i := Done r]\<rparr>)"
| settled: "i < length (jobs c) \<Longrightarrow> jobs c ! i = Opened rid e p \<Longrightarrow>
    settle_payment out (srv c) t rid e p = (Inr st, s') \<Longrightarrow>
    relay_step out c (c\<lparr>srv := s', jobs := (jobs c)[i := Paid rid e st],
      history := Charged rid e p t st # history c\<rparr>)"
| delivered: "i < length (jobs c) \<Longrightarrow> jobs c ! i = Paid rid e st \<Longrightarrow> deliver (srv c) t rid e st = (r, s') \<Longrightarrow>
    relay_step out c (c\<lparr>srv := s', jobs := (jobs c)[i := Done r], history := Delivered rid e # history c\<rparr>)"
| sweep: "relay_step out c (c\<lparr>srv := srv c\<lparr>cache := sweep_tick (cache (srv c)) t\<rparr>\<rparr>)"
| admin: "relay_step out c (c\<lparr>srv := srv c\<lparr>cfg := cfg (srv c)\<lparr>Markup := m\<rparr>, prices := ps, db := d\<rparr>\<rparr>)"
| chain: "relay_step out c (c\<lparr>srv := srv c\<lparr>world := w\<rparr>\<rparr>)"

definition system_start :: "'w Server \<Rightarrow> int \<Rightarrow> 'w system" where
  "system_start s d = \<lparr>srv = s\<lparr>cache := New d\<rparr>, jobs = [], history = []\<rparr>"

definition reachable :: "'w outside \<Rightarrow> 'w Server \<Rightarrow> int \<Rightarrow> 'w system \<Rightarrow> bool" where
  "reachable out s d c \<longleftrightarrow> (relay_step out)\<^sup>*\<^sup>* (system_start s d) c"

text \<open>How often a request was charged and delivered, and how many are paid but not delivered yet.\<close>

definition charges :: "string \<Rightarrow> event list \<Rightarrow> nat" where
  "charges rid h = length (filter (\<lambda>ev. case ev of Charged r e p t st \<Rightarrow> r = rid | _ \<Rightarrow> False) h)"

definition deliveries :: "string \<Rightarrow> event list \<Rightarrow> nat" where
  "deliveries rid h = length (filter (\<lambda>ev. case ev of Delivered r e \<Rightarrow> r = rid | _ \<Rightarrow> False) h)"

definition owed :: "string \<Rightarrow> job list \<Rightarrow> nat" where
  "owed rid js = length (filter (\<lambda>j. case j of Paid r e st \<Rightarrow> r = rid | _ \<Rightarrow> False) js)"

definition job_staged :: "event set \<Rightarrow> job \<Rightarrow> bool" where
  "job_staged h j = (case j of Opened rid e p \<Rightarrow> Staged rid e \<in> h | Paid rid e st \<Rightarrow> Staged rid e \<in> h | _ \<Rightarrow> True)"

definition event_justified :: "'w outside \<Rightarrow> PaymentSettler \<Rightarrow> event set \<Rightarrow> event \<Rightarrow> bool" where
  "event_justified out stl h ev =
     (case ev of
        Staged rid e \<Rightarrow> True
      | Charged rid e p t st \<Rightarrow> Staged rid e \<in> h \<and> authorises (libs_of out) stl (t div second) p (Cost e) rid st
      | Delivered rid e \<Rightarrow> Staged rid e \<in> h)"

definition system_ok :: "'w outside \<Rightarrow> PaymentSettler \<Rightarrow> 'w system \<Rightarrow> bool" where
  "system_ok out stl c \<longleftrightarrow>
     settler (srv c) = stl \<and>
     (\<forall>rid e. store (cache (srv c)) rid = Some e \<longrightarrow> Staged rid e \<in> set (history c)) \<and>
     (\<forall>j \<in> set (jobs c). job_staged (set (history c)) j) \<and>
     (\<forall>ev \<in> set (history c). event_justified out stl (set (history c)) ev) \<and>
     (\<forall>rid. deliveries rid (history c) + owed rid (jobs c) = charges rid (history c))"

lemma owed_update:
  "i < length js \<Longrightarrow> owed rid (js[i := j]) + (if \<exists>e st. js ! i = Paid rid e st then 1 else 0) =
     owed rid js + (if \<exists>e st. j = Paid rid e st then 1 else 0)"
proof (induction js arbitrary: i)
  case (Cons x xs)
  have head: "(case x of Paid r e st \<Rightarrow> r = rid | _ \<Rightarrow> False) \<longleftrightarrow> (\<exists>e st. x = Paid rid e st)" for x
    by (cases x) auto
  show ?case
    using Cons by (cases i) (auto simp: owed_def head)
qed simp

lemma history_counts [simp]:
  "charges rid (Staged r e # h) = charges rid h" "deliveries rid (Staged r e # h) = deliveries rid h"
  "charges rid (Delivered r e # h) = charges rid h"
  "deliveries rid (Delivered r e # h) = (if r = rid then 1 else 0) + deliveries rid h"
  "charges rid (Charged r e p t st # h) = (if r = rid then 1 else 0) + charges rid h"
  "deliveries rid (Charged r e p t st # h) = deliveries rid h"
  by (auto simp: charges_def deliveries_def)

lemma justified_mono: "event_justified out stl h ev \<Longrightarrow> h \<subseteq> h' \<Longrightarrow> event_justified out stl h' ev"
  by (auto simp: event_justified_def split: event.splits)

lemma staged_mono: "job_staged h j \<Longrightarrow> h \<subseteq> h' \<Longrightarrow> job_staged h' j"
  by (auto simp: job_staged_def split: job.splits)

lemma handleInitial_frame:
  assumes "handleInitial out s t t' req body = (r, s')"
  shows "cfg s' = cfg s" "settler s' = settler s" "db s' = db s" "prices s' = prices s"
  using assms by (auto simp: handleInitial_def Let_def split: if_splits prod.splits option.splits)

lemma handleInitial_no_challenge:
  assumes "handleInitial out s t t' req body = (r, s')" "\<forall>ch. RBody r \<noteq> Challenge ch"
  shows "cache s' = cache s" "settler s' = settler s"
  using assms by (auto simp: handleInitial_def Let_def split: if_splits prod.splits option.splits)

lemma handleInitial_stores:
  assumes "handleInitial out s t t' req body = (r, s')" "RBody r = Challenge ch"
    and "map_of (RHeaders r) HeaderRequest = Some rid" "store (cache s') rid = Some e"
  shows "settler s' = settler s \<and> store (cache s') = (store (cache s))(rid \<mapsto> e)"
proof (rule handleInitial_Challenge [OF assms(1,2)])
  fix rid0 e0 w resp
  assume rid0: "rid0 = RequestID (sha256 out) (body @ ''|'' @ itoa t)"
    and h: "RHeaders r = set_header HeaderCost (USDCUnitsToUSD (Some (Cost e0))) (set_header HeaderRequest rid0 [])"
    and s': "s' = s\<lparr>world := w, cache := Store (cache s) t' rid0 e0\<rparr>"
  have "rid0 \<noteq> []" using rid0 by simp
  then have "rid = rid0"
    using assms(3) unfolding h map_of_set_header [OF header_keys] by (simp add: set_header_def)
  then show ?thesis using assms(4) s' by (auto simp: Store_def)
qed

lemma system_ok_server:
  assumes "system_ok out stl c" "settler s' = settler (srv c)"
    and "\<And>rid e. store (cache s') rid = Some e \<Longrightarrow> store (cache (srv c)) rid = Some e"
  shows "system_ok out stl (c\<lparr>srv := s'\<rparr>)"
  using assms by (auto simp: system_ok_def)

lemma system_ok_event:
  assumes "system_ok out stl c" "event_justified out stl (insert ev (set (history c))) ev"
    and "\<forall>rid. deliveries rid (ev # history c) + owed rid js = charges rid (ev # history c)"
    and "\<forall>j \<in> set js. job_staged (set (history c)) j"
  shows "system_ok out stl (c\<lparr>jobs := js, history := ev # history c\<rparr>)"
  using assms by (auto simp: system_ok_def intro: justified_mono staged_mono)

lemma system_ok_job:
  assumes "system_ok out stl c" "i < length (jobs c)" "job_staged (set (history c)) j"
    and "\<not> (\<exists>rid e st. jobs c ! i = Paid rid e st)" "\<not> (\<exists>rid e st. j = Paid rid e st)"
  shows "system_ok out stl (c\<lparr>jobs := (jobs c)[i := j]\<rparr>)"
proof -
  have "owed rid ((jobs c)[i := j]) = owed rid (jobs c)" for rid
    using owed_update [OF assms(2), of rid j] assms(4,5) by simp
  then show ?thesis
    using assms(1,3) by (auto simp: system_ok_def dest!: set_update_subset_insert [THEN subsetD])
qed

lemma sweep_store: "store (sweep_tick c t) rid = Some e \<Longrightarrow> store c rid = Some e"
  by (auto simp: sweep_tick_def split: if_splits option.splits)

lemma system_ok_challenge:
  assumes "handleInitial out (srv c) t t' req body = (r, s')" "RBody r = Challenge ch"
    "map_of (RHeaders r) HeaderRequest = Some rid" "store (cache s') rid = Some e" "system_ok out stl c"
  shows "system_ok out stl (c\<lparr>srv := s', history := Staged rid e # history c\<rparr>)"
proof -
  note st = handleInitial_stores [OF assms(1-4), THEN conjunct1] handleInitial_stores [OF assms(1-4), THEN conjunct2]
  have "settler s' = stl" using st(1) assms(5) by (simp add: system_ok_def)
  moreover have "Staged rid' e' \<in> insert (Staged rid e) (set (history c))"
    if "store (cache s') rid' = Some e'" for rid' e'
    using that assms(5) unfolding st(2) by (auto simp: system_ok_def split: if_splits)
  ultimately show ?thesis
    using assms(5)
    by (auto simp: system_ok_def event_justified_def [of _ _ _ "Staged rid e"] intro: justified_mono staged_mono)
qed

lemma job_in_progress:
  assumes "i < length (jobs c)" "jobs c ! i = j" "system_ok out stl c"
  shows "job_staged (set (history c)) j"
  using assms by (auto simp: system_ok_def)

lemma system_ok_settled:
  assumes "i < length (jobs c)" "jobs c ! i = Opened rid e p" "settle_payment out (srv c) t rid e p = (Inr st, s')"
    and ok: "system_ok out stl c"
  shows "system_ok out stl (c\<lparr>srv := s', jobs := (jobs c)[i := Paid rid e st], history := Charged rid e p t st # history c\<rparr>)"
proof -
  note sp = settle_payment_Inr [OF assms(3)]
  obtain w where s': "s' = srv c\<lparr>world := w\<rparr>" using sp(2) by blast
  have ok': "system_ok out stl (c\<lparr>srv := s'\<rparr>)" using ok s' by (intro system_ok_server) auto
  have sg: "Staged rid e \<in> set (history c)" using job_in_progress [OF assms(1,2) ok] by (simp add: job_staged_def)
  have "owed rid' ((jobs c)[i := Paid rid e st]) = (if rid = rid' then 1 else 0) + owed rid' (jobs c)" for rid'
    using owed_update [OF assms(1), of rid' "Paid rid e st"] assms(2) by auto
  then have "system_ok out stl (c\<lparr>srv := s', jobs := (jobs c)[i := Paid rid e st],
      history := Charged rid e p t st # history (c\<lparr>srv := s'\<rparr>)\<rparr>)"
    using sp(1) sg ok
    by (intro system_ok_event [OF ok'])
      (auto simp: system_ok_def event_justified_def job_staged_def dest!: set_update_subset_insert [THEN subsetD])
  then show ?thesis by simp
qed

lemma system_ok_delivered:
  assumes "i < length (jobs c)" "jobs c ! i = Paid rid e st" "deliver (srv c) t rid e st = (r, s')"
    and ok: "system_ok out stl c"
  shows "system_ok out stl (c\<lparr>srv := s', jobs := (jobs c)[i := Done r], history := Delivered rid e # history c\<rparr>)"
proof -
  have s': "settler s' = settler (srv c)" "cache s' = Delete (cache (srv c)) rid"
    using assms(3) deliver_simps [of "srv c" t rid e st] by simp_all
  have ok': "system_ok out stl (c\<lparr>srv := s'\<rparr>)"
    using ok s' by (intro system_ok_server) (auto simp: Delete_def split: if_splits)
  have sg: "Staged rid e \<in> set (history c)" using job_in_progress [OF assms(1,2) ok] by (simp add: job_staged_def)
  have "(if rid = rid' then 1 else 0) + owed rid' ((jobs c)[i := Done r]) = owed rid' (jobs c)" for rid'
    using owed_update [OF assms(1), of rid' "Done r"] assms(2) by auto
  then have "system_ok out stl (c\<lparr>srv := s', jobs := (jobs c)[i := Done r],
      history := Delivered rid e # history (c\<lparr>srv := s'\<rparr>)\<rparr>)"
    using sg ok
    by (intro system_ok_event [OF ok'])
      (auto simp: system_ok_def event_justified_def job_staged_def add.assoc add.left_commute
        dest!: set_update_subset_insert [THEN subsetD])
  then show ?thesis by simp
qed

lemma system_ok_step:
  assumes "relay_step out c c'" "system_ok out stl c"
  shows "system_ok out stl c'"
  using assms
proof (cases rule: relay_step.cases)
  case (challenge t t' req body r s' ch rid e)
  then show ?thesis using system_ok_challenge [OF challenge(2-5) assms(2)] by simp
next
  case (no_challenge t t' req body r s')
  then show ?thesis using handleInitial_no_challenge [OF no_challenge(2,3)] assms(2)
    by (intro subst [OF no_challenge(1) [symmetric], of "system_ok out stl"] system_ok_server) auto
next
  case (opened i req t rid e p)
  have "Staged rid e \<in> set (history c)"
    using opened(4) assms(2) by (auto simp: open_payment_Inr system_ok_def Get_def split: option.splits if_splits)
  then show ?thesis
    using assms(2) opened by (auto simp: job_staged_def intro!: system_ok_job)
next
  case (refuse i req t r)
  then show ?thesis using assms(2) by (auto simp: job_staged_def intro!: system_ok_job)
next
  case (settle_fail i rid e p t r s')
  obtain w where s': "s' = srv c\<lparr>world := w\<rparr>" using settle_payment_Inl [OF settle_fail(4)] by blast
  have "system_ok out stl (c\<lparr>srv := s'\<rparr>)" using assms(2) s' by (intro system_ok_server) auto
  from system_ok_job [OF this, of i "Done r"] show ?thesis
    using settle_fail by (simp add: job_staged_def)
next
  case (settled i rid e p t st s')
  then show ?thesis using system_ok_settled [OF settled(2-4) assms(2)] by simp
next
  case (delivered i rid e st t r s')
  then show ?thesis using system_ok_delivered [OF delivered(2-4) assms(2)] by simp
next
  case (sweep t)
  then show ?thesis using assms(2) by (auto intro!: system_ok_server dest: sweep_store)
next
  case (arrive req)
  then show ?thesis using assms(2) by (auto simp: system_ok_def job_staged_def owed_def)
qed (auto simp: system_ok_def)

text \<open>C4: However requests interleave, nothing is given away: in every state the system can reach, a request
  id was delivered at most as often as it was charged, and every charge was a settlement authorised
  for exactly the price of an answer staged under that id; every answer delivered was staged.\<close>

theorem concurrent_deliveries_paid:
  assumes "reachable out s d c"
  shows "deliveries rid (history c) \<le> charges rid (history c) \<and>
    (\<forall>e. Delivered rid e \<in> set (history c) \<longrightarrow> Staged rid e \<in> set (history c)) \<and>
    (\<forall>e p t st. Charged rid e p t st \<in> set (history c) \<longrightarrow> Staged rid e \<in> set (history c) \<and>
       authorises (libs_of out) (settler s) (t div second) p (Cost e) rid st)"
proof -
  have "system_ok out (settler s) (system_start s d)"
    by (simp add: system_ok_def system_start_def New_def deliveries_def charges_def owed_def)
  with assms [unfolded reachable_def] have ok: "system_ok out (settler s) c"
    by (induction rule: rtranclp_induct) (auto intro: system_ok_step)
  then have "deliveries rid (history c) + owed rid (jobs c) = charges rid (history c)"
    by (simp add: system_ok_def)
  then have "deliveries rid (history c) \<le> charges rid (history c)" by linarith
  moreover have j: "event_justified out (settler s) (set (history c)) ev" if "ev \<in> set (history c)" for ev
    using ok that by (simp add: system_ok_def)
  have "Staged rid e \<in> set (history c)" if "Delivered rid e \<in> set (history c)" for e
    using j [OF that] by (simp add: event_justified_def)
  moreover have "Staged rid e \<in> set (history c) \<and> authorises (libs_of out) (settler s) (t div second) p (Cost e) rid st"
    if "Charged rid e p t st \<in> set (history c)" for e p t st
    using j [OF that] by (simp add: event_justified_def)
  ultimately show ?thesis by blast
qed

subsection \<open>Schedules\<close>

text \<open>A schedule picks the steps; the executable \<open>run\<close> follows it.\<close>

datatype action = Arrive Request | Initial int int Request string | Advance nat int

fun act :: "'w outside \<Rightarrow> action \<Rightarrow> 'w system \<Rightarrow> 'w system option" where
  "act out (Arrive req) c = Some (c\<lparr>jobs := jobs c @ [Fresh req]\<rparr>)"
| "act out (Initial t t' req body) c =
     (case handleInitial out (srv c) t t' req body of (r, s') \<Rightarrow>
        case RBody r of
          Challenge ch \<Rightarrow>
            (case map_of (RHeaders r) HeaderRequest of
               None \<Rightarrow> None
             | Some rid \<Rightarrow> map_option (\<lambda>e. c\<lparr>srv := s', history := Staged rid e # history c\<rparr>) (store (cache s') rid))
        | _ \<Rightarrow> Some (c\<lparr>srv := s'\<rparr>))"
| "act out (Advance i t) c =
     (if i < length (jobs c) then
        (case jobs c ! i of
           Fresh req \<Rightarrow>
             (case open_payment (srv c) t req of
                Inl r \<Rightarrow> Some (c\<lparr>jobs := (jobs c)[i := Done r]\<rparr>)
              | Inr (rid, e, p) \<Rightarrow> Some (c\<lparr>jobs := (jobs c)[i := Opened rid e p]\<rparr>))
         | Opened rid e p \<Rightarrow>
             (case settle_payment out (srv c) t rid e p of
                (Inl r, s') \<Rightarrow> Some (c\<lparr>srv := s', jobs := (jobs c)[i := Done r]\<rparr>)
              | (Inr st, s') \<Rightarrow> Some (c\<lparr>srv := s', jobs := (jobs c)[i := Paid rid e st],
                                      history := Charged rid e p t st # history c\<rparr>))
         | Paid rid e st \<Rightarrow>
             (case deliver (srv c) t rid e st of (r, s') \<Rightarrow>
                Some (c\<lparr>srv := s', jobs := (jobs c)[i := Done r], history := Delivered rid e # history c\<rparr>))
         | Done r \<Rightarrow> None)
      else None)"

fun run :: "'w outside \<Rightarrow> action list \<Rightarrow> 'w system \<Rightarrow> 'w system option" where
  "run out [] c = Some c"
| "run out (a # as) c = Option.bind (act out a c) (run out as)"

lemma act_step: "act out a c = Some c' \<Longrightarrow> relay_step out c c'"
  by (cases a)
    (auto split: prod.splits body.splits option.splits if_splits job.splits sum.splits
      intro: relay_step.intros)

lemma run_steps: "run out as c0 = Some c \<Longrightarrow> (relay_step out)\<^sup>*\<^sup>* c0 c"
  by (induction as arbitrary: c0)
    (auto split: Option.bind_splits intro: converse_rtranclp_into_rtranclp act_step)

subsection \<open>Two payments for one answer\<close>

lemma settle_keeps_server:
  "settle_payment out s t rid e p = (Inr st, s') \<Longrightarrow> db s' = db s \<and> cfg s' = cfg s"
  by (auto simp: settle_payment_def split: prod.splits sum.splits)

lemma db_wf_deliver: "db_wf (db s) \<Longrightarrow> db_wf (db (snd (deliver s t rid e st)))"
  by (simp add: db_wf_Record)

lemma distinct_filter_key: "distinct (map f xs) \<Longrightarrow> length (filter (\<lambda>x. f x = k) xs) \<le> 1"
  by (induction xs) (auto simp: filter_empty_conv image_iff)

lemma one_row: "db_wf d \<Longrightarrow> length (filter (\<lambda>p. PayRequestID p = rid) (payments d)) \<le> 1"
  by (rule distinct_filter_key) (simp add: db_wf_def)

definition race :: "nat \<Rightarrow> Request \<Rightarrow> int \<Rightarrow> int \<Rightarrow> Request \<Rightarrow> int \<Rightarrow> int \<Rightarrow> action list" where
  "race n req1 t1 t3 req2 t2 t4 =
     [Arrive req1, Arrive req2, Advance n t1, Advance (Suc n) t2, Advance n t3, Advance (Suc n) t4,
      Advance n t3, Advance (Suc n) t4]"

lemma race_run:
  assumes "open_payment (srv c) t1 req1 = Inr (rid, e, p1)" "open_payment (srv c) t2 req2 = Inr (rid, e, p2)"
    and "settle_payment out (srv c) t3 rid e p1 = (Inr st1, s1)" "settle_payment out s1 t4 rid e p2 = (Inr st2, s2)"
  shows "\<exists>c'. run out (race (length (jobs c)) req1 t1 t3 req2 t2 t4) c = Some c' \<and>
    history c' = Delivered rid e # Delivered rid e # Charged rid e p2 t4 st2 # Charged rid e p1 t3 st1 # history c \<and>
    srv c' = snd (deliver (snd (deliver s2 t3 rid e st1)) t4 rid e st2)"
  using assms by (simp add: race_def nth_append case_prod_beta)

text \<open>C17: One answer can be charged twice: nothing keeps two payments for it from both passing \<open>Get\<close>
  before one of them reaches \<open>Delete\<close>. Whenever two payment requests for one staged answer are
  acceptable now and their payments can be settled one after the other (say two authorizations with
  different nonces, which the token contract takes both), the running server can get to a state
  where both were charged in full and the answer was delivered twice, while the ledger, whose request
  ids are unique, has at most one row for it.\<close>

theorem race_charges_twice:
  assumes "reachable out s d c" "db_wf (db (srv c))"
    and "open_payment (srv c) t1 req1 = Inr (rid, e, p1)" "open_payment (srv c) t2 req2 = Inr (rid, e, p2)"
    and "settle_payment out (srv c) t3 rid e p1 = (Inr st1, s1)" "settle_payment out s1 t4 rid e p2 = (Inr st2, s2)"
  shows "\<exists>c'. reachable out s d c' \<and> Charged rid e p1 t3 st1 \<in> set (history c') \<and> Charged rid e p2 t4 st2 \<in> set (history c') \<and>
    charges rid (history c') = charges rid (history c) + 2 \<and>
    deliveries rid (history c') = deliveries rid (history c) + 2 \<and> world (srv c') = world s2 \<and>
    length (filter (\<lambda>p. PayRequestID p = rid) (payments (db (srv c')))) \<le> 1"
proof -
  obtain c' where c': "run out (race (length (jobs c)) req1 t1 t3 req2 t2 t4) c = Some c'"
    "history c' = Delivered rid e # Delivered rid e # Charged rid e p2 t4 st2 # Charged rid e p1 t3 st1 # history c"
    "srv c' = snd (deliver (snd (deliver s2 t3 rid e st1)) t4 rid e st2)"
    using race_run [OF assms(3-6)] by blast
  have "reachable out s d c'"
    using assms(1) run_steps [OF c'(1)] unfolding reachable_def by (rule rtranclp_trans)
  moreover have "db_wf (db (srv c'))"
    unfolding c'(3) using assms(2) settle_keeps_server [OF assms(5)] settle_keeps_server [OF assms(6)]
    by (intro db_wf_deliver) simp
  ultimately show ?thesis using c'(2,3) one_row by (intro exI [of _ c']) simp
qed

subsection \<open>A run\<close>

text \<open>
  A server on an EVM chain, one unit per token, and a client. The token contract takes every nonce once:
  the state of the chain is the set of the used ones, a nonce a bit of it.
\<close>

definition nonce_bit :: "string \<Rightarrow> nat" where
  "nonce_bit n = 2 ^ (code (hd n) mod 8)"

definition nonce_rpc :: "nat eth_rpc" where
  "nonce_rpc = sample_eth_rpc\<lparr>Transact := (\<lambda>w usdc sender m args.
     case args ! 5 of
       ABytes32 n \<Rightarrow> if odd (w div nonce_bit n) then (None, w) else (Some (''0x'' @ take 1 n), w + nonce_bit n)
     | _ \<Rightarrow> (None, w))\<rparr>"

definition sample_live_config :: Config where
  "sample_live_config =
     \<lparr>Port = ''3402'', UpstreamURL = ''https://up'', BaseURL = '''', UpstreamToken = ''sk'', PaymentChain = ''evm'',
      PayToAddress = sample_address, GasPrivKeyHex = ''0xab'', ChainID = 84532, Network = ''eip155:84532'',
      RPCURL = ''https://rpc'', USDCAddress = sample_address, USDCName = ''USDC'', USDCVersion = ''2'',
      SolanaCluster = ''devnet'', SolanaConfirmation = ''confirmed'', DBPath = ''./xpay.db'', AdminToken = ''secret'',
      CacheTTLSecs = 300, SigTimeoutSecs = 120, UpstreamTimeoutSecs = 300, ShutdownTimeoutSecs = 10,
      MaxBodyBytes = 4194304, AllowedOrigins = [''*''], Markup = f64_one, DryRun = False\<rparr>"

definition sample_settler :: PaymentSettler where
  "sample_settler = EVM \<lparr>ecfg = sample_live_config, contract = Some ''usdc'', opts = Some ''gas''\<rparr>"

definition sample_server :: "nat Server" where
  "sample_server =
     \<lparr>cfg = sample_live_config, cache = New 0, settler = sample_settler, db = empty_db,
      prices = NewManager (Some \<lparr>defaultPrice = \<lparr>InputMicrosPerM = 1000000, OutputMicrosPerM = 1000000,
        CachedInputMicrosPerM = 1000000\<rparr>, models = Map.empty, prefixes = []\<rparr>),
      world = 0\<rparr>"

definition sample_completion :: string where
  "sample_completion = json_object [(''model'', json_quote ''m''),
     (''usage'', json_object [(''prompt_tokens'', ''3''), (''completion_tokens'', ''4'')])]"

definition sample_outside :: "nat outside" where
  "sample_outside =
     \<lparr>libs_of = sample_libs\<lparr>evm_client := nonce_rpc\<rparr>, sha256 = (\<lambda>b. take 16 b), NewRequest_ok = (\<lambda>url. True),
      HTTP_Do = (\<lambda>w r. (Some \<lparr>UpStatus = 200, UpContentType = '''', UpRespBody = sample_completion\<rparr>, w))\<rparr>"

text \<open>Authorizations that differ in their nonce.\<close>

definition nonce_authorization :: "char \<Rightarrow> TransferAuthorization" where
  "nonce_authorization n = sample_authorization\<lparr>AuthNonce := replicate 32 n\<rparr>"

definition sample_evm_payload :: "char \<Rightarrow> ExactEvmPayload" where
  "sample_evm_payload n = \<lparr>Signature = ''0x'' @ sample_signature,
     Authorization = wire_authorization sample_geth (nonce_authorization n)\<rparr>"

definition sample_payment :: "char \<Rightarrow> PaymentPayload" where
  "sample_payment n = \<lparr>PayX402Version = 1, PayScheme = ''exact'', PayloadNetwork = ''eip155:84532'',
     Payload = Marshal_evm_payload (sample_evm_payload n)\<rparr>"

definition paid_request :: "string \<Rightarrow> string \<Rightarrow> Request" where
  "paid_request rid header =
     \<lparr>Method = ''POST'', Path = ''/v1/messages'',
      GetHeader = (\<lambda>h. if h = HeaderRequest then rid else if h = HeaderPayment then header else ''''),
      Query = (\<lambda>q. ''''), ReqBody = Some ''{}''\<rparr>"

definition sample_rid :: string where
  "sample_rid = RequestID (sha256 sample_outside) (''{}'' @ ''|'' @ itoa 5)"

definition nonce_request :: "char \<Rightarrow> Request" where
  "nonce_request n = paid_request sample_rid
     (EncodeToString (Marshal_payment 1 ''exact'' ''eip155:84532'' (Marshal_evm_payload (sample_evm_payload n))))"

definition sample_paid_request :: Request where
  "sample_paid_request = nonce_request (CHR ''a'')"

definition sample_initial_request :: Request where
  "sample_initial_request = (paid_request '''' '''')\<lparr>GetHeader := (\<lambda>h. '''')\<rparr>"

lemma decodePaymentHeader_client:
  assumes "utf8_valid network" "encodes d payload v" "d < max_nesting"
  shows "decodePaymentHeader (EncodeToString (Marshal_payment 1 ''exact'' network payload)) =
    Inr \<lparr>PayX402Version = 1, PayScheme = ''exact'', PayloadNetwork = network, Payload = payload\<rparr>"
proof -
  have "utf8_valid ''exact''" by code_simp
  then have u: "Unmarshal decode_PaymentPayload (Marshal_payment 1 ''exact'' network payload) zero_payment_payload =
      (\<lparr>PayX402Version = 1, PayScheme = ''exact'', PayloadNetwork = network, Payload = payload\<rparr>, False)"
    using assms by (intro Unmarshal_payment) (simp_all add: int64_range_def)
  have "EncodeToString x \<noteq> []" if "x \<noteq> []" for x
  proof
    assume "EncodeToString x = []"
    then have "DecodeString [] = Some x" by (metis DecodeString_EncodeToString)
    then show False using that by (simp add: DecodeString_def)
  qed
  then have "EncodeToString (Marshal_payment 1 ''exact'' network payload) \<noteq> []"
    by (simp add: Marshal_payment_def json_object_def)
  then show ?thesis
    by (simp add: decodePaymentHeader_def DecodeString_EncodeToString SchemeExact_def u)
qed

abbreviation (input) a_or_b :: "char \<Rightarrow> bool" where
  "a_or_b n \<equiv> n = CHR ''a'' \<or> n = CHR ''b''"

lemma sample_utf8:
  assumes "a_or_b n"
  shows "authorization_utf8 (Authorization (sample_evm_payload n))" "utf8_valid (Signature (sample_evm_payload n))"
  using assms by (elim disjE; hypsubst; code_simp)+

lemma nonce_decodes:
  assumes "a_or_b n"
  shows "decodePaymentHeader (GetHeader (nonce_request n) HeaderPayment) = Inr (sample_payment n)"
proof -
  have "encodes 2 (Marshal_evm_payload (sample_evm_payload n)) (JObj (evm_payload_members (sample_evm_payload n)))"
    using encodes_object [OF _ evm_payload_encodes [OF sample_utf8(2,1) [OF assms]]]
    by (simp add: Marshal_evm_payload_members numeral_2_eq_2 evm_payload_members_def)
  moreover have "utf8_valid ''eip155:84532''" by code_simp
  ultimately show ?thesis
    using decodePaymentHeader_client
    by (simp add: sample_payment_def nonce_request_def paid_request_def max_nesting_def
        HeaderPayment_def HeaderRequest_def)
qed

definition nonce_settlement :: "char \<Rightarrow> Settlement" where
  "nonce_settlement n = \<lparr>StTxHash = ''0x'' @ [n], StPayer = ''0x'' @ AuthFrom sample_authorization\<rparr>"

lemma sample_settle:
  assumes "a_or_b n" "0 \<le> now" "now < 100" "\<not> odd (w div nonce_bit [n])"
  shows "Settle (sample_libs\<lparr>evm_client := nonce_rpc\<rparr>) sample_settler w now (sample_payment n) 7 rid =
    (Inr (nonce_settlement n), w + nonce_bit [n])"
proof -
  note u = Unmarshal_evm_payload [OF sample_utf8(2,1) [OF assms(1)]]
  have a: "DecodeAuthorization sample_geth (Authorization (sample_evm_payload n)) = Inr (nonce_authorization n)"
    using assms(1) by (elim disjE; hypsubst; code_simp)
  have f: "AuthValue (nonce_authorization n) = 7" "AuthValidAfter (nonce_authorization n) = 0"
    "AuthValidBefore (nonce_authorization n) = 100" "AuthTo (nonce_authorization n) = AuthTo sample_authorization"
    "AuthFrom (nonce_authorization n) = AuthFrom sample_authorization"
    by (simp_all add: nonce_authorization_def sample_authorization_def)
  have to: "EqualFold (Address_Hex sample_geth (AuthTo sample_authorization)) (PayToAddress sample_live_config)"
    by code_simp
  have sig: "hexutil_Decode sample_geth (Signature (sample_evm_payload n)) = Some sample_signature"
    by (simp add: sample_evm_payload_def sample_geth_def HasPrefix_def)
  have v: "VerifyEIP712 sample_geth (nonce_authorization n) sample_signature sample_live_config =
      Inr (AuthFrom sample_authorization)"
    using assms(1) by (elim disjE; hypsubst; code_simp)
  obtain r ss v where split: "splitSignature sample_geth sample_signature = Inr (r, ss, v)"
  proof -
    have "is_ok (splitSignature sample_geth sample_signature)" by code_simp
    then show thesis using that by (auto simp: is_ok_iff)
  qed
  have "transfer_args (nonce_authorization n) r ss v ! 5 = ABytes32 (replicate 32 n)"
    by (simp add: transfer_args_def nonce_authorization_def)
  moreover have "nonce_bit (replicate 32 n) = nonce_bit [n]" "take 1 (replicate 32 n) = [n]"
    by (simp_all add: nonce_bit_def)
  ultimately have s: "submit sample_geth nonce_rpc \<lparr>ecfg = sample_live_config, contract = Some ''usdc'', opts = Some ''gas''\<rparr> w
      (nonce_authorization n) sample_signature = (Inr (''0x'' @ [n]), w + nonce_bit [n])"
    using assms(4) by (simp add: submit_def split sample_live_config_def nonce_rpc_def)
  have h: "Address_Hex sample_geth a = ''0x'' @ a" for a by (simp add: sample_geth_def)
  show ?thesis
    using assms(2,3) to
    by (simp add: Settle_def sample_settler_def EVM_Settle_def sample_payment_def u a f sig v s h sample_libs_def
        nonce_settlement_def)
qed

text \<open>The server after the first request: the answer is staged, for 7 units.\<close>

definition sample_first :: "Response \<times> nat Server" where
  "sample_first = handleInitial sample_outside sample_server 5 5 sample_initial_request ''{}''"

definition staged_server :: "nat Server" where
  "staged_server = snd sample_first"

lemma sample_challenge:
  "\<exists>ch. RBody (fst sample_first) = Challenge ch \<and> map_of (RHeaders (fst sample_first)) HeaderRequest = Some sample_rid"
proof -
  have "case RBody (fst sample_first) of
      Challenge ch \<Rightarrow> map_of (RHeaders (fst sample_first)) HeaderRequest = Some sample_rid | _ \<Rightarrow> False"
    by code_simp
  then show ?thesis by (auto split: body.splits)
qed

lemma staged_server_entry:
  "\<exists>e. Get (cache staged_server) 6 sample_rid = Some e \<and> Cost e = 7 \<and> Status e = 200"
proof -
  have "map_option (\<lambda>e. (Cost e, Status e)) (Get (cache staged_server) 6 sample_rid) = Some (7, 200)" by code_simp
  then show ?thesis by auto
qed

lemma staged_server_fields:
  "world staged_server = 0" "cfg staged_server = sample_live_config" "settler staged_server = sample_settler"
  "db staged_server = empty_db"
proof -
  show "world staged_server = 0" by code_simp
  have "handleInitial sample_outside sample_server 5 5 sample_initial_request ''{}'' = (fst sample_first, staged_server)"
    by (simp add: sample_first_def staged_server_def)
  from handleInitial_frame [OF this]
  show "cfg staged_server = sample_live_config" "settler staged_server = sample_settler" "db staged_server = empty_db"
    by (simp_all add: sample_server_def)
qed

lemma sample_open:
  assumes "Get (cache staged_server) 6 sample_rid = Some e" "a_or_b n"
  shows "open_payment staged_server 6 (nonce_request n) = Inr (sample_rid, e, sample_payment n)"
proof -
  have "GetHeader (nonce_request n) HeaderRequest = sample_rid"
    by (simp add: nonce_request_def paid_request_def)
  then show ?thesis
    using assms nonce_decodes
    by (simp add: open_payment_Inr sample_rid_def X402Version_def staged_server_fields)
      (simp add: sample_payment_def sample_live_config_def)
qed

lemma sample_settle_payment:
  assumes "settler s = sample_settler" "Cost e = 7" "a_or_b n" "\<not> odd (world s div nonce_bit [n])"
  shows "settle_payment sample_outside s 7 sample_rid e (sample_payment n) =
    (Inr (nonce_settlement n), s\<lparr>world := world s + nonce_bit [n]\<rparr>)"
  using assms sample_settle [of n 0 "world s" sample_rid]
  by (simp add: settle_payment_def sample_outside_def second_def panicked_def)

text \<open>The staged answer, and payments with two nonces for it.\<close>

lemma nonces_settle:
  fixes e :: Entry
  defines "paid \<equiv> staged_server\<lparr>world := 2\<rparr>" and "paid_twice \<equiv> staged_server\<lparr>world := 6\<rparr>"
  assumes "Cost e = 7"
  shows "settle_payment sample_outside staged_server 7 sample_rid e (sample_payment (CHR ''a'')) =
      (Inr (nonce_settlement (CHR ''a'')), paid)"
    "settle_payment sample_outside paid 7 sample_rid e (sample_payment (CHR ''b'')) =
      (Inr (nonce_settlement (CHR ''b'')), paid_twice)"
proof -
  have "nonce_bit ''a'' = 2" "nonce_bit ''b'' = 4" by code_simp+
  then show "settle_payment sample_outside staged_server 7 sample_rid e (sample_payment (CHR ''a'')) =
      (Inr (nonce_settlement (CHR ''a'')), paid)"
    "settle_payment sample_outside paid 7 sample_rid e (sample_payment (CHR ''b'')) =
      (Inr (nonce_settlement (CHR ''b'')), paid_twice)"
    using sample_settle_payment [of staged_server e "CHR ''a''"] sample_settle_payment [of paid e "CHR ''b''"] assms
    by (simp_all add: staged_server_fields)
qed

lemma staged_reachable:
  "\<exists>c e. reachable sample_outside sample_server 0 c \<and> srv c = staged_server \<and> jobs c = [] \<and>
     history c = [Staged sample_rid e] \<and> Get (cache staged_server) 6 sample_rid = Some e \<and> Cost e = 7"
proof -
  obtain e where e: "Get (cache staged_server) 6 sample_rid = Some e" "Cost e = 7" using staged_server_entry by blast
  then have st: "store (cache staged_server) sample_rid = Some e"
    by (auto simp: Get_def split: option.splits if_splits)
  let ?c = "\<lparr>srv = staged_server, jobs = [], history = [Staged sample_rid e]\<rparr>"
  have start: "system_start sample_server 0 = \<lparr>srv = sample_server, jobs = [], history = []\<rparr>"
    by (simp add: system_start_def sample_server_def)
  have out: "handleInitial sample_outside sample_server 5 5 sample_initial_request ''{}'' = (fst sample_first, staged_server)"
    by (simp add: sample_first_def staged_server_def)
  obtain ch where ch: "RBody (fst sample_first) = Challenge ch"
      "map_of (RHeaders (fst sample_first)) HeaderRequest = Some sample_rid"
    using sample_challenge by blast
  have "relay_step sample_outside (system_start sample_server 0) ?c"
    using relay_step.challenge [of sample_outside "system_start sample_server 0", unfolded start system.simps, OF out ch st]
    unfolding start by simp
  then have "reachable sample_outside sample_server 0 ?c" by (simp add: reachable_def)
  then show ?thesis using e by (intro exI [of _ ?c] exI [of _ e]) simp
qed

theorem race_charges_twice_witness:
  "\<exists>c e st1 st2. reachable sample_outside sample_server 0 c \<and>
     Charged sample_rid e (sample_payment (CHR ''a'')) 7 st1 \<in> set (history c) \<and>
     Charged sample_rid e (sample_payment (CHR ''b'')) 7 st2 \<in> set (history c) \<and> StTxHash st1 \<noteq> StTxHash st2 \<and>
     charges sample_rid (history c) = 2 \<and> deliveries sample_rid (history c) = 2 \<and> world (srv c) = 6 \<and>
     length (filter (\<lambda>p. PayRequestID p = sample_rid) (payments (db (srv c)))) \<le> 1"
proof -
  obtain c e where c: "reachable sample_outside sample_server 0 c" "srv c = staged_server"
      "history c = [Staged sample_rid e]" "Get (cache staged_server) 6 sample_rid = Some e" "Cost e = 7"
    using staged_reachable by blast
  have "db_wf (db (srv c))" by (simp add: c(2) staged_server_fields db_wf_def empty_db_def)
  from race_charges_twice [OF c(1) this, unfolded c(2),
      OF sample_open [OF c(4)] sample_open [OF c(4)] nonces_settle [OF c(5)]]
  obtain c' where "reachable sample_outside sample_server 0 c'"
    "Charged sample_rid e (sample_payment (CHR ''a'')) 7 (nonce_settlement (CHR ''a'')) \<in> set (history c')"
    "Charged sample_rid e (sample_payment (CHR ''b'')) 7 (nonce_settlement (CHR ''b'')) \<in> set (history c')"
    "charges sample_rid (history c') = charges sample_rid (history c) + 2"
    "deliveries sample_rid (history c') = deliveries sample_rid (history c) + 2"
    "world (srv c') = world (staged_server\<lparr>world := 6\<rparr>)"
    "length (filter (\<lambda>p. PayRequestID p = sample_rid) (payments (db (srv c')))) \<le> 1"
    by auto
  moreover have "charges sample_rid (history c) = 0" "deliveries sample_rid (history c) = 0"
    by (simp_all add: c(3) charges_def deliveries_def)
  moreover have "StTxHash (nonce_settlement (CHR ''a'')) \<noteq> StTxHash (nonce_settlement (CHR ''b''))"
    by (simp add: nonce_settlement_def)
  ultimately show ?thesis
    by (intro exI [of _ c'] exI [of _ e] exI [of _ "nonce_settlement (CHR ''a'')"]
        exI [of _ "nonce_settlement (CHR ''b'')"]) simp
qed

theorem concurrent_deliveries_paid_witness:
  "\<exists>c. reachable sample_outside sample_server 0 c \<and> deliveries sample_rid (history c) = 2 \<and>
     2 \<le> charges sample_rid (history c)"
proof -
  obtain c e where c: "reachable sample_outside sample_server 0 c" "srv c = staged_server"
      "history c = [Staged sample_rid e]" "Get (cache staged_server) 6 sample_rid = Some e" "Cost e = 7"
    using staged_reachable by blast
  note opened = sample_open [OF c(4), of "CHR ''a''"] sample_open [OF c(4), of "CHR ''b''"]
  obtain c' acts where c': "run sample_outside acts c = Some c'" "deliveries sample_rid (history c') = 2"
    using race_run [of c 6 "nonce_request (CHR ''a'')" sample_rid e "sample_payment (CHR ''a'')" 6
        "nonce_request (CHR ''b'')" "sample_payment (CHR ''b'')", unfolded c(2), OF _ _ nonces_settle [OF c(5)]] opened c(3)
    by (auto simp: deliveries_def)
  have "reachable sample_outside sample_server 0 c'"
    using c(1) run_steps [OF c'(1)] unfolding reachable_def by (rule rtranclp_trans)
  then show ?thesis using c'(2) concurrent_deliveries_paid [of sample_outside sample_server 0 c' sample_rid] by auto
qed

lemma sample_paid:
  "\<exists>r s'. handlePayment sample_outside staged_server 6 7 8 sample_paid_request = (r, s') \<and> RStatus r = 200 \<and>
     (\<exists>ct b. RBody r = Data ct b)"
proof -
  obtain e where e: "Get (cache staged_server) 6 sample_rid = Some e" "Cost e = 7" "Status e = 200"
    using staged_server_entry by blast
  have "handlePayment sample_outside staged_server 6 7 8 sample_paid_request =
      deliver (staged_server\<lparr>world := 2\<rparr>) 8 sample_rid e (nonce_settlement (CHR ''a''))"
    using sample_open [OF e(1), of "CHR ''a''"] nonces_settle(1) [OF e(2)]
    by (simp add: handlePayment_def sample_paid_request_def)
  then show ?thesis using e(3) by (metis deliver_simps(1,2) prod.collapse)
qed

theorem no_free_completion_witness:
  "\<exists>r s'. Handle sample_outside staged_server \<lparr>t_first = 6, t_second = 7, t_third = 8\<rparr> sample_paid_request = (r, s') \<and>
     paid_delivery sample_outside staged_server 6 7 8 sample_paid_request r s'"
proof -
  obtain r s' where p: "handlePayment sample_outside staged_server 6 7 8 sample_paid_request = (r, s')" "RStatus r = 200"
    using sample_paid by blast
  have "GetHeader sample_paid_request HeaderPayment \<noteq> []"
    using nonce_decodes [of "CHR ''a''"] by (auto simp: decodePaymentHeader_def sample_paid_request_def)
  then have h: "Handle sample_outside staged_server \<lparr>t_first = 6, t_second = 7, t_third = 8\<rparr> sample_paid_request = (r, s')"
    using p(1)
    by (simp add: Handle_def sample_paid_request_def nonce_request_def paid_request_def staged_server_fields sample_live_config_def)
  show ?thesis using no_free_completion [OF h] p(2) h by simp
qed

theorem failed_payment_keeps_state_witness:
  "\<exists>r s'. handlePayment sample_outside sample_server 6 7 8 sample_paid_request = (r, s') \<and> RStatus r = 410 \<and>
     cache s' = cache sample_server"
proof -
  have "Get (cache sample_server) 6 sample_rid = None" by (simp add: sample_server_def New_def Get_def)
  then have "handlePayment sample_outside sample_server 6 7 8 sample_paid_request =
      (fail 410 (Message ''staged response expired or not found''), sample_server)"
    by (simp add: handlePayment_def open_payment_def sample_paid_request_def nonce_request_def paid_request_def sample_rid_def)
  from failed_payment_keeps_state [OF this] this show ?thesis by simp
qed

theorem challenge_binds_witness:
  "\<exists>rid ch pr n. RBody (fst sample_first) = Challenge ch \<and> Accepts ch = [pr] \<and>
     map_of (Extra pr) ''requestId'' = Some rid \<and> int_SetString False (MaxAmountRequired pr) = Some n"
proof -
  obtain ch where ch: "RBody (fst sample_first) = Challenge ch" using sample_challenge by blast
  have "handleInitial sample_outside sample_server 5 5 sample_initial_request ''{}'' = (fst sample_first, staged_server)"
    by (simp add: sample_first_def staged_server_def)
  from challenge_binds [OF this ch] ch show ?thesis by blast
qed

definition other_calls :: "(int \<times> Entry cache_call) list" where
  "other_calls = [(8, CSweep), (9, CStore ''other'' sample_entry), (9, CGet ''other''), (9, CSweep)]"

theorem paid_once_witness:
  "\<exists>r s1 m. handlePayment sample_outside staged_server 6 7 8 sample_paid_request = (r, s1) \<and> RStatus r = 200 \<and>
     handlePayment sample_outside (s1\<lparr>cache := cache_run (cache s1) other_calls\<rparr>) 10 11 12
       sample_paid_request =
     (fail 410 (Message m), s1\<lparr>cache := cache_run (cache s1) other_calls\<rparr>)"
proof -
  obtain r s1 ct b where p: "handlePayment sample_outside staged_server 6 7 8 sample_paid_request = (r, s1)"
      "RStatus r = 200" "RBody r = Data ct b"
    using sample_paid by blast
  have "''other'' \<noteq> GetHeader sample_paid_request HeaderRequest"
    by (simp add: sample_paid_request_def nonce_request_def paid_request_def sample_rid_def RequestID_def)
  then have "\<forall>t e. (t, CStore (GetHeader sample_paid_request HeaderRequest) e) \<notin> set other_calls"
    by (auto simp: other_calls_def)
  with paid_once [OF p(1,3), of "s1\<lparr>cache := cache_run (cache s1) other_calls\<rparr>" other_calls sample_paid_request 10 11 12]
  show ?thesis using p by auto
qed

end
