(* ===== verification/Offers.thy ===== *)
theory Offers
  imports Client
begin

section \<open>The challenge on the wire\<close>

text \<open>
  The body of the 402 answer: the JSON that \<open>c.JSON\<close> writes for the structs of \<open>types.go\<close> with their
  \<open>omitempty\<close> tags, and how \<open>cmd/testpay/main.go\<close> decodes it into its own, shorter structs.
  \<open>challenge_read_back\<close> is the round trip between the two.
\<close>

subsection \<open>What the server writes\<close>

definition omit_empty :: "string \<Rightarrow> string \<Rightarrow> (string \<times> string) list" where
  "omit_empty k s = (if s = [] then [] else [(k, json_quote s)])"

text \<open>A Go map is written with its keys in order.\<close>

definition Marshal_map :: "(string \<times> string) list \<Rightarrow> string" where
  "Marshal_map m = json_object (map (\<lambda>(k, v). (k, json_quote v)) (sort_key fst m))"

definition Marshal_PaymentRequirements :: "PaymentRequirements \<Rightarrow> string" where
  "Marshal_PaymentRequirements r = json_object
     ([(''scheme'', json_quote (ReqScheme r)), (''network'', json_quote (ReqNetwork r)),
       (''maxAmountRequired'', json_quote (MaxAmountRequired r)), (''resource'', json_quote (Resource r))] @
      omit_empty ''description'' (Description r) @ omit_empty ''mimeType'' (MimeType r) @
      [(''payTo'', json_quote (ReqPayTo r)), (''maxTimeoutSeconds'', itoa (MaxTimeoutSeconds r)),
       (''asset'', json_quote (Asset r))] @
      (if Extra r = [] then [] else [(''extra'', Marshal_map (Extra r))]))"

text \<open>The slice of a challenge is never nil.\<close>

definition Marshal_PaymentRequiredResponse :: "PaymentRequiredResponse \<Rightarrow> string" where
  "Marshal_PaymentRequiredResponse ch = json_object
     ([(''x402Version'', itoa (ResX402Version ch)),
       (''accepts'', json_array (map Marshal_PaymentRequirements (Accepts ch)))] @
      omit_empty ''error'' (ResError ch))"

subsection \<open>What the client decodes\<close>

text \<open>
  The anonymous structs of \<open>main\<close>. A slice is its elements with what its array still holds behind
  them: \<open>encoding/json\<close> decodes into the slots a slice already has, so an element of a repeated key
  starts from the old one. Elements without an old slot start from zero.
\<close>

type_synonym 'a slice = "'a list \<times> 'a list"

record Offer =
  OffScheme :: string
  OffNetwork :: string
  OffMaxAmountRequired :: string
  OffPayTo :: string
  OffAsset :: string
  OffMaxTimeoutSeconds :: int
  OffExtra :: "string \<Rightarrow> string option"

record Offers =
  OffX402Version :: int
  OffAccepts :: "Offer slice"

definition decode_slice :: "(json \<Rightarrow> 'a \<Rightarrow> 'a \<times> bool) \<Rightarrow> 'a \<Rightarrow> json \<Rightarrow> 'a slice \<Rightarrow> 'a slice \<times> bool" where
  "decode_slice dec z v sl =
     (case v of
        JArr vs \<Rightarrow>
          if vs = [] then (([], []), False)
          else
            let slots = fst sl @ snd sl;
                rs = map2 dec vs (slots @ replicate (length vs) z)
            in ((map fst rs, drop (length vs) slots), list_ex snd rs)
      | JNull \<Rightarrow> (([], []), False)
      | _ \<Rightarrow> (sl, True))"

text \<open>Into a \<open>map[string]string\<close>: members are added to what is there.\<close>

definition decode_map_member ::
    "string \<Rightarrow> string \<Rightarrow> json \<Rightarrow> (string \<Rightarrow> string option) \<Rightarrow> (string \<Rightarrow> string option) \<times> bool" where
  "decode_map_member k raw v m =
     (case v of JStr s \<Rightarrow> (m(k \<mapsto> s), False) | JNull \<Rightarrow> (m(k \<mapsto> ''''), False) | _ \<Rightarrow> (m(k \<mapsto> ''''), True))"

definition decode_map ::
    "json \<Rightarrow> (string \<Rightarrow> string option) \<Rightarrow> (string \<Rightarrow> string option) \<times> bool" where
  "decode_map v m =
     (case v of JObj ms \<Rightarrow> decode_members decode_map_member ms m
      | JNull \<Rightarrow> (Map.empty, False) | _ \<Rightarrow> (m, True))"

definition zero_offer :: Offer where
  "zero_offer = \<lparr>OffScheme = '''', OffNetwork = '''', OffMaxAmountRequired = '''', OffPayTo = '''', OffAsset = '''',
     OffMaxTimeoutSeconds = 0, OffExtra = Map.empty\<rparr>"

definition decode_Offer :: "json \<Rightarrow> Offer \<Rightarrow> Offer \<times> bool" where
  "decode_Offer = decode_struct (\<lambda>k raw v p.
     if is_field k ''scheme'' then decode_string OffScheme_update v p
     else if is_field k ''network'' then decode_string OffNetwork_update v p
     else if is_field k ''maxAmountRequired'' then decode_string OffMaxAmountRequired_update v p
     else if is_field k ''payTo'' then decode_string OffPayTo_update v p
     else if is_field k ''asset'' then decode_string OffAsset_update v p
     else if is_field k ''maxTimeoutSeconds'' then decode_int OffMaxTimeoutSeconds_update v p
     else if is_field k ''extra'' then (case decode_map v (OffExtra p) of (m, e) \<Rightarrow> (p\<lparr>OffExtra := m\<rparr>, e))
     else (p, False))"

definition zero_offers :: Offers where
  "zero_offers = \<lparr>OffX402Version = 0, OffAccepts = ([], [])\<rparr>"

definition decode_Offers :: "json \<Rightarrow> Offers \<Rightarrow> Offers \<times> bool" where
  "decode_Offers = decode_struct (\<lambda>k raw v p.
     if is_field k ''x402Version'' then decode_int OffX402Version_update v p
     else if is_field k ''accepts'' then
       (case decode_slice decode_Offer zero_offer v (OffAccepts p) of (a, e) \<Rightarrow> (p\<lparr>OffAccepts := a\<rparr>, e))
     else (p, False))"

subsection \<open>What is written is read\<close>

lemma decode_members_append:
  "decode_members f (ms @ ms') st =
     (case decode_members f ms st of (st, e) \<Rightarrow> case decode_members f ms' st of (st, e') \<Rightarrow> (st, e \<or> e'))"
  by (induction f ms st rule: decode_members.induct) (auto split: prod.splits)

lemma json_parse_first: "json_parse s = Some v \<Longrightarrow> json_decode_first s = Some v"
  by (auto simp: json_parse_def json_decode_first_def split: option.splits if_splits)

lemma offer_keys:
  "utf8_valid ''maxAmountRequired''" "utf8_valid ''resource''" "utf8_valid ''description''" "utf8_valid ''mimeType''"
  "utf8_valid ''payTo''" "utf8_valid ''maxTimeoutSeconds''" "utf8_valid ''asset''" "utf8_valid ''extra''"
  "utf8_valid ''accepts''" "utf8_valid ''error''"
  by code_simp+

lemma fold_offer_keys:
  "fold_key ''maxAmountRequired'' = ''MAXAMOUNTREQUIRED''" "fold_key ''resource'' = ''RESOURCE''"
  "fold_key ''description'' = ''DESCRIPTION''" "fold_key ''mimeType'' = ''MIMETYPE''" "fold_key ''payTo'' = ''PAYTO''"
  "fold_key ''maxTimeoutSeconds'' = ''MAXTIMEOUTSECONDS''" "fold_key ''asset'' = ''ASSET''"
  "fold_key ''extra'' = ''EXTRA''" "fold_key ''accepts'' = ''ACCEPTS''" "fold_key ''error'' = ''ERROR''"
  by code_simp+

text \<open>The map of an entry.\<close>

definition map_members :: "(string \<times> string) list \<Rightarrow> (string \<times> string \<times> json) list" where
  "map_members m = map (\<lambda>(k, v). (k, json_quote v, JStr (utf8_repair v))) (sort_key fst m)"

definition keys_ok :: "(string \<times> string) list \<Rightarrow> bool" where
  "keys_ok m \<longleftrightarrow> distinct (map fst m) \<and> list_all (\<lambda>(k, v). utf8_valid k) m"

lemma encodes_map: "keys_ok m \<Longrightarrow> m \<noteq> [] \<Longrightarrow> encodes 1 (Marshal_map m) (JObj (map_members m))"
proof -
  assume m: "keys_ok m" "m \<noteq> []"
  then have "set (map_members m) \<noteq> {}" by (simp add: map_members_def)
  moreover have "\<forall>(k, t, v) \<in> set (map_members m). utf8_valid k \<and> encodes 0 t v"
    using m(1) by (auto simp: map_members_def keys_ok_def list_all_iff encodes_text)
  ultimately have "encodes (Suc 0) (json_object (map (\<lambda>(k, t, v). (k, t)) (map_members m))) (JObj (map_members m))"
    by (intro encodes_object) auto
  moreover have "map (\<lambda>(k, t, v). (k, t)) (map_members m) = map (\<lambda>(k, v). (k, json_quote v)) (sort_key fst m)"
    by (simp add: map_members_def split_def)
  ultimately show ?thesis by (simp add: Marshal_map_def)
qed

lemma decode_map_member_text: "decode_map_member k raw (JStr s) m = (m(k \<mapsto> s), False)"
  by (simp add: decode_map_member_def)

lemma decode_string_members:
  "decode_members decode_map_member (map (\<lambda>(k, v). (k, json_quote v, JStr (utf8_repair v))) xs) m =
     (m ++ (map_option utf8_repair \<circ> map_of (rev xs)), False)"
proof (induction xs arbitrary: m)
  case (Cons x xs)
  show ?case
    by (cases x) (simp add: Cons decode_map_member_text fun_eq_iff map_add_def split: option.splits)
qed (simp add: fun_eq_iff map_add_def)

lemma decode_map_members:
  "keys_ok m \<Longrightarrow> decode_map (JObj (map_members m)) Map.empty = (map_option utf8_repair \<circ> map_of m, False)"
proof -
  assume m: "keys_ok m"
  have "distinct (map fst (rev (sort_key fst m)))"
  proof -
    have "mset (map fst (rev (sort_key fst m))) = mset (map fst m)" by simp
    then show ?thesis using m mset_eq_imp_distinct_iff unfolding keys_ok_def by blast
  qed
  then have "map_of (rev (sort_key fst m)) = map_of m"
    using m by (intro map_of_inject_set [THEN iffD2]) (simp_all add: keys_ok_def)
  then show ?thesis by (simp add: decode_map_def map_members_def decode_string_members)
qed

text \<open>The entries and the challenge as the parser gives them.\<close>

definition text_member :: "string \<Rightarrow> string \<Rightarrow> string \<times> string \<times> json" where
  "text_member k s = (k, json_quote s, JStr (utf8_repair s))"

definition requirement_members :: "PaymentRequirements \<Rightarrow> (string \<times> string \<times> json) list" where
  "requirement_members r =
     [text_member ''scheme'' (ReqScheme r), text_member ''network'' (ReqNetwork r),
      text_member ''maxAmountRequired'' (MaxAmountRequired r), text_member ''resource'' (Resource r)] @
     (if Description r = [] then [] else [text_member ''description'' (Description r)]) @
     (if MimeType r = [] then [] else [text_member ''mimeType'' (MimeType r)]) @
     [text_member ''payTo'' (ReqPayTo r),
      (''maxTimeoutSeconds'', itoa (MaxTimeoutSeconds r), JNum (itoa (MaxTimeoutSeconds r))),
      text_member ''asset'' (Asset r)] @
     (if Extra r = [] then [] else [(''extra'', Marshal_map (Extra r), JObj (map_members (Extra r)))])"

definition challenge_members :: "PaymentRequiredResponse \<Rightarrow> (string \<times> string \<times> json) list" where
  "challenge_members ch =
     [(''x402Version'', itoa (ResX402Version ch), JNum (itoa (ResX402Version ch))),
      (''accepts'', json_array (map Marshal_PaymentRequirements (Accepts ch)),
       JArr (map (\<lambda>r. JObj (requirement_members r)) (Accepts ch)))] @
     (if ResError ch = [] then [] else [text_member ''error'' (ResError ch)])"

definition challenge_ok :: "PaymentRequiredResponse \<Rightarrow> bool" where
  "challenge_ok ch \<longleftrightarrow> Accepts ch \<noteq> [] \<and> int64_range (ResX402Version ch) \<and>
     list_all (\<lambda>r. int64_range (MaxTimeoutSeconds r) \<and> keys_ok (Extra r)) (Accepts ch)"

text \<open>The part of an entry that the client keeps.\<close>

definition offer_of :: "PaymentRequirements \<Rightarrow> Offer" where
  "offer_of r =
     \<lparr>OffScheme = utf8_repair (ReqScheme r), OffNetwork = utf8_repair (ReqNetwork r),
      OffMaxAmountRequired = utf8_repair (MaxAmountRequired r), OffPayTo = utf8_repair (ReqPayTo r),
      OffAsset = utf8_repair (Asset r), OffMaxTimeoutSeconds = MaxTimeoutSeconds r,
      OffExtra = map_option utf8_repair \<circ> map_of (Extra r)\<rparr>"

lemma Marshal_requirements_members:
  "Marshal_PaymentRequirements r = json_object (map (\<lambda>(k, t, v). (k, t)) (requirement_members r))"
  by (simp add: Marshal_PaymentRequirements_def requirement_members_def text_member_def omit_empty_def)

lemma Marshal_challenge_members:
  "Marshal_PaymentRequiredResponse ch = json_object (map (\<lambda>(k, t, v). (k, t)) (challenge_members ch))"
  by (simp add: Marshal_PaymentRequiredResponse_def challenge_members_def text_member_def omit_empty_def)

lemma encodes_requirements:
  assumes "keys_ok (Extra r)"
  shows "encodes 2 (Marshal_PaymentRequirements r) (JObj (requirement_members r))"
proof -
  have "\<forall>(k, t, v) \<in> set (requirement_members r). utf8_valid k \<and> encodes 1 t v"
    using assms encodes_map [of "Extra r"]
    by (auto simp: requirement_members_def text_member_def client_keys offer_keys encodes_text encodes_itoa
        simp del: utf8_valid.simps)
  then have "encodes (Suc 1) (json_object (map (\<lambda>(k, t, v). (k, t)) (requirement_members r)))
      (JObj (requirement_members r))"
    by (intro encodes_object) (simp_all add: requirement_members_def)
  then show ?thesis by (simp add: Marshal_requirements_members numeral_2_eq_2)
qed

lemma json_parse_challenge:
  assumes "challenge_ok ch"
  shows "json_parse (Marshal_PaymentRequiredResponse ch) = Some (JObj (challenge_members ch))"
proof -
  let ?es = "map (\<lambda>r. (Marshal_PaymentRequirements r, JObj (requirement_members r))) (Accepts ch)"
  have "encodes (Suc 2) (json_array (map fst ?es)) (JArr (map snd ?es))"
    using assms encodes_requirements by (intro encodes_array) (auto simp: challenge_ok_def list_all_iff)
  then have "\<forall>(k, t, v) \<in> set (challenge_members ch). utf8_valid k \<and> encodes 3 t v"
    by (auto simp: challenge_members_def text_member_def client_keys offer_keys encodes_text encodes_itoa
        comp_def numeral_3_eq_3 numeral_2_eq_2 simp del: utf8_valid.simps)
  then show ?thesis
    unfolding Marshal_challenge_members
    by (intro json_parse_object [where d = 3]) (simp_all add: challenge_members_def max_nesting_def)
qed

lemma decode_requirements:
  assumes "int64_range (MaxTimeoutSeconds r)" "keys_ok (Extra r)"
  shows "decode_Offer (JObj (requirement_members r)) zero_offer = (offer_of r, False)"
  using assms decode_map_members [OF assms(2)]
  by (simp add: decode_Offer_def decode_struct_def requirement_members_def text_member_def is_field_def
      fold_client_keys fold_offer_keys decode_string_def decode_int_def ParseInt_itoa zero_offer_def offer_of_def
      del: fold_key.simps)

lemma decode_fresh_slice:
  assumes "\<forall>x \<in> set xs. dec (f x) z = (g x, False)" "xs \<noteq> []"
  shows "decode_slice dec z (JArr (map f xs)) ([], []) = ((map g xs, []), False)"
proof -
  have "map2 dec (map f xs) (replicate (length xs) z) = map (\<lambda>x. (g x, False)) xs"
    using assms(1) by (induction xs) simp_all
  then show ?thesis
    using assms(2) by (simp add: decode_slice_def Let_def del: map_map) (simp add: comp_def list_ex_iff)
qed

lemma challenge_read_back_lemma:
  assumes "challenge_ok ch"
  shows "Decoder_Decode decode_Offers (Marshal_PaymentRequiredResponse ch) zero_offers =
     (\<lparr>OffX402Version = ResX402Version ch, OffAccepts = (map offer_of (Accepts ch), [])\<rparr>, False)"
proof -
  have "decode_slice decode_Offer zero_offer (JArr (map (\<lambda>r. JObj (requirement_members r)) (Accepts ch))) ([], []) =
      ((map offer_of (Accepts ch), []), False)"
    using assms decode_requirements by (intro decode_fresh_slice) (auto simp: challenge_ok_def list_all_iff)
  then have "decode_Offers (JObj (challenge_members ch)) zero_offers =
      (\<lparr>OffX402Version = ResX402Version ch, OffAccepts = (map offer_of (Accepts ch), [])\<rparr>, False)"
    using assms
    by (simp add: decode_Offers_def decode_struct_def challenge_members_def text_member_def is_field_def
        fold_client_keys fold_offer_keys decode_int_def ParseInt_itoa zero_offers_def challenge_ok_def
        del: fold_key.simps)
  then show ?thesis
    using json_parse_first [OF json_parse_challenge [OF assms]] by (simp add: Decoder_Decode_def)
qed

text \<open>C26: The challenge arrives: whatever the texts in it, the JSON body of a 402 answer is decoded by the
  client without error, entry by entry and in order, into what the client keeps of each entry (bytes
  that are not UTF-8 arrive as U+FFFD).\<close>

theorem challenge_read_back:
  assumes "challenge_ok ch"
  shows "Decoder_Decode decode_Offers (Marshal_PaymentRequiredResponse ch) zero_offers =
     (\<lparr>OffX402Version = ResX402Version ch, OffAccepts = (map offer_of (Accepts ch), [])\<rparr>, False)"
  using assms by (rule challenge_read_back_lemma)

definition sample_required :: PaymentRequiredResponse where
  "sample_required =
     \<lparr>ResX402Version = 1,
      Accepts = [\<lparr>ReqScheme = ''exact'', ReqNetwork = ''eip155:84532'', MaxAmountRequired = ''7'',
        Resource = [CHR 0xFF, CHR 0x22], Description = ''a < b'', MimeType = '''', ReqPayTo = ''0x01'',
        MaxTimeoutSeconds = 300, Asset = ''0x02'', Extra = [(''name'', ''USDC''), (''decimals'', ''6'')]\<rparr>],
      ResError = ''''\<rparr>"

theorem challenge_read_back_witness:
  "\<exists>os. Decoder_Decode decode_Offers (Marshal_PaymentRequiredResponse sample_required) zero_offers = (os, False) \<and>
     map OffMaxAmountRequired (fst (OffAccepts os)) = [''7'']"
proof -
  have "challenge_ok sample_required" by code_simp
  moreover have "map (\<lambda>r. OffMaxAmountRequired (offer_of r)) (Accepts sample_required) = [''7'']" by code_simp
  ultimately show ?thesis using challenge_read_back by (simp add: comp_def)
qed

end
