(* ===== verification/Testpay.thy ===== *)
theory Testpay
  imports Relay Offers
begin

section \<open>A client that pays\<close>

text \<open>
  \<open>cmd/testpay/main.go\<close> from the offer of a challenge to the payment header, with the EIP-712 digest
  computed by hand. Go's slice panics, its nil numbers and the errors behind \<open>must\<close> end the program,
  which is \<open>None\<close>. \<open>paying_client_served\<close> joins client and server; the program around it is in \<open>Paying\<close>.
\<close>

subsection \<open>Words of 32 bytes\<close>

text \<open>\<open>big.Int.Bytes\<close>: the absolute value, big-endian, without leading zero_bytes.\<close>

fun be_bytes :: "nat \<Rightarrow> string" where
  "be_bytes n = (if n = 0 then [] else be_bytes (n div 256) @ [char_of (n mod 256)])"

declare be_bytes.simps [simp del]

definition zero_bytes :: "nat \<Rightarrow> string" where
  "zero_bytes n = replicate n (CHR 0x00)"

definition paddedBig :: "int \<Rightarrow> string option" where
  "paddedBig n =
     (let b = be_bytes (nat \<bar>n\<bar>) in if 32 < length b then None else Some (zero_bytes (32 - length b) @ b))"

definition paddedAddr :: "Address \<Rightarrow> string" where
  "paddedAddr a = zero_bytes 12 @ take 20 (a @ zero_bytes 20)"

fun encodeABI :: "string list \<Rightarrow> string option" where
  "encodeABI [] = Some []"
| "encodeABI (p # parts) =
     (if 32 < length p then None else map_option (\<lambda>buf. zero_bytes (32 - length p) @ p @ buf) (encodeABI parts))"

subsection \<open>Signing\<close>

definition typed_digest ::
    "geth \<Rightarrow> Address \<Rightarrow> Address \<Rightarrow> int \<Rightarrow> int \<Rightarrow> string \<Rightarrow> string \<Rightarrow> string \<Rightarrow> int \<Rightarrow> Address \<Rightarrow> string option" where
  "typed_digest g from_addr to_addr value validBefore nonce name version chainID usdc =
     (let typeHash = Keccak256 g ''TransferWithAuthorization(address from,address to,uint256 value,uint256 validAfter,uint256 validBefore,bytes32 nonce)'';
          domainTypeHash = Keccak256 g ''EIP712Domain(string name,string version,uint256 chainId,address verifyingContract)'';
          nonce32 = take 32 (nonce @ zero_bytes 32)
      in case (paddedBig chainID, paddedBig value, paddedBig 0, paddedBig validBefore) of
           (Some chain, Some val, Some after, Some before) \<Rightarrow>
             (case (encodeABI [domainTypeHash, Keccak256 g name, Keccak256 g version, chain, paddedAddr usdc],
                    encodeABI [typeHash, paddedAddr from_addr, paddedAddr to_addr, val, after, before, nonce32]) of
                (Some domain, Some msg) \<Rightarrow>
                  Some (Keccak256 g ([CHR 0x19, CHR 0x01] @ Keccak256 g domain @ Keccak256 g msg))
              | _ \<Rightarrow> None)
         | _ \<Rightarrow> None)"

text \<open>\<open>Sign\<close> is \<open>crypto.Sign\<close>: 65 bytes, the recovery id last.\<close>

definition signEIP712 ::
    "geth \<Rightarrow> (string \<Rightarrow> string \<Rightarrow> string option) \<Rightarrow> string \<Rightarrow> Address \<Rightarrow> Address \<Rightarrow> int \<Rightarrow> int \<Rightarrow> string \<Rightarrow>
     string \<Rightarrow> string \<Rightarrow> int \<Rightarrow> Address \<Rightarrow> string option" where
  "signEIP712 g sign key from_addr to_addr value validBefore nonce name version chainID usdc =
     (case typed_digest g from_addr to_addr value validBefore nonce name version chainID usdc of
        None \<Rightarrow> None
      | Some digest \<Rightarrow>
          (case sign digest key of
             None \<Rightarrow> None
           | Some sig \<Rightarrow>
               if length sig \<le> 64 then None else Some (sig[64 := byte_char (byte (sig ! 64) + 27)])))"

text \<open>\<open>fmt.Sscanf\<close> with \<open>%d\<close> into an \<open>int64\<close> that stays 0 on failure. Spaces are skipped, a newline fails.\<close>

definition Sscanf_int64 :: "string \<Rightarrow> int" where
  "Sscanf_int64 s =
     (let r = trim_left_space s;
          sign = (case r of c # _ \<Rightarrow> if c = CHR ''-'' \<or> c = CHR ''+'' then [c] else [] | [] \<Rightarrow> []);
          ds = takeWhile is_digit (drop (length sign) r)
      in if CHR 0x0A \<in> set (take (length s - length r) s) then 0
         else case ParseInt (sign @ ds) of Some n \<Rightarrow> n | None \<Rightarrow> 0)"

definition networkToChainID :: "string \<Rightarrow> int" where
  "networkToChainID network = Sscanf_int64 (TrimPrefix network ''eip155:'')"

subsection \<open>The payment header\<close>

text \<open>\<open>now\<close> is the time in seconds, \<open>nanos\<close> the time the nonce is made from.\<close>

definition client_nonce :: "geth \<Rightarrow> int \<Rightarrow> string" where
  "client_nonce g nanos = take 32 (Keccak256 g (''test-nonce-'' @ itoa nanos) @ zero_bytes 32)"

definition or_default :: "string option \<Rightarrow> string \<Rightarrow> string" where
  "or_default v d = (case v of None \<Rightarrow> d | Some s \<Rightarrow> if s = [] then d else s)"

definition client_payload ::
    "geth \<Rightarrow> (string \<Rightarrow> string \<Rightarrow> string option) \<Rightarrow> string \<Rightarrow> int \<Rightarrow> int \<Rightarrow> Offer \<Rightarrow> ExactEvmPayload option" where
  "client_payload g sign key now nanos req =
     (let signer = PubkeyToAddress g (PublicKey g key);
          chainID = networkToChainID (OffNetwork req);
          usdc = HexToAddress g (OffAsset req);
          payTo = HexToAddress g (OffPayTo req);
          validBefore = wrap64 (now + OffMaxTimeoutSeconds req);
          nonce = client_nonce g nanos;
          domainName = or_default (OffExtra req ''name'') ''USDC'';
          domainVersion = or_default (OffExtra req ''version'') ''2''
      in case int_SetString False (OffMaxAmountRequired req) of
           None \<Rightarrow> None
         | Some amount \<Rightarrow>
             map_option (\<lambda>sig.
               \<lparr>Signature = ''0x'' @ HexEncode sig,
                Authorization =
                  \<lparr>From = Address_Hex g signer, To = OffPayTo req, Value = OffMaxAmountRequired req, ValidAfter = ''0'',
                   ValidBefore = itoa validBefore, Nonce = ''0x'' @ HexEncode nonce\<rparr>\<rparr>)
             (signEIP712 g sign key signer payTo amount validBefore nonce domainName domainVersion chainID usdc))"

definition client_header ::
    "geth \<Rightarrow> (string \<Rightarrow> string \<Rightarrow> string option) \<Rightarrow> string \<Rightarrow> int \<Rightarrow> int \<Rightarrow> Offer \<Rightarrow> string option" where
  "client_header g sign key now nanos req =
     map_option (\<lambda>p. EncodeToString (Marshal_payment 1 ''exact'' (OffNetwork req) (Marshal_evm_payload p)))
       (client_payload g sign key now nanos req)"

text \<open>The second request of \<open>main\<close>.\<close>

definition client_request :: "string \<Rightarrow> string \<Rightarrow> string \<Rightarrow> Request" where
  "client_request body xPayment requestID =
     \<lparr>Method = ''POST'', Path = ''/v1/chat/completions'',
      GetHeader = (\<lambda>h. if h = ''Content-Type'' then ''application/json'' else if h = ''X-PAYMENT'' then xPayment
                      else if h = ''X-PAYMENT-REQUEST-ID'' then requestID else ''''),
      Query = (\<lambda>_. ''''), ReqBody = Some body\<rparr>"

subsection \<open>The hand-made digest is the EIP-712 digest\<close>

text \<open>
  EIP-712 for structs of strings, \<open>uint256\<close>, addresses and \<open>bytes32\<close>: the hash of the type hash and the
  fs, each in 32 bytes. \<open>implements_eip712\<close> is the documented behaviour of \<open>apitypes.HashStruct\<close>.
\<close>

definition encodeType :: "string \<Rightarrow> (string \<times> string) list \<Rightarrow> string" where
  "encodeType name fs =
     name @ ''('' @ concat (map (\<lambda>(n, ty). (if n = fst (hd fs) then [] else '','') @ ty @ '' '' @ n) fs) @ '')''"

definition encodeField :: "geth \<Rightarrow> string \<Rightarrow> typed_value \<Rightarrow> string option" where
  "encodeField g ty v =
     (case v of
        TStr s \<Rightarrow>
          if ty = ''string'' then Some (Keccak256 g s)
          else if ty = ''address'' \<and> IsHexAddress g s then Some (zero_bytes 12 @ HexToAddress g s)
          else if ty = ''bytes32'' then hexutil_Decode g s
          else None
      | TInt n \<Rightarrow>
          if ty = ''uint256'' \<and> 0 \<le> n \<and> n < 2 ^ 256
          then Some (zero_bytes (32 - length (be_bytes (nat n))) @ be_bytes (nat n)) else None)"

definition encodeData ::
    "geth \<Rightarrow> (string \<times> string) list \<Rightarrow> (string \<times> typed_value) list \<Rightarrow> string option" where
  "encodeData g fs m =
     map_option concat (those (map (\<lambda>(n, ty). Option.bind (map_of m n) (encodeField g ty)) fs))"

definition hashStruct :: "geth \<Rightarrow> TypedData \<Rightarrow> string \<Rightarrow> (string \<times> typed_value) list \<Rightarrow> string option" where
  "hashStruct g td name m =
     (case map_of (tdTypes td) name of
        None \<Rightarrow> None
      | Some fs \<Rightarrow> map_option (\<lambda>d. Keccak256 g (Keccak256 g (encodeType name fs) @ d)) (encodeData g fs m))"

definition implements_eip712 :: "geth \<Rightarrow> bool" where
  "implements_eip712 g \<longleftrightarrow>
     (\<forall>td name m h. hashStruct g td name m = Some h \<longrightarrow> HashStruct g td name m = Some h) \<and>
     (\<forall>d. Domain_Map g d = d) \<and> (\<forall>b. length (Keccak256 g b) = 32)"

text \<open>Addresses are 20 bytes and can be printed and read back.\<close>

definition hex_address :: "geth \<Rightarrow> Address \<Rightarrow> bool" where
  "hex_address g a \<longleftrightarrow> length a = 20 \<and> IsHexAddress g (Address_Hex g a) \<and> HexToAddress g (Address_Hex g a) = a"

lemma length_be_bytes: "n < 256 ^ k \<Longrightarrow> length (be_bytes n) \<le> k"
proof (induction k arbitrary: n)
  case (Suc k)
  then have "n div 256 < 256 ^ k" by (simp add: less_mult_imp_div_less mult.commute)
  then have "length (be_bytes (n div 256)) \<le> k" by (rule Suc.IH)
  then show ?case by (simp add: be_bytes.simps [of n])
qed (simp add: be_bytes.simps)

lemma paddedBig_uint256:
  assumes "0 \<le> n" "n < 2 ^ 256"
  shows "paddedBig n = Some (zero_bytes (32 - length (be_bytes (nat n))) @ be_bytes (nat n))"
    "length (zero_bytes (32 - length (be_bytes (nat n))) @ be_bytes (nat n)) = 32"
proof -
  have "nat n < 256 ^ 32" using assms by (simp add: nat_less_iff)
  then have "length (be_bytes (nat n)) \<le> 32" by (rule length_be_bytes)
  then show "paddedBig n = Some (zero_bytes (32 - length (be_bytes (nat n))) @ be_bytes (nat n))"
    "length (zero_bytes (32 - length (be_bytes (nat n))) @ be_bytes (nat n)) = 32"
    using assms(1) by (simp_all add: paddedBig_def zero_bytes_def Let_def)
qed

lemma encodeABI_words: "\<forall>p \<in> set ps. length p = 32 \<Longrightarrow> encodeABI ps = Some (concat ps)"
  by (induction ps) (simp_all add: zero_bytes_def)

lemma paddedAddr_20: "length a = 20 \<Longrightarrow> paddedAddr a = zero_bytes 12 @ a"
  by (simp add: paddedAddr_def)

lemma type_strings:
  "encodeType ''EIP712Domain'' domain_types = ''EIP712Domain(string name,string version,uint256 chainId,address verifyingContract)''"
  "encodeType ''TransferWithAuthorization'' transfer_types =
     ''TransferWithAuthorization(address from,address to,uint256 value,uint256 validAfter,uint256 validBefore,bytes32 nonce)''"
  by code_simp+

lemma typed_digest_eip712:
  assumes lib: "implements_eip712 g"
    and hex: "hex_address g (AuthFrom auth)" "hex_address g (AuthTo auth)" "hex_address g (HexToAddress g (USDCAddress c))"
      "hexutil_Decode g (hexutil_Encode g (AuthNonce auth)) = Some (AuthNonce auth)" "length (AuthNonce auth) = 32"
    and num: "AuthValidAfter auth = 0" "0 \<le> AuthValue auth" "AuthValue auth < 2 ^ 256"
      "0 \<le> AuthValidBefore auth" "AuthValidBefore auth < 2 ^ 256" "0 \<le> ChainID c" "ChainID c < 2 ^ 256"
  shows "\<exists>d. eip712Digest g auth c = Inr d \<and>
     typed_digest g (AuthFrom auth) (AuthTo auth) (AuthValue auth) (AuthValidBefore auth) (AuthNonce auth)
       (USDCName c) (USDCVersion c) (ChainID c) (HexToAddress g (USDCAddress c)) = Some d"
proof -
  define word where "word n = zero_bytes (32 - length (be_bytes (nat n))) @ be_bytes (nat n)" for n :: int
  have pb: "paddedBig n = Some (word n)" "length (word n) = 32" if "0 \<le> n" "n < 2 ^ 256" for n
    using paddedBig_uint256 [OF that] by (simp_all add: word_def)
  have enc: "encodeField g ''uint256'' (TInt n) = Some (word n)" if "0 \<le> n" "n < 2 ^ 256" for n
    using that by (simp add: encodeField_def word_def)
  have adr: "encodeField g ''address'' (TStr (Address_Hex g a)) = Some (zero_bytes 12 @ a)" "length (zero_bytes 12 @ a) = 32"
      "paddedAddr a = zero_bytes 12 @ a" if "hex_address g a" for a
    using that by (simp_all add: encodeField_def hex_address_def paddedAddr_20 zero_bytes_def)
  have kec: "length (Keccak256 g b) = 32" for b using lib by (simp add: implements_eip712_def)
  let ?td = "typed_data g auth c"
  let ?domain = "[Keccak256 g (USDCName c), Keccak256 g (USDCVersion c), word (ChainID c),
    zero_bytes 12 @ HexToAddress g (USDCAddress c)]"
  let ?msg = "[zero_bytes 12 @ AuthFrom auth, zero_bytes 12 @ AuthTo auth, word (AuthValue auth), word 0,
    word (AuthValidBefore auth), AuthNonce auth]"
  have str: "encodeField g ''string'' (TStr s) = Some (Keccak256 g s)" for s by (simp add: encodeField_def)
  have non: "encodeField g ''bytes32'' (TStr (hexutil_Encode g (AuthNonce auth))) = Some (AuthNonce auth)"
    using hex(4) by (simp add: encodeField_def)
  have "encodeData g domain_types (tdDomain ?td) = Some (concat ?domain)"
    using num(6,7) hex(3) by (simp add: encodeData_def domain_types_def typed_data_def str enc adr)
  then have d: "hashStruct g ?td ''EIP712Domain'' (tdDomain ?td) =
      Some (Keccak256 g (concat (Keccak256 g (encodeType ''EIP712Domain'' domain_types) # ?domain)))"
    by (simp add: hashStruct_def typed_data_def)
  have "encodeData g transfer_types (tdMessage ?td) = Some (concat ?msg)"
    using num hex(1,2) by (simp add: encodeData_def transfer_types_def typed_data_def enc adr non)
  then have m: "hashStruct g ?td ''TransferWithAuthorization'' (tdMessage ?td) =
      Some (Keccak256 g (concat (Keccak256 g (encodeType ''TransferWithAuthorization'' transfer_types) # ?msg)))"
    by (simp add: hashStruct_def typed_data_def)
  let ?d = "Keccak256 g ([CHR 0x19, CHR 0x01] @
    Keccak256 g (concat (Keccak256 g (encodeType ''EIP712Domain'' domain_types) # ?domain)) @
    Keccak256 g (concat (Keccak256 g (encodeType ''TransferWithAuthorization'' transfer_types) # ?msg)))"
  have "eip712Digest g auth c = Inr ?d"
    using d m lib by (simp add: eip712Digest_def implements_eip712_def typed_data_def Let_def)
  moreover have "encodeABI (Keccak256 g t # ?domain) = Some (concat (Keccak256 g t # ?domain))" for t
    using pb(2) [OF num(6,7)] adr(2) [OF hex(3)] by (intro encodeABI_words) (simp add: kec)
  moreover have "encodeABI (Keccak256 g t # ?msg) = Some (concat (Keccak256 g t # ?msg))" for t
    using pb(2) num adr(2) hex by (intro encodeABI_words) (simp add: kec)
  moreover have "take 32 (AuthNonce auth @ zero_bytes 32) = AuthNonce auth" using hex(5) by simp
  ultimately show ?thesis
    unfolding typed_digest_def type_strings
    by (simp add: Let_def pb(1) [OF num(6,7)] pb(1) [OF num(2,3)] pb(1) [OF num(4,5)] pb(1) [of 0] adr(3) hex
        del: encodeABI.simps)
qed

text \<open>C23: The client's hand-made digest is the server's: for an authorization that starts at the epoch,
  with numbers that fit 256 bits, the bytes \<open>testpay\<close> hashes, type strings, padding and all, give the
  digest \<open>eip712Digest\<close> computes with go-ethereum's EIP-712 library.\<close>

theorem client_digest_is_eip712:
  assumes "implements_eip712 g"
    and "hex_address g (AuthFrom auth)" "hex_address g (AuthTo auth)" "hex_address g (HexToAddress g (USDCAddress c))"
      "hexutil_Decode g (hexutil_Encode g (AuthNonce auth)) = Some (AuthNonce auth)" "length (AuthNonce auth) = 32"
    and "AuthValidAfter auth = 0" "0 \<le> AuthValue auth" "AuthValue auth < 2 ^ 256"
      "0 \<le> AuthValidBefore auth" "AuthValidBefore auth < 2 ^ 256" "0 \<le> ChainID c" "ChainID c < 2 ^ 256"
  shows "\<exists>d. eip712Digest g auth c = Inr d \<and>
     typed_digest g (AuthFrom auth) (AuthTo auth) (AuthValue auth) (AuthValidBefore auth) (AuthNonce auth)
       (USDCName c) (USDCVersion c) (ChainID c) (HexToAddress g (USDCAddress c)) = Some d"
  using assms by (rule typed_digest_eip712)

subsection \<open>What is assumed of the libraries\<close>

text \<open>
  Documented behaviour of go-ethereum: hexadecimal reads back, addresses have 20 bytes and print in
  ASCII, a signature made with a key recovers to it and is canonical.
\<close>

definition ascii :: "string \<Rightarrow> bool" where
  "ascii s \<longleftrightarrow> list_all (\<lambda>c. code c < 128) s"

definition hex_library :: "geth \<Rightarrow> bool" where
  "hex_library g \<longleftrightarrow>
     (\<forall>b. hexutil_Decode g (''0x'' @ HexEncode b) = Some b \<and> hexutil_Decode g (hexutil_Encode g b) = Some b) \<and>
     (\<forall>a. length a = 20 \<longrightarrow> hex_address g a) \<and> (\<forall>a. ascii (Address_Hex g a)) \<and>
     (\<forall>s. length (HexToAddress g s) = 20) \<and> (\<forall>p. length (PubkeyToAddress g p) = 20)"

definition signs :: "geth \<Rightarrow> (string \<Rightarrow> string \<Rightarrow> string option) \<Rightarrow> string \<Rightarrow> bool" where
  "signs g sign key \<longleftrightarrow>
     (\<forall>digest. \<exists>sig. sign digest key = Some sig \<and> length sig = 65 \<and> byte (sig ! 64) \<in> {0, 1} \<and>
        SigToPub g digest sig = Some (PublicKey g key) \<and>
        ValidateSignatureValues g (byte (sig ! 64)) (SetBytes (take 32 sig)) (SetBytes (take 32 (drop 32 sig))) True)"

text \<open>A configuration for an EVM chain, and a chain that takes the transfer.\<close>

definition evm_config :: "geth \<Rightarrow> Config \<Rightarrow> bool" where
  "evm_config g c \<longleftrightarrow> IsHexAddress g (PayToAddress c) \<and> ascii (PayToAddress c) \<and>
     EqualFold (Address_Hex g (HexToAddress g (PayToAddress c))) (PayToAddress c) \<and>
     Network c = ''eip155:'' @ itoa (ChainID c) \<and> 0 \<le> ChainID c \<and> int64_range (ChainID c) \<and>
     USDCName c \<noteq> [] \<and> USDCVersion c \<noteq> [] \<and> utf8_valid (USDCAddress c) \<and> utf8_valid (USDCName c) \<and>
     utf8_valid (USDCVersion c)"

definition takes_payment :: "'w eth_rpc \<Rightarrow> EVMSettler \<Rightarrow> 'w \<Rightarrow> bool" where
  "takes_payment rpc s w \<longleftrightarrow> DryRun (ecfg s) \<or>
     (\<exists>usdc sender. contract s = Some usdc \<and> opts s = Some sender \<and>
        (\<forall>args. fst (Transact rpc w usdc sender ''transferWithAuthorization'' args) \<noteq> None))"

subsection \<open>Texts that survive the wire\<close>

lemma utf8_head_ascii: "code c < 128 \<Longrightarrow> utf8_head (c # cs) = 1"
  by (simp add: utf8_head_def)

lemma ascii_utf8: "ascii s \<Longrightarrow> utf8_valid s"
  by (induction s) (simp_all add: ascii_def utf8_head_ascii utf8_valid.simps(2))

lemma ascii_append [simp]: "ascii (s @ t) \<longleftrightarrow> ascii s \<and> ascii t"
  by (simp add: ascii_def)

lemma ascii_itoa: "ascii (itoa n)"
proof -
  have "code c < 128" if "is_digit c" for c using that by (simp add: is_digit_def)
  then have "ascii (utoa m)" for m unfolding ascii_def list_all_iff using utoa_digits by blast
  moreover have "code (CHR ''-'') < 128" by code_simp
  ultimately show ?thesis by (simp add: itoa_def ascii_def)
qed

lemma code_hex_digit: "n < 16 \<Longrightarrow> code (hex_digit n) < 128"
  by (simp add: hex_digit_def code_def)

lemma ascii_HexEncode: "ascii (HexEncode b)"
proof (induction b)
  case (Cons c b)
  have "code c < 256" by (simp add: code_def)
  then have "code c div 16 < 16" by linarith
  then show ?case using Cons by (simp add: HexEncode_def ascii_def code_hex_digit)
qed (simp add: HexEncode_def ascii_def)

lemma networkToChainID_itoa:
  assumes "int64_range n"
  shows "networkToChainID (''eip155:'' @ itoa n) = n"
proof -
  obtain c cs where u: "utoa (nat \<bar>n\<bar>) = c # cs" by (meson utoa_nonempty neq_Nil_conv)
  then have c: "is_digit c" by (rule hd_utoa_digit)
  then have ns: "c \<noteq> CHR ''-''" "c \<noteq> CHR ''+''" by (auto simp: is_digit_def code_def)
  have trim: "trim_left_space (d # ds) = d # ds" if "visible d" for d ds
    using that space_nonempty space_not_visible
    by (intro trim_left_clean) (fastforce simp: clean_left_def prefix_def neq_Nil_conv)
  have vis: "visible c" "visible (CHR ''-'')" using c by (simp_all add: visible_def is_digit_def code_def)
  have all: "takeWhile is_digit (c # cs) = c # cs" "takeWhile is_digit cs = cs"
    using utoa_digits [of _ "nat \<bar>n\<bar>"] u by (auto simp: takeWhile_eq_all_conv)
  have "Sscanf_int64 (itoa n) = (case ParseInt (itoa n) of Some n \<Rightarrow> n | None \<Rightarrow> 0)"
  proof (cases "n < 0")
    case True
    then show ?thesis using u all by (simp add: itoa_def Sscanf_int64_def abs_if trim vis)
  next
    case False
    then show ?thesis using u ns c by (simp add: itoa_def Sscanf_int64_def abs_if all trim vis)
  qed
  then have "Sscanf_int64 (itoa n) = n" by (simp add: ParseInt_itoa assms)
  then show ?thesis by (simp add: networkToChainID_def TrimPrefix_def HasPrefix_def)
qed

subsection \<open>A payment made from a challenge settles\<close>

lemma byte_byte_char [simp]: "byte (byte_char b) = b"
proof -
  have "unat b < 256" using unsigned_less [where ?'a = nat, of b] by simp
  then show ?thesis by (simp add: byte_char_def byte_def)
qed

lemma ascii_eip155: "ascii (''eip155:'' @ s) \<longleftrightarrow> ascii s"
proof -
  have "ascii ''eip155:''" by code_simp
  then show ?thesis by (simp only: ascii_append simp_thms)
qed

lemma hex_text_utf8: "utf8_valid (''0x'' @ HexEncode b)" "utf8_valid ''0''"
proof -
  have "ascii ''0x''" by code_simp
  then show "utf8_valid (''0x'' @ HexEncode b)" by (intro ascii_utf8) (simp only: ascii_append ascii_HexEncode simp_thms)
qed code_simp

text \<open>Adding 27 to the recovery id is undone by both checks of the server.\<close>

lemma legacy_signature:
  assumes "length sig = 65" "byte (sig ! 64) \<in> {0, 1}"
  defines "legacy \<equiv> sig[64 := byte_char (byte (sig ! 64) + 27)]"
  shows "length legacy = 65" "recovery_id legacy = byte (sig ! 64)" "legacy[64 := byte_char (recovery_id legacy)] = sig"
    "take 32 legacy = take 32 sig" "take 32 (drop 32 legacy) = take 32 (drop 32 sig)"
proof -
  show "length legacy = 65" using assms(1) by (simp add: legacy_def)
  have "\<not> b + 27 < 27" if "b \<in> {0, 1}" for b :: "8 word" using that by auto
  then show r: "recovery_id legacy = byte (sig ! 64)"
    using assms(1,2) by (auto simp: recovery_id_def legacy_def Let_def)
  show "legacy[64 := byte_char (recovery_id legacy)] = sig" unfolding r by (simp add: legacy_def)
  show "take 32 legacy = take 32 sig" "take 32 (drop 32 legacy) = take 32 (drop 32 sig)"
    by (simp_all add: legacy_def drop_update_swap)
qed

lemma splitSignature_legacy:
  assumes "length sig = 65" "byte (sig ! 64) \<in> {0, 1}"
    "ValidateSignatureValues g (byte (sig ! 64)) (SetBytes (take 32 sig)) (SetBytes (take 32 (drop 32 sig))) True"
  shows "\<exists>r ss v. splitSignature g (sig[64 := byte_char (byte (sig ! 64) + 27)]) = Inr (r, ss, v)"
proof -
  have "byte (sig ! 64) = 0 \<or> byte (sig ! 64) = 1" using assms(2) by auto
  then show ?thesis using assms by (auto simp: splitSignature_def Let_def drop_update_swap)
qed

text \<open>The authorization the client signs for a configuration's challenge.\<close>

definition client_auth :: "geth \<Rightarrow> string \<Rightarrow> int \<Rightarrow> int \<Rightarrow> Config \<Rightarrow> int \<Rightarrow> TransferAuthorization" where
  "client_auth g key now nanos c cost =
     \<lparr>AuthFrom = PubkeyToAddress g (PublicKey g key), AuthTo = HexToAddress g (PayToAddress c), AuthValue = cost,
      AuthValidAfter = 0, AuthValidBefore = now + SigTimeoutSecs c, AuthNonce = client_nonce g nanos\<rparr>"

text \<open>A challenge of an EVM server, and a client that can pay it in time.\<close>

definition payable :: "geth \<Rightarrow> Config \<Rightarrow> int \<Rightarrow> int \<Rightarrow> bool" where
  "payable g c cost now \<longleftrightarrow> evm_config g c \<and> 0 < cost \<and> cost < 2 ^ 256 \<and> 0 \<le> now \<and> 0 < SigTimeoutSecs c \<and>
     now + SigTimeoutSecs c < 2 ^ 63"

lemma length_client_nonce [simp]: "length (client_nonce g nanos) = 32"
  by (simp add: client_nonce_def zero_bytes_def)

lemma SetString_zero: "int_SetString False ''0'' = Some 0"
  by code_simp

lemma client_digest:
  assumes "implements_eip712 g" "hex_library g" "payable g c cost now"
  shows "\<exists>d. eip712Digest g (client_auth g key now nanos c cost) c = Inr d \<and>
     typed_digest g (PubkeyToAddress g (PublicKey g key)) (HexToAddress g (PayToAddress c)) cost
       (now + SigTimeoutSecs c) (client_nonce g nanos) (USDCName c) (USDCVersion c) (ChainID c)
       (HexToAddress g (USDCAddress c)) = Some d"
  using typed_digest_eip712 [OF assms(1), of "client_auth g key now nanos c cost" c] assms(2,3)
  by (simp add: client_auth_def hex_library_def payable_def evm_config_def int64_range_def)

lemma client_payload_signed:
  assumes lib: "implements_eip712 g" "hex_library g" "signs g sign key" and pay: "payable g c cost now"
    and pr: "OffNetwork pr = Network c" "OffMaxAmountRequired pr = itoa cost" "OffPayTo pr = PayToAddress c"
      "OffAsset pr = USDCAddress c" "OffMaxTimeoutSeconds pr = SigTimeoutSecs c"
      "OffExtra pr ''name'' = Some (USDCName c)" "OffExtra pr ''version'' = Some (USDCVersion c)"
  obtains p legacy r ss v where "client_payload g sign key now nanos pr = Some p"
    "Signature p = ''0x'' @ HexEncode legacy" "authorization_utf8 (Authorization p)"
    "DecodeAuthorization g (Authorization p) = Inr (client_auth g key now nanos c cost)"
    "VerifyEIP712 g (client_auth g key now nanos c cost) legacy c = Inr (PubkeyToAddress g (PublicKey g key))"
    "splitSignature g legacy = Inr (r, ss, v)"
proof -
  let ?auth = "client_auth g key now nanos c cost" and ?signer = "PubkeyToAddress g (PublicKey g key)"
  obtain d where d: "eip712Digest g ?auth c = Inr d"
    "typed_digest g ?signer (HexToAddress g (PayToAddress c)) cost (now + SigTimeoutSecs c) (client_nonce g nanos)
       (USDCName c) (USDCVersion c) (ChainID c) (HexToAddress g (USDCAddress c)) = Some d"
    using client_digest [OF lib(1,2) pay] by blast
  obtain sig where sig: "sign d key = Some sig" "length sig = 65" "byte (sig ! 64) \<in> {0, 1}"
    "SigToPub g d sig = Some (PublicKey g key)"
    "ValidateSignatureValues g (byte (sig ! 64)) (SetBytes (take 32 sig)) (SetBytes (take 32 (drop 32 sig))) True"
    using lib(3) unfolding signs_def by blast
  define legacy where "legacy = sig[64 := byte_char (byte (sig ! 64) + 27)]"
  note leg = legacy_signature [OF sig(2,3), folded legacy_def]
  obtain r ss v where split: "splitSignature g legacy = Inr (r, ss, v)"
    using splitSignature_legacy [OF sig(2,3,5)] unfolding legacy_def by blast
  have cfg: "networkToChainID (Network c) = ChainID c" "USDCName c \<noteq> []" "USDCVersion c \<noteq> []"
    using pay networkToChainID_itoa by (auto simp: payable_def evm_config_def)
  have now: "wrap64 (now + SigTimeoutSecs c) = now + SigTimeoutSecs c"
    using pay by (intro wrap64_id) (simp add: payable_def int64_range_def)
  let ?p = "\<lparr>Signature = ''0x'' @ HexEncode legacy,
     Authorization = \<lparr>From = Address_Hex g ?signer, To = PayToAddress c, Value = itoa cost, ValidAfter = ''0'',
       ValidBefore = itoa (now + SigTimeoutSecs c), Nonce = ''0x'' @ HexEncode (client_nonce g nanos)\<rparr>\<rparr>"
  have "signEIP712 g sign key ?signer (HexToAddress g (PayToAddress c)) cost (now + SigTimeoutSecs c)
      (client_nonce g nanos) (USDCName c) (USDCVersion c) (ChainID c) (HexToAddress g (USDCAddress c)) = Some legacy"
    using sig(1,2) by (simp add: signEIP712_def d(2) legacy_def)
  then have "client_payload g sign key now nanos pr = Some ?p"
    by (simp add: client_payload_def Let_def pr cfg or_default_def now)
  moreover have "authorization_utf8 (Authorization ?p)"
    using pay lib(2)
    by (simp add: authorization_utf8_def payable_def evm_config_def hex_library_def ascii_utf8 ascii_itoa
        hex_text_utf8 [simplified] del: utf8_valid.simps)
  moreover have "DecodeAuthorization g (Authorization ?p) = Inr ?auth"
    using pay lib(2)
    by (simp add: DecodeAuthorization_Inr client_auth_def payable_def evm_config_def hex_library_def hex_address_def
        authorization_ok_def SetString_zero)
  moreover have "VerifyEIP712 g ?auth legacy c = Inr ?signer"
    using leg(1,3) sig(4) d(1) by (simp add: VerifyEIP712_Inr client_auth_def)
  ultimately show thesis using split by (intro that [of ?p legacy r ss v]) simp_all
qed

lemma takes_payment_submits:
  assumes "takes_payment rpc s w" "splitSignature g sig = Inr (r, ss, v)"
  shows "\<exists>hash w'. submitted g rpc s w auth sig hash w'"
proof (cases "DryRun (ecfg s)")
  case True
  then show ?thesis using assms(2) by (simp add: submitted_def)
next
  case False
  then obtain usdc sender where u: "contract s = Some usdc" "opts s = Some sender"
    "fst (Transact rpc w usdc sender ''transferWithAuthorization'' (transfer_args auth r ss v)) \<noteq> None"
    using assms(1) by (auto simp: takes_payment_def)
  then obtain hash w' where
    "Transact rpc w usdc sender ''transferWithAuthorization'' (transfer_args auth r ss v) = (Some hash, w')"
    by (metis not_None_eq prod.collapse)
  then show ?thesis using False u(1,2) assms(2) by (auto simp: submitted_def)
qed

text \<open>Nothing of what the client needs is lost on the wire.\<close>

lemma payable_network: "payable g c cost now \<Longrightarrow> utf8_valid (Network c)"
  using ascii_utf8 [OF ascii_eip155 [THEN iffD2, OF ascii_itoa]] unfolding payable_def evm_config_def by metis

lemma payable_offer:
  assumes "payable g (ecfg es) cost now" "pr = offer_of (EVM_BuildRequirements es res descr rid n t)"
  shows "OffNetwork pr = Network (ecfg es)" "OffMaxAmountRequired pr = itoa n" "OffPayTo pr = PayToAddress (ecfg es)"
    "OffAsset pr = USDCAddress (ecfg es)" "OffMaxTimeoutSeconds pr = t"
    "OffExtra pr ''name'' = Some (USDCName (ecfg es))" "OffExtra pr ''version'' = Some (USDCVersion (ecfg es))"
  using assms(1) payable_network [OF assms(1)]
  by (simp_all add: assms(2) offer_of_def EVM_BuildRequirements_def ascii_utf8 ascii_itoa payable_def evm_config_def)

text \<open>The header the client builds opens the door: the server reads the payload back and settles it.\<close>

lemma client_header_settles:
  fixes out :: "'w outside" and s :: "'w Server"
  defines "g \<equiv> geth_lib (libs_of out)" and "rpc \<equiv> evm_client (libs_of out)"
  assumes lib: "implements_eip712 g" "hex_library g" "signs g sign key" and pay: "payable g (cfg s) cost now"
    and srv: "settler s = EVM es" "ecfg es = cfg s" "takes_payment rpc es (world s)"
    and pr: "pr = offer_of (EVM_BuildRequirements es res descr rid cost (SigTimeoutSecs (cfg s)))"
    and time: "0 \<le> t div second" "t div second < now + SigTimeoutSecs (cfg s)"
  obtains h p st w where "client_header g sign key now nanos pr = Some h" "h \<noteq> []"
    "decodePaymentHeader h = Inr p" "PayX402Version p = X402Version" "PayloadNetwork p = Network (cfg s)"
    "Settle (libs_of out) (settler s) (world s) (t div second) p cost rid = (Inr st, w)"
proof -
  let ?c = "cfg s" and ?signer = "PubkeyToAddress g (PublicKey g key)"
  obtain q legacy r ss v where q: "client_payload g sign key now nanos pr = Some q"
    "Signature q = ''0x'' @ HexEncode legacy" "authorization_utf8 (Authorization q)"
    "DecodeAuthorization g (Authorization q) = Inr (client_auth g key now nanos ?c cost)"
    "VerifyEIP712 g (client_auth g key now nanos ?c cost) legacy ?c = Inr ?signer"
    "splitSignature g legacy = Inr (r, ss, v)"
    using lib pay by (rule client_payload_signed [where pr = pr]) (use payable_offer [OF _ pr] pay srv in simp_all)
  have net: "utf8_valid (Network ?c)" using pay by (rule payable_network)
  have net_pr: "OffNetwork pr = Network ?c" using payable_offer [OF _ pr] pay srv by simp
  have sig: "utf8_valid (Signature q)" unfolding q(2) by (rule hex_text_utf8)
  define p where "p = \<lparr>PayX402Version = 1, PayScheme = ''exact'', PayloadNetwork = Network ?c,
    Payload = Marshal_evm_payload q\<rparr>"
  define h where "h = EncodeToString (Marshal_payment 1 ''exact'' (Network ?c) (Marshal_evm_payload q))"
  have "encodes 2 (Marshal_evm_payload q) (JObj (evm_payload_members q))"
    using encodes_object [OF _ evm_payload_encodes [OF sig q(3)]]
    by (simp add: Marshal_evm_payload_members numeral_2_eq_2 evm_payload_members_def)
  then have dec: "decodePaymentHeader h = Inr p"
    using decodePaymentHeader_client [OF net] by (simp add: h_def p_def max_nesting_def)
  have "evm_payload g p (client_auth g key now nanos ?c cost) legacy"
    using lib(2) q(2,4) Unmarshal_evm_payload [OF sig q(3)] by (simp add: evm_payload_def p_def hex_library_def)
  moreover have "evm_valid g ?c (t div second) cost (client_auth g key now nanos ?c cost) legacy"
    using pay q(5) time by (simp add: evm_valid_def client_auth_def payable_def evm_config_def)
  moreover obtain hash w where "submitted g rpc es (world s) (client_auth g key now nanos ?c cost) legacy hash w"
    using takes_payment_submits [OF srv(3) q(6)] by blast
  ultimately obtain st where "EVM_Settle g rpc es (world s) (t div second) p cost rid = (Inr st, w)"
    using srv(2) by (metis EVM_Settle_Inr Settlement.select_convs)
  then have "Settle (libs_of out) (settler s) (world s) (t div second) p cost rid = (Inr st, w)"
    by (simp add: Settle_def srv g_def rpc_def)
  moreover have "client_header g sign key now nanos pr = Some h"
    using q(1) net_pr by (simp add: client_header_def h_def)
  moreover have "h \<noteq> []" using dec by (auto simp: decodePaymentHeader_def)
  ultimately show thesis using dec by (intro that [of h p st w]) (simp_all add: p_def X402Version_def)
qed

lemma client_request_headers:
  "GetHeader (client_request body h rid) HeaderPayment = h"
  "GetHeader (client_request body h rid) HeaderRequest = rid" "ReqBody (client_request body h rid) = Some body"
  by (simp_all add: client_request_def HeaderPayment_def HeaderRequest_def)

text \<open>A challenge, what the client makes of it, and the delivery it gets for that.\<close>

lemma paid_challenge:
  fixes out :: "'w outside" and s :: "'w Server"
  assumes "implements_eip712 (geth_lib (libs_of out))" "hex_library (geth_lib (libs_of out))"
      "signs (geth_lib (libs_of out)) sign key"
    and first: "Handle out s t1 (client_request body [] []) = (r, s1)" "RBody r = Challenge ch" "Accepts ch = [pr]"
      "map_of (RHeaders r) HeaderRequest = Some rid" "int_SetString False (MaxAmountRequired pr) = Some cost"
    and srv: "settler s = EVM es" "ecfg es = cfg s" "takes_payment (evm_client (libs_of out)) es (world s1)"
      "payable (geth_lib (libs_of out)) (cfg s) cost now"
    and time: "t_first t2 \<le> t_second t1 + ttl (cache s)" "0 \<le> t_second t2 div second"
      "t_second t2 div second < now + SigTimeoutSecs (cfg s)"
  obtains h resp w e st w' where
    "HTTP_Do out (world s) (upstream_request (cfg s) (client_request body [] []) body) = (Some resp, w)"
    "client_header (geth_lib (libs_of out)) sign key now nanos (offer_of pr) = Some h"
    "OffMaxAmountRequired (offer_of pr) = itoa cost"
    "RHeaders r = set_header HeaderCost (USDCUnitsToUSD (Some cost)) (set_header HeaderRequest rid [])" "RStatus r = 402"
    "Body e = UpRespBody resp" "Status e = UpStatus resp" "Cost e = cost"
    "Handle out s1 t2 (client_request body h rid) = deliver (s1\<lparr>world := w'\<rparr>) (t_third t2) rid e st"
proof -
  have small: "int (length body) \<le> MaxBodyBytes (cfg s)" and
    init: "handleInitial out s (t_first t1) (t_second t1) (client_request body [] []) body = (r, s1)"
    using first(1,2) by (auto simp: Handle_def client_request_headers split: if_splits)
  obtain resp w e rid' where e: "HTTP_Do out (world s) (upstream_request (cfg s) (client_request body [] []) body) = (Some resp, w)"
    "Body e = UpRespBody resp" "Status e = UpStatus resp"
    "RHeaders r = set_header HeaderCost (USDCUnitsToUSD (Some (Cost e))) (set_header HeaderRequest rid' [])"
    "Accepts ch = [BuildRequirements (libs_of out) (settler s) (Path (client_request body [] []))
       (usage_text (EntryModel e) (EntryUsage e)) rid' (Cost e) (SigTimeoutSecs (cfg s))]"
    "s1 = s\<lparr>world := w, cache := Store (cache s) (t_second t1) rid' e\<rparr>" "rid' \<noteq> []" "RStatus r = 402"
    using handleInitial_Challenge [OF init first(2)] by (metis RequestID_nonempty)
  have rid: "rid' = rid"
    using first(4) e(7) unfolding e(4) map_of_set_header [OF header_keys] by (simp add: set_header_def)
  have cost: "Cost e = cost"
    using first(3,5) e(5) by (metis chain_pay.build_price int_SetString_itoa list.inject option.inject)
  have s1: "cfg s1 = cfg s" "settler s1 = settler s" by (simp_all add: e(6))
  have srv': "payable (geth_lib (libs_of out)) (cfg s1) cost now" "settler s1 = EVM es" "ecfg es = cfg s1"
      "takes_payment (evm_client (libs_of out)) es (world s1)"
    and time': "t_second t2 div second < now + SigTimeoutSecs (cfg s1)"
    using srv time(3) by (simp_all add: s1)
  have pr: "offer_of pr = offer_of (EVM_BuildRequirements es (Path (client_request body [] []))
      (usage_text (EntryModel e) (EntryUsage e)) rid cost (SigTimeoutSecs (cfg s1)))"
    using first(3) e(5) by (simp add: BuildRequirements_def srv(1) rid cost s1)
  obtain h p st w' where h: "client_header (geth_lib (libs_of out)) sign key now nanos (offer_of pr) = Some h" "h \<noteq> []"
    "decodePaymentHeader h = Inr p" "PayX402Version p = X402Version" "PayloadNetwork p = Network (cfg s1)"
    "Settle (libs_of out) (settler s1) (world s1) (t_second t2 div second) p cost rid = (Inr st, w')"
    using client_header_settles [OF assms(1-3) srv' pr time(2) time', where nanos = nanos] by blast
  have get: "Get (cache s1) (t_first t2) rid = Some (e\<lparr>CreatedAt := t_second t1\<rparr>)"
    using cache_area.fetch_put [OF time(1)] by (simp add: e(6) rid)
  have "open_payment s1 (t_first t2) (client_request body h rid) = Inr (rid, e\<lparr>CreatedAt := t_second t1\<rparr>, p)"
    using get h(3-5) e(7) by (simp add: open_payment_Inr client_request_headers rid)
  then have "handlePayment out s1 (t_first t2) (t_second t2) (t_third t2) (client_request body h rid) =
      deliver (s1\<lparr>world := w'\<rparr>) (t_third t2) rid (e\<lparr>CreatedAt := t_second t1\<rparr>) st"
    using h(6) by (simp add: handlePayment_def settle_payment_def cost)
  then have "Handle out s1 t2 (client_request body h rid) =
      deliver (s1\<lparr>world := w'\<rparr>) (t_third t2) rid (e\<lparr>CreatedAt := t_second t1\<rparr>) st"
    using small h(2) by (simp add: Handle_def client_request_headers s1)
  moreover have "OffMaxAmountRequired (offer_of pr) = itoa cost"
    unfolding pr using payable_offer(2) [OF _ refl] srv'(1,3) by metis
  ultimately show thesis
    using that [OF e(1) h(1) _ _ e(8), where e = "e\<lparr>CreatedAt := t_second t1\<rparr>"] e(2-4) by (simp add: cost rid)
qed

text \<open>A client that pays is served: after a challenge of an EVM server, the header \<open>testpay\<close> computes for
  it from what arrives of the challenge alone, sent back with the request id before the staged answer and the
  authorization expire, is accepted, the price is taken, and the client gets exactly the status and
  the body that the upstream gave.\<close>

theorem paying_client_served:
  fixes out :: "'w outside" and s :: "'w Server"
  assumes "implements_eip712 (geth_lib (libs_of out))" "hex_library (geth_lib (libs_of out))"
      "signs (geth_lib (libs_of out)) sign key"
    and first: "Handle out s t1 (client_request body [] []) = (r, s1)" "RBody r = Challenge ch" "Accepts ch = [pr]"
      "map_of (RHeaders r) HeaderRequest = Some rid" "int_SetString False (MaxAmountRequired pr) = Some cost"
    and srv: "settler s = EVM es" "ecfg es = cfg s" "takes_payment (evm_client (libs_of out)) es (world s1)"
      "payable (geth_lib (libs_of out)) (cfg s) cost now"
    and time: "t_first t2 \<le> t_second t1 + ttl (cache s)" "0 \<le> t_second t2 div second"
      "t_second t2 div second < now + SigTimeoutSecs (cfg s)"
  shows "\<exists>h resp ct. client_header (geth_lib (libs_of out)) sign key now nanos (offer_of pr) = Some h \<and>
     fst (HTTP_Do out (world s) (upstream_request (cfg s) (client_request body [] []) body)) = Some resp \<and>
     RStatus (fst (Handle out s1 t2 (client_request body h rid))) = UpStatus resp \<and>
     RBody (fst (Handle out s1 t2 (client_request body h rid))) = Data ct (UpRespBody resp)"
proof -
  obtain h resp w e st w' where
    "HTTP_Do out (world s) (upstream_request (cfg s) (client_request body [] []) body) = (Some resp, w)"
    "client_header (geth_lib (libs_of out)) sign key now nanos (offer_of pr) = Some h"
    "Body e = UpRespBody resp" "Status e = UpStatus resp"
    "Handle out s1 t2 (client_request body h rid) = deliver (s1\<lparr>world := w'\<rparr>) (t_third t2) rid e st"
    using assms by (rule paid_challenge)
  then show ?thesis by simp
qed

subsection \<open>A wallet to try it with\<close>

text \<open>
  Real hexadecimal, addresses of 20 bytes, a hash of 32 bytes (the padded text), the EIP-712 hash over
  it, and signatures from which the key can be read.
\<close>

fun HexDecode :: "string \<Rightarrow> string option" where
  "HexDecode [] = Some []"
| "HexDecode (a # b # s) =
     (case (hex_value a, hex_value b) of
        (Some x, Some y) \<Rightarrow> map_option (\<lambda>t. char_of (16 * x + y) # t) (HexDecode s)
      | _ \<Rightarrow> None)"
| "HexDecode [a] = None"

definition fit :: "nat \<Rightarrow> string \<Rightarrow> string" where
  "fit n b = take n (b @ zero_bytes n)"

lemma length_fit [simp]: "length (fit n b) = n"
  by (simp add: fit_def zero_bytes_def)

lemma fit_exact: "length b = n \<Longrightarrow> fit n b = b"
  by (simp add: fit_def)

definition wallet_base :: geth where
  "wallet_base = sample_geth
     \<lparr>HexToAddress := (\<lambda>s. fit 20 (case HexDecode (drop 2 s) of Some b \<Rightarrow> b | None \<Rightarrow> [])),
      Address_Hex := (\<lambda>a. ''0x'' @ HexEncode a),
      IsHexAddress := (\<lambda>s. length s = 42 \<and> HasPrefix s ''0x''),
      hexutil_Decode := (\<lambda>s. if HasPrefix s ''0x'' then HexDecode (drop 2 s) else None),
      hexutil_Encode := (\<lambda>b. ''0x'' @ HexEncode b), Bytes2Hex := HexEncode,
      PubkeyToAddress := (fit 20), SigToPub := (\<lambda>d sig. Some (take 32 sig)),
      Keccak256 := (fit 32), HexToECDSA := HexDecode\<rparr>"

definition wallet_geth :: geth where
  "wallet_geth = wallet_base\<lparr>HashStruct := hashStruct wallet_base\<rparr>"

definition wallet_key :: string where
  "wallet_key = replicate 32 (CHR ''k'')"

definition wallet_sign :: "string \<Rightarrow> string \<Rightarrow> string option" where
  "wallet_sign digest key = Some (key @ zero_bytes 33)"

definition wallet_outside :: "nat outside" where
  "wallet_outside = sample_outside\<lparr>libs_of := sample_libs\<lparr>geth_lib := wallet_geth\<rparr>\<rparr>"

lemma hex_value_digit: "n < 16 \<Longrightarrow> hex_value (hex_digit n) = Some n"
  by (auto simp: hex_value_def hex_digit_def between_def)

lemma HexDecode_HexEncode: "HexDecode (HexEncode b) = Some b"
proof (induction b)
  case (Cons c b)
  have "code c < 256" by simp
  then have "code c div 16 < 16" by linarith
  then show ?case using Cons by (simp add: HexEncode_def hex_value_digit)
qed (simp add: HexEncode_def)

lemma length_HexEncode: "length (HexEncode b) = 2 * length b"
  by (induction b) (simp_all add: HexEncode_def)

lemma wallet_hex: "hex_library wallet_geth"
proof -
  have "ascii ''0x''" by code_simp
  then have "ascii (''0x'' @ HexEncode a)" for a by (simp only: ascii_append ascii_HexEncode simp_thms)
  then show ?thesis
    by (simp add: hex_library_def hex_address_def wallet_geth_def wallet_base_def HasPrefix_def HexDecode_HexEncode
        length_HexEncode fit_exact)
qed

lemma wallet_eip712: "implements_eip712 wallet_geth"
proof -
  have enc: "encodeField wallet_geth = encodeField wallet_base"
    by (simp add: fun_eq_iff encodeField_def wallet_geth_def split: typed_value.splits)
  have kec: "Keccak256 wallet_geth = Keccak256 wallet_base" by (simp add: wallet_geth_def)
  have "hashStruct wallet_geth td name m = hashStruct wallet_base td name m" for td name m
    unfolding hashStruct_def encodeData_def enc kec by (rule refl)
  then show ?thesis
    by (simp add: implements_eip712_def) (simp add: wallet_geth_def wallet_base_def sample_geth_def)
qed

lemma wallet_signs:
  assumes "length key = 32"
  shows "signs wallet_geth wallet_sign key"
proof -
  have "(key @ zero_bytes 33) ! 64 = CHR 0x00" using assms by (simp add: nth_append zero_bytes_def)
  moreover have "byte (CHR 0x00) = 0" by code_simp
  ultimately have "byte ((key @ zero_bytes 33) ! 64) = 0" by simp
  then show ?thesis
    using assms by (simp add: signs_def wallet_sign_def wallet_geth_def wallet_base_def sample_geth_def)
      (simp add: zero_bytes_def)
qed

lemma wallet_key_signs: "signs wallet_geth wallet_sign wallet_key"
  by (rule wallet_signs) (simp add: wallet_key_def)

lemma wallet_payable: "payable wallet_geth sample_live_config 7 3"
  by code_simp

theorem client_digest_is_eip712_witness:
  "\<exists>auth. AuthValue auth = 7 \<and> eip712Digest wallet_geth auth sample_live_config =
     Inr (the (typed_digest wallet_geth (AuthFrom auth) (AuthTo auth) 7 (AuthValidBefore auth) (AuthNonce auth)
       ''USDC'' ''2'' 84532 (HexToAddress wallet_geth sample_address)))"
proof -
  let ?auth = "client_auth wallet_geth wallet_key 3 99 sample_live_config 7"
  have "\<exists>d. eip712Digest wallet_geth ?auth sample_live_config = Inr d \<and>
     typed_digest wallet_geth (AuthFrom ?auth) (AuthTo ?auth) (AuthValue ?auth) (AuthValidBefore ?auth) (AuthNonce ?auth)
       (USDCName sample_live_config) (USDCVersion sample_live_config) (ChainID sample_live_config)
       (HexToAddress wallet_geth (USDCAddress sample_live_config)) = Some d"
    using wallet_hex
    by (intro client_digest_is_eip712 wallet_eip712)
      (simp_all add: client_auth_def hex_library_def sample_live_config_def)
  then show ?thesis by (intro exI [of _ ?auth]) (auto simp: sample_live_config_def client_auth_def)
qed

definition wallet_times :: "int \<Rightarrow> Times" where
  "wallet_times t = \<lparr>t_first = t, t_second = t, t_third = t\<rparr>"

lemma wallet_first:
  "\<exists>r s1 ch pr rid. Handle wallet_outside sample_server (wallet_times 5) (client_request ''{}'' [] []) = (r, s1) \<and>
     RBody r = Challenge ch \<and> Accepts ch = [pr] \<and> map_of (RHeaders r) HeaderRequest = Some rid \<and>
     int_SetString False (MaxAmountRequired pr) = Some 7"
proof -
  let ?h = "Handle wallet_outside sample_server (wallet_times 5) (client_request ''{}'' [] [])"
  have "case RBody (fst ?h) of
      Challenge ch \<Rightarrow> length (Accepts ch) = 1 \<and> map_of (RHeaders (fst ?h)) HeaderRequest \<noteq> None \<and>
        int_SetString False (MaxAmountRequired (hd (Accepts ch))) = Some 7
    | _ \<Rightarrow> False" by code_simp
  then show ?thesis
    by (cases ?h) (auto split: body.splits simp: length_Suc_conv)
qed

theorem paying_client_served_witness:
  "\<exists>r s1 pr h rid. Handle wallet_outside sample_server (wallet_times 5) (client_request ''{}'' [] []) = (r, s1) \<and>
     client_header wallet_geth wallet_sign wallet_key 3 99 (offer_of pr) = Some h \<and>
     RStatus (fst (Handle wallet_outside s1 (wallet_times 9) (client_request ''{}'' h rid))) = 200"
proof -
  obtain r s1 ch pr rid where first:
    "Handle wallet_outside sample_server (wallet_times 5) (client_request ''{}'' [] []) = (r, s1)"
    "RBody r = Challenge ch" "Accepts ch = [pr]" "map_of (RHeaders r) HeaderRequest = Some rid"
    "int_SetString False (MaxAmountRequired pr) = Some 7"
    using wallet_first by blast
  have libs: "geth_lib (libs_of wallet_outside) = wallet_geth" "evm_client (libs_of wallet_outside) = sample_eth_rpc"
    by (simp_all add: wallet_outside_def sample_libs_def)
  let ?es = "\<lparr>ecfg = sample_live_config, contract = Some ''usdc'', opts = Some ''gas''\<rparr>"
  have srv: "settler sample_server = EVM ?es" "ecfg ?es = cfg sample_server" "takes_payment sample_eth_rpc ?es (world s1)"
    by (simp_all add: sample_server_def sample_settler_def takes_payment_def sample_eth_rpc_def)
  have time: "t_first (wallet_times 9) \<le> t_second (wallet_times 5) + ttl (cache sample_server)"
    "0 \<le> t_second (wallet_times 9) div second" "t_second (wallet_times 9) div second < 3 + SigTimeoutSecs (cfg sample_server)"
    by code_simp+
  have pay: "payable wallet_geth (cfg sample_server) 7 3" using wallet_payable by (simp add: sample_server_def)
  have up: "fst (HTTP_Do wallet_outside w q) = Some resp \<Longrightarrow> UpStatus resp = 200" for w q resp
    by (auto simp: wallet_outside_def sample_outside_def)
  note served = paying_client_served [of wallet_outside wallet_sign wallet_key, unfolded libs,
      OF wallet_eip712 wallet_hex wallet_key_signs first srv pay time, of 99]
  then show ?thesis using first(1) up by metis
qed

end
