(* ===== verification/Storage.thy ===== *)
theory Storage
  imports Database
begin

section \<open>The store as interfaces\<close>

text \<open>
  What the handlers need of \<open>internal/store\<close>, in two interfaces: a ledger of payments, and maps that
  accepted writes change and refused ones leave alone.
\<close>

subsection \<open>A ledger\<close>

text \<open>
  What the handlers need of \<open>internal/store/payment.go\<close>: a payment that is new is recorded and counts
  for its payer and nobody else, one that is known is refused and changes nothing. \<open>healthy\<close> stands for
  an engine that does not fail, \<open>knows\<close> for a payment whose request or transaction has a row.
\<close>

locale ledger =
  fixes record_payment :: "'d \<Rightarrow> int \<Rightarrow> Payment \<Rightarrow> (db_error + unit) \<times> 'd"
    and spent :: "'d \<Rightarrow> string \<Rightarrow> (db_error + int \<times> int) \<times> 'd"
    and healthy :: "'d \<Rightarrow> bool"
    and knows :: "'d \<Rightarrow> Payment \<Rightarrow> bool"
  assumes record_new: "healthy d \<Longrightarrow> \<not> knows d p \<Longrightarrow> \<exists>d'. record_payment d now p = (Inr (), d') \<and> healthy d' \<and> knows d' p"
    and record_known: "healthy d \<Longrightarrow> knows d p \<Longrightarrow> \<exists>e. record_payment d now p = (Inl e, d)"
    and spent_new: "record_payment d now p = (Inr (), d') \<Longrightarrow> healthy d' \<Longrightarrow> spent d a = (Inr (t, n), d1) \<Longrightarrow>
      (FromAddress p = a \<longrightarrow> int64_range (t + Amount p)) \<Longrightarrow>
      spent d' a = (Inr (if FromAddress p = a then (t + Amount p, n + 1) else (t, n)), d')"
begin

text \<open>A payment counts once, however often it is recorded.\<close>

lemma counted_once:
  assumes "healthy d" "\<not> knows d p" "spent d (FromAddress p) = (Inr (t, n), d1)" "int64_range (t + Amount p)"
  shows "spent (snd (record_payment (snd (record_payment d now p)) now' p)) (FromAddress p) =
    (Inr (t + Amount p, n + 1), snd (record_payment d now p))"
proof -
  obtain d' where d': "record_payment d now p = (Inr (), d')" "healthy d'" "knows d' p"
    using record_new [OF assms(1,2)] by blast
  moreover obtain e where "record_payment d' now' p = (Inl e, d')" using record_known d'(2,3) by blast
  ultimately show ?thesis using spent_new [OF d'(1,2) assms(3)] assms(4) by simp
qed

lemma counted_for_payer:
  assumes "healthy d" "\<not> knows d p" "spent d (FromAddress p) = (Inr (t, n), d1)" "int64_range (t + Amount p)"
  shows "spent (snd (record_payment d now p)) (FromAddress p) = (Inr (t + Amount p, n + 1), snd (record_payment d now p))"
    "healthy (snd (record_payment d now p))"
proof -
  obtain d' where d': "record_payment d now p = (Inr (), d')" "healthy d'" using record_new [OF assms(1,2)] by blast
  then show "spent (snd (record_payment d now p)) (FromAddress p) = (Inr (t + Amount p, n + 1), snd (record_payment d now p))"
    "healthy (snd (record_payment d now p))"
    using spent_new [OF d'(1,2) assms(3)] assms(4) by simp_all
qed

lemma others_unchanged:
  assumes "healthy d" "spent d a = (Inr (t, n), d)" "a \<noteq> FromAddress p"
  shows "fst (spent (snd (record_payment d now p)) a) = Inr (t, n)"
proof (cases "knows d p")
  case True
  then show ?thesis using record_known [OF assms(1)] assms(2) by (metis fst_conv snd_conv)
next
  case False
  then obtain d' where "record_payment d now p = (Inr (), d')" "healthy d'" using record_new assms(1) by blast
  then show ?thesis using spent_new assms(2,3) by fastforce
qed

end

subsection \<open>The store is a ledger\<close>

definition known_payment :: "DB \<Rightarrow> Payment \<Rightarrow> bool" where
  "known_payment d p \<longleftrightarrow>
     PayRequestID p \<in> PayRequestID ` set (payments d) \<or> tx_key p \<in> tx_key ` set (payments d)"

definition no_faults :: "DB \<Rightarrow> bool" where
  "no_faults d \<longleftrightarrow> faults d = []"

lemma sql_sum_from_append:
  "sql_sum_from s (xs @ ys) = (case sql_sum_from s xs of None \<Rightarrow> None | Some t \<Rightarrow> sql_sum_from t ys)"
  by (induction xs arbitrary: s) auto

lemma sql_sum_snoc:
  "sql_sum (xs @ [x]) = (case sql_sum xs of None \<Rightarrow> None | Some t \<Rightarrow> if int64_range (t + x) then Some (t + x) else None)"
  by (simp add: sql_sum_def sql_sum_from_append split: option.split)

lemma Record_Inr:
  assumes "Record d now p = (Inr (), d')"
  shows "payments d' = payments d @ [p\<lparr>PayID := next_id d, PayCreatedAt := now\<rparr>]"
  using assms by (auto simp: Record_def split: prod.splits if_splits dest!: stmt_tables)

lemma SumByAddress_Inr:
  "SumByAddress d a = (Inr (t, n), d1) \<Longrightarrow>
   sql_sum (map Amount (filter (\<lambda>p. FromAddress p = a) (payments d))) = Some t \<and>
   n = int (length (filter (\<lambda>p. FromAddress p = a) (payments d)))"
  by (auto simp: SumByAddress_def Let_def split: prod.splits if_splits option.splits dest!: stmt_tables)

interpretation store_ledger: ledger Record SumByAddress no_faults known_payment
proof unfold_locales
  fix d :: DB and p now
  assume h: "no_faults d"
  show "\<not> known_payment d p \<Longrightarrow> \<exists>d'. Record d now p = (Inr (), d') \<and> no_faults d' \<and> known_payment d' p"
    using h by (simp add: Record_def no_faults_def known_payment_def has_key_iff)
  show "known_payment d p \<Longrightarrow> \<exists>e. Record d now p = (Inl e, d)"
    using h by (auto simp: Record_def no_faults_def known_payment_def has_key_iff)
next
  fix d now p d' a t n d1
  assume r: "Record d now p = (Inr (), d')" "no_faults d'" "SumByAddress d a = (Inr (t, n), d1)"
    "FromAddress p = a \<longrightarrow> int64_range (t + Amount p)"
  show "SumByAddress d' a = (Inr (if FromAddress p = a then (t + Amount p, n + 1) else (t, n)), d')"
    using SumByAddress_Inr [OF r(3)] r(2,4)
    by (auto simp: SumByAddress_def Let_def no_faults_def Record_Inr [OF r(1)] sql_sum_snoc)
qed

subsection \<open>Maps behind writes\<close>

text \<open>
  A view of a store that every accepted write changes by the effect of its call, and no refused one. An
  invariant of the view that the effects keep is an invariant of the store, whichever writes fail.
\<close>

locale written_view =
  fixes step :: "'d \<Rightarrow> int \<Rightarrow> 'c \<Rightarrow> ('e + unit) \<times> 'd"
    and view :: "'d \<Rightarrow> 'v"
    and effect :: "'c \<Rightarrow> 'v \<Rightarrow> 'v"
  assumes written: "step d now c = (Inr (), d') \<Longrightarrow> view d' = effect c (view d)"
    and unwritten: "step d now c = (Inl e, d') \<Longrightarrow> view d' = view d"
begin

lemma view_cases:
  obtains "view (snd (step d now c)) = view d"
    | "fst (step d now c) = Inr ()" "view (snd (step d now c)) = effect c (view d)"
proof (cases "step d now c")
  case (Pair r d')
  then show thesis using written unwritten that by (cases r) auto
qed

lemma view_unchanged: "effect c (view d) = view d \<Longrightarrow> view (snd (step d now c)) = view d"
  using view_cases by metis

lemma view_invariant: "P (view d) \<Longrightarrow> P (effect c (view d)) \<Longrightarrow> P (view (snd (step d now c)))"
  using view_cases by metis

end

lemma catalog_tables: "tables d = tables d' \<Longrightarrow> catalog d = catalog d'"
  by (auto dest!: tables_eqD simp: catalog_def fun_eq_iff)

interpretation catalog_view: written_view db_call_step catalog catalog_step
proof
  show "db_call_step d now c = (Inl e, d') \<Longrightarrow> catalog d' = catalog d" for d now c e d'
    using write_Inl_tables [of d now c e d'] catalog_tables by metis
qed (rule catalog_step_refines)

interpretation setting_view: written_view db_call_step setting setting_step
proof
  show "db_call_step d now c = (Inl e, d') \<Longrightarrow> setting d' = setting d" for d now c e d'
    using write_Inl_tables [of d now c e d'] setting_tables by metis
qed (rule setting_step_refines)

end
