(* ===== verification/Admin.thy ===== *)
theory Admin
  imports Relay Storage
begin

section \<open>The admin API\<close>

text \<open>
  \<open>internal/handler/admin.go\<close>: the markup and the price catalog, changed at run time. The handlers act
  on the state the relay reads; \<open>now\<close> is the time of the database. The embedded page is the argument
  of \<open>Page\<close>.
\<close>

subsection \<open>Handlers\<close>

text \<open>\<open>c.ShouldBindJSON\<close>: the first JSON value of the body; no struct here has validation tags.\<close>

definition ShouldBindJSON :: "(json \<Rightarrow> 'a \<Rightarrow> 'a \<times> bool) \<Rightarrow> Request \<Rightarrow> 'a \<Rightarrow> 'a option" where
  "ShouldBindJSON dec req st =
     (case ReqBody req of
        None \<Rightarrow> None
      | Some b \<Rightarrow> (case Decoder_Decode dec b st of (x, e) \<Rightarrow> if e then None else Some x))"

text \<open>A JSON number into a \<open>float64\<close>.\<close>

definition decode_float :: "((f64 \<Rightarrow> f64) \<Rightarrow> 'a \<Rightarrow> 'a) \<Rightarrow> json \<Rightarrow> 'a \<Rightarrow> 'a \<times> bool" where
  "decode_float upd v st =
     (case v of
        JNum s \<Rightarrow> (case ParseFloat s of Some x \<Rightarrow> (upd (\<lambda>_. x) st, False) | None \<Rightarrow> (st, True))
      | JNull \<Rightarrow> (st, False)
      | _ \<Rightarrow> (st, True))"

definition Page :: "string option \<Rightarrow> Response" where
  "Page asset =
     (case asset of
        None \<Rightarrow> fail 500 (Message ''page'')
      | Some d \<Rightarrow> respond 200 (Data ''text/html; charset=utf-8'' d))"

definition config_view :: "Config \<Rightarrow> ConfigView" where
  "config_view c =
     \<lparr>CvPaymentChain = PaymentChain c, CvNetwork = Network c, CvChainID = ChainID c, CvPayTo = PayToAddress c,
      CvAsset = USDCAddress c, CvUpstream = UpstreamURL c, CvMarkup = Markup c, CvCacheTTLSecs = CacheTTLSecs c,
      CvSigTimeoutSecs = SigTimeoutSecs c, CvMaxBodyBytes = MaxBodyBytes c, CvAllowedOrigins = AllowedOrigins c,
      CvAdminAuthEnabled = (AdminToken c \<noteq> []), CvDryRun = DryRun c\<rparr>"

definition Overview :: "'w Server \<Rightarrow> Response \<times> 'w Server" where
  "Overview s =
     (case DB_Summary (db s) of
        (Inl e, d) \<Rightarrow> (fail 500 (StoreError e), s\<lparr>db := d\<rparr>)
      | (Inr summary, d) \<Rightarrow>
          (case RecentPayments d 20 of
             (Inl e, d) \<Rightarrow> (fail 500 (StoreError e), s\<lparr>db := d\<rparr>)
           | (Inr recent, d) \<Rightarrow>
               (case ListModelPrices d of
                  (Inl e, d) \<Rightarrow> (fail 500 (StoreError e), s\<lparr>db := d\<rparr>)
                | (Inr entries, d) \<Rightarrow>
                    (respond 200 (OverviewInfo
                       \<lparr>OvSummary = summary, OvRecent = recent, OvPrices = entries, OvConfig = config_view (cfg s)\<rparr>),
                     s\<lparr>db := d\<rparr>))))"

text \<open>The two request bodies.\<close>

definition settings_body :: "Request \<Rightarrow> f64 option" where
  "settings_body req = ShouldBindJSON (decode_struct (\<lambda>k raw v p.
     if is_field k ''markup'' then decode_float (\<lambda>f. f) v p else (p, False))) req (Fin (BRat 0 1))"

definition price_body :: "Request \<Rightarrow> ModelPriceEntry option" where
  "price_body req = ShouldBindJSON decode_ModelPriceEntry req
     \<lparr>Model = '''', Input = '''', Output = '''', CachedInput = '''', IsDefault = False\<rparr>"

definition SaveSettings :: "'w Server \<Rightarrow> int \<Rightarrow> Request \<Rightarrow> Response \<times> 'w Server" where
  "SaveSettings s now req =
     (case settings_body req of
        None \<Rightarrow> (fail 400 BadJSONBody, s)
      | Some markup \<Rightarrow>
          if f64_le_zero markup \<or> markup = NaN \<or> markup = Inf False \<or> markup = Inf True
          then (fail 400 (Message ''markup must be a positive finite number''), s)
          else
            let s = s\<lparr>cfg := cfg s\<lparr>Markup := markup\<rparr>\<rparr> in
            (case SetSetting (db s) now ''markup'' (FormatFloat markup) of
              (Inl e, d) \<Rightarrow> (fail 500 (StoreError e), s\<lparr>db := d\<rparr>)
            | (Inr _, d) \<Rightarrow> (respond 200 (MarkupSaved (Markup (cfg s))), s\<lparr>db := d\<rparr>)))"

definition reloadPrices :: "'w Server \<Rightarrow> (fault + unit) \<times> 'w Server" where
  "reloadPrices s =
     (case ListModelPrices (db s) of
        (Inl e, d) \<Rightarrow> (Inl (StoreError e), s\<lparr>db := d\<rparr>)
      | (Inr entries, d) \<Rightarrow>
          (case NewTableFromEntries DefaultPrice entries of
            Inl e \<Rightarrow> (Inl (PriceError e), s\<lparr>db := d\<rparr>)
          | Inr table \<Rightarrow> (Inr (), s\<lparr>db := d, prices := Replace (prices s) (Some table)\<rparr>)))"

text \<open>A write to the catalog, then the reload.\<close>

definition write_and_reload :: "'w Server \<Rightarrow> (db_error + unit) \<times> DB \<Rightarrow> Response \<times> 'w Server" where
  "write_and_reload s r =
     (case r of
        (Inl e, d) \<Rightarrow> (fail 500 (StoreError e), s\<lparr>db := d\<rparr>)
      | (Inr _, d) \<Rightarrow>
          (case reloadPrices (s\<lparr>db := d\<rparr>) of
             (Inl f, s) \<Rightarrow> (fail 500 f, s)
           | (Inr _, s) \<Rightarrow> (respond 200 JSONOk, s)))"

definition SavePrice :: "'w Server \<Rightarrow> int \<Rightarrow> Request \<Rightarrow> Response \<times> 'w Server" where
  "SavePrice s now req =
     (case price_body req of
        None \<Rightarrow> (fail 400 BadJSONBody, s)
      | Some entry \<Rightarrow>
          let entry = entry\<lparr>Model := ToLower (TrimSpace (Model entry))\<rparr> in
          if Model entry = [] then (fail 400 (Message ''model is required''), s)
          else (case NewTableFromEntries DefaultPrice [entry] of
            Inl e \<Rightarrow> (fail 400 (PriceError e), s)
          | Inr _ \<Rightarrow> write_and_reload s (UpsertModelPrice (db s) now (entry\<lparr>IsDefault := False\<rparr>))))"

definition DeletePrice :: "'w Server \<Rightarrow> string \<Rightarrow> Response \<times> 'w Server" where
  "DeletePrice s param =
     (let model = ToLower (TrimSpace param) in
      if model = [] then (fail 400 (Message ''model is required''), s)
      else write_and_reload s (DeleteModelPrice (db s) model))"

definition ResetPrices :: "'w Server \<Rightarrow> int \<Rightarrow> Response \<times> 'w Server" where
  "ResetPrices s now = write_and_reload s (ReplaceModelPrices (db s) now DefaultEntries)"

text \<open>\<open>AdminAuth\<close>: \<open>None\<close> goes on to the handler.\<close>

definition AdminAuth :: "string \<Rightarrow> Request \<Rightarrow> Response option" where
  "AdminAuth token req =
     (if token = [] then None
      else
        let got = GetHeader req ''X-Admin-Token'';
            got = (if got = [] then TrimPrefix (GetHeader req ''Authorization'') ''Bearer '' else got)
        in if got \<noteq> token then Some (fail 401 (Message ''admin token required'')) else None)"

subsection \<open>What the store holds\<close>

text \<open>
  The invariant of a store that only the server writes to: unique keys, ids in normal form, entries
  that compile, and a stored markup that was printed from a positive finite double.
\<close>

definition markup_ok :: "f64 \<Rightarrow> bool" where
  "markup_ok m \<longleftrightarrow> (\<exists>r. m = Fin r \<and> double r \<and> 0 < Num r)"

definition catalog_ok :: "(string \<Rightarrow> ModelPriceEntry option) \<Rightarrow> bool" where
  "catalog_ok m \<longleftrightarrow> (\<forall>k e. m k = Some e \<longrightarrow> Model e = k \<and> normalizeModel k = k \<and> valid_entry e)"

definition settings_ok :: "(string \<Rightarrow> string option) \<Rightarrow> bool" where
  "settings_ok st \<longleftrightarrow> (\<forall>v. st ''markup'' = Some v \<longrightarrow> (\<exists>m. markup_ok m \<and> v = FormatFloat m))"

definition store_ok :: "DB \<Rightarrow> bool" where
  "store_ok d \<longleftrightarrow> db_wf d \<and> catalog_ok (catalog d) \<and> settings_ok (setting d)"

text \<open>The writes the server makes.\<close>

definition call_ok :: "db_call \<Rightarrow> bool" where
  "call_ok call =
     (case call of
        CRecord p \<Rightarrow> True
      | CSetSetting k v \<Rightarrow> (\<exists>m. markup_ok m \<and> v = FormatFloat m)
      | CBootstrap es \<Rightarrow> catalog_ok (entries_map es)
      | CUpsert e \<Rightarrow> normalizeModel (Model e) = Model e \<and> valid_entry e
      | CDeletePrice k \<Rightarrow> True
      | CReplace es \<Rightarrow> catalog_ok (entries_map es))"

lemma store_ok_tables: "tables d' = tables d \<Longrightarrow> store_ok d \<Longrightarrow> store_ok d'"
  using db_wf_tables catalog_tables setting_tables unfolding store_ok_def by metis

lemma catalog_ok_step: "call_ok call \<Longrightarrow> catalog_ok m \<Longrightarrow> catalog_ok (catalog_step call m)"
  by (cases call) (auto simp: call_ok_def catalog_ok_def map_add_def split: option.splits)

lemma settings_ok_step: "call_ok call \<Longrightarrow> settings_ok st \<Longrightarrow> settings_ok (setting_step call st)"
  by (cases call) (auto simp: call_ok_def settings_ok_def)

lemma store_ok_step:
  assumes "call_ok call" "store_ok d"
  shows "store_ok (snd (db_call_step d now call))"
  using assms catalog_ok_step [OF assms(1)] settings_ok_step [OF assms(1)]
  by (simp add: store_ok_def db_wf_step catalog_view.view_invariant setting_view.view_invariant)

lemma DefaultEntries_ok: "catalog_ok (entries_map DefaultEntries)"
proof -
  have "list_all (\<lambda>(m, p). normalizeModel m = m) DefaultPrices" by code_simp
  then have n: "\<forall>(m, p) \<in> set DefaultPrices. normalizeModel m = m" by (simp only: list_all_iff)
  show ?thesis
    unfolding catalog_ok_def entries_map_def
  proof (intro allI impI)
    fix k e
    assume "map_of (map (\<lambda>e. (Model e, e)) DefaultEntries) k = Some e"
    then have e: "e \<in> set DefaultEntries" "Model e = k" by (auto dest: map_of_SomeD)
    then have "normalizeModel k = k" using n by (auto simp: DefaultEntries_set)
    then show "Model e = k \<and> normalizeModel k = k \<and> valid_entry e" using e DefaultEntries_valid by blast
  qed
qed

subsection \<open>The prices in force\<close>

text \<open>The table the relay charges by is the catalog, each entry compiled.\<close>

definition in_force :: "Manager \<Rightarrow> (string \<Rightarrow> ModelPriceEntry option) \<Rightarrow> bool" where
  "in_force m ct \<longleftrightarrow>
     (\<exists>t. mtable m = Some t \<and> table_wf t \<and> defaultPrice t = projr (compilePrice DefaultPrice) \<and>
        models t = (\<lambda>k. map_option (\<lambda>e. projr (compilePrice (entry_price e))) (ct k)))"

lemma table_of_catalog:
  assumes "sorted_wrt (<) (map Model es)" "entries_map es = ct" "catalog_ok ct"
    and "\<And>e. e \<in> set es \<longleftrightarrow> ct (Model e) = Some e"
  obtains t where "NewTableFromEntries DefaultPrice es = Inr t" "in_force \<lparr>mtable = Some t\<rparr> ct"
proof -
  have es: "normalizeModel (Model e) = Model e \<and> valid_entry e" if "e \<in> set es" for e
  proof -
    have "ct (Model e) = Some e" using that assms(4) by blast
    then show ?thesis using assms(3) unfolding catalog_ok_def by blast
  qed
  then have "is_ok (NewTableFromEntries DefaultPrice es)" by (intro NewTableFromEntries_valid) blast
  then obtain t where t: "NewTableFromEntries DefaultPrice es = Inr t" by (auto simp: is_ok_iff)
  have dist: "distinct (map Model es)" using assms(1) by (simp add: strict_sorted_iff)
  have "models t = map_of (map (\<lambda>e. (Model e, projr (compilePrice (entry_price e)))) es)"
    by (rule NewTableFromEntries_models [OF t dist]) (use es in blast)
  also have "\<dots> = (\<lambda>k. map_option (\<lambda>e. projr (compilePrice (entry_price e))) (entries_map es k))"
    by (induction es) (auto simp: entries_map_def)
  finally have "models t = (\<lambda>k. map_option (\<lambda>e. projr (compilePrice (entry_price e))) (ct k))"
    by (simp add: assms(2))
  moreover have "defaultPrice t = projr (compilePrice DefaultPrice)"
  proof -
    obtain c where c: "compilePrice DefaultPrice = Inr c" using plain_ModelPrice_ok DefaultPrices_plain(1) by blast
    have "NewTable DefaultPrice (entry_map es) = Inr t" using t by (simp only: NewTableFromEntries_alt)
    then obtain t0 where "add_models (entry_map es) \<lparr>defaultPrice = c, models = Map.empty, prefixes = []\<rparr> = Inr t0"
      "t = t0\<lparr>prefixes := sort_key (\<lambda>p. - int (length p)) (prefixes t0)\<rparr>"
      unfolding NewTable_def fill_DefaultPrice by (auto simp: c split: sum.splits)
    then have "defaultPrice t = c" by (auto dest!: add_models_Inr)
    then show ?thesis by (simp only: c sum.sel)
  qed
  moreover have "table_wf t" using NewTable_Inr(1) t by (simp only: NewTableFromEntries_alt)
  ultimately show thesis using that t by (simp add: in_force_def)
qed

lemma reloadPrices_cases:
  assumes "reloadPrices s = (res, s')" "store_ok (db s)"
  obtains (ok) d p where "res = Inr ()" "s' = s\<lparr>db := d, prices := p\<rparr>" "in_force p (catalog d)"
      "tables d = tables (db s)"
    | (failed) d e where "res = Inl (StoreError e)" "s' = s\<lparr>db := d\<rparr>" "tables d = tables (db s)"
        "faults (db s) \<noteq> []"
proof -
  obtain l d where l: "ListModelPrices (db s) = (l, d)" by fastforce
  show thesis
  proof (cases l)
    case (Inl e)
    then have "tables d = tables (db s)"
      using l by (auto simp: ListModelPrices_def split: prod.splits if_splits dest!: stmt_tables)
    moreover have "faults (db s) \<noteq> []" using l Inl ListModelPrices_ok [of "db s"] by auto
    ultimately show thesis using assms(1) l Inl by (intro failed [of e d]) (auto simp: reloadPrices_def)
  next
    case (Inr es)
    have wf: "db_wf (db s)" and cok: "catalog_ok (catalog (db s))" using assms(2) by (simp_all add: store_ok_def)
    note spec = ListModelPrices_Inr [OF l [unfolded Inr] wf]
    obtain t where t: "NewTableFromEntries DefaultPrice es = Inr t" "in_force \<lparr>mtable = Some t\<rparr> (catalog (db s))"
      using table_of_catalog [OF spec(2,3) cok spec(4)] by blast
    have c: "catalog d = catalog (db s)" using spec(1) by (rule catalog_tables)
    show thesis
    proof (rule ok)
      show "in_force \<lparr>mtable = Some t\<rparr> (catalog d)" using t(2) c by simp
    qed (use assms(1) l Inr t(1) spec(1) in \<open>auto simp: reloadPrices_def Replace_def\<close>)
  qed
qed

lemma in_force_price:
  assumes "in_force m ct" "ct (normalizeModel model) = Some e"
  shows "priceFor (mtable m) model = projr (compilePrice (entry_price e))"
  using assms by (auto simp: in_force_def priceFor_def table_or_default_def)

lemma in_force_tables: "in_force m (catalog d) \<Longrightarrow> tables d' = tables d \<Longrightarrow> in_force m (catalog d')"
  using catalog_tables by metis

subsection \<open>The API as operations on the catalog and the markup\<close>

datatype admin_call =
    ReadOverview
  | PutSettings Request
  | PostPrice Request
  | DeletePriceOf string
  | PostReset

fun admin_step :: "'w Server \<Rightarrow> int \<Rightarrow> admin_call \<Rightarrow> Response \<times> 'w Server" where
  "admin_step s now ReadOverview = Overview s"
| "admin_step s now (PutSettings req) = SaveSettings s now req"
| "admin_step s now (PostPrice req) = SavePrice s now req"
| "admin_step s now (DeletePriceOf model) = DeletePrice s model"
| "admin_step s now PostReset = ResetPrices s now"

text \<open>What a call asks for: a change of the catalog, a markup.\<close>

fun price_effect :: "admin_call \<Rightarrow> (string \<Rightarrow> ModelPriceEntry option) \<Rightarrow> string \<Rightarrow> ModelPriceEntry option" where
  "price_effect (PostPrice req) ct =
     (case price_body req of
        None \<Rightarrow> ct
      | Some e \<Rightarrow> ct(normalizeModel (Model e) \<mapsto> e\<lparr>Model := normalizeModel (Model e), IsDefault := False\<rparr>))"
| "price_effect (DeletePriceOf model) ct = ct(normalizeModel model := None)"
| "price_effect PostReset ct = entries_map DefaultEntries"
| "price_effect ReadOverview ct = ct"
| "price_effect (PutSettings req) ct = ct"

fun markup_effect :: "admin_call \<Rightarrow> f64 \<Rightarrow> f64" where
  "markup_effect (PutSettings req) m = (case settings_body req of None \<Rightarrow> m | Some m' \<Rightarrow> m')"
| "markup_effect _ m = m"

text \<open>The write to the store a price call makes.\<close>

fun price_write :: "admin_call \<Rightarrow> db_call option" where
  "price_write (PostPrice req) =
     map_option (\<lambda>e. CUpsert (e\<lparr>Model := normalizeModel (Model e), IsDefault := False\<rparr>)) (price_body req)"
| "price_write (DeletePriceOf model) = Some (CDeletePrice (normalizeModel model))"
| "price_write PostReset = Some (CReplace DefaultEntries)"
| "price_write _ = None"

lemma price_write_effect: "price_write call = Some w \<Longrightarrow> catalog_step w ct = price_effect call ct"
  by (cases call) auto

lemma decode_members_inv:
  assumes "\<And>k raw v st. P st \<Longrightarrow> P (fst (f k raw v st))" "P st"
  shows "P (fst (decode_members f ms st))"
  using assms(2)
proof (induction ms arbitrary: st)
  case (Cons m ms)
  obtain k raw v where m: "m = (k, raw, v)" by (cases m) auto
  obtain x e where x: "f k raw v st = (x, e)" by fastforce
  then have "P x" using assms(1) [of st k raw v] Cons.prems by simp
  then have "P (fst (decode_members f ms x))" by (rule Cons.IH)
  then show ?case by (simp add: m x case_prod_unfold)
qed simp

lemma settings_body_double:
  assumes "settings_body req = Some m" "\<not> f64_le_zero m" "m \<noteq> NaN" "m \<noteq> Inf False" "m \<noteq> Inf True"
  shows "markup_ok m"
proof -
  let ?P = "\<lambda>m. \<forall>r. m = Fin r \<longrightarrow> 0 < Num r \<longrightarrow> double r"
  let ?f = "\<lambda>k raw v p. if is_field k ''markup'' then decode_float (\<lambda>f. f) v p else (p, False)"
  have step: "?P (fst (?f k raw v st))" if "?P st" for k raw v st
    using that ParseFloat_double by (auto simp: decode_float_def split: json.split option.split)
  have zero: "?P (Fin (BRat 0 1))" by simp
  have "?P (fst (decode_struct ?f v (Fin (BRat 0 1))))" for v
    using decode_members_inv [of ?P ?f, OF step zero] zero by (auto simp: decode_struct_def split: json.split)
  then have dec: "?P (fst (Decoder_Decode (decode_struct ?f) b (Fin (BRat 0 1))))" for b
    using zero unfolding Decoder_Decode_def by (cases "json_decode_first b") simp_all
  obtain b where "Decoder_Decode (decode_struct ?f) b (Fin (BRat 0 1)) = (m, False)"
    using assms(1) unfolding settings_body_def ShouldBindJSON_def
    by (cases "ReqBody req") (auto split: prod.splits if_splits)
  then have "?P m" using dec [of b] by (simp only: fst_conv)
  then show ?thesis using assms(2-5) by (cases m) (auto simp: markup_ok_def)
qed

lemma normalizeModel_idem [simp]: "normalizeModel (normalizeModel s) = normalizeModel s"
  by (simp add: normalizeModel_def)

text \<open>Without failures of the engine there are none later.\<close>

lemma bootstrap_rows_ok:
  "faults d = [] \<Longrightarrow> \<exists>d'. bootstrap_rows now es d = (Inr (), d') \<and> faults d' = []"
  by (induction es arbitrary: d) auto

lemma insert_rows_faults: "faults d = [] \<Longrightarrow> faults (snd (insert_rows now es d)) = []"
  by (induction es arbitrary: d) auto

lemma in_tx_faults:
  assumes "\<And>d. faults d = [] \<Longrightarrow> faults (snd (body d)) = []" "faults d = []"
  shows "faults (snd (in_tx d body)) = []"
proof -
  obtain r d1 where "body d = (r, d1)" by fastforce
  then show ?thesis using assms(2) assms(1) [of d] by (cases r) (simp_all add: in_tx_def)
qed

lemma db_call_step_faults: "faults d = [] \<Longrightarrow> faults (snd (db_call_step d now call)) = []"
proof (cases call)
  case (CBootstrap es)
  assume "faults d = []"
  moreover have "faults (snd (bootstrap_rows now es d)) = []" if "faults d = []" for d
    using bootstrap_rows_ok [OF that, of now es] by auto
  ultimately show ?thesis using CBootstrap in_tx_faults by (simp add: BootstrapDefaultPrices_def)
next
  case (CReplace es)
  assume "faults d = []"
  then show ?thesis using CReplace by (simp add: ReplaceModelPrices_def in_tx_faults insert_rows_faults)
qed (simp_all add: Record_def SetSetting_def UpsertModelPrice_def DeleteModelPrice_def)

lemma reloadPrices_faults: "faults (db s) = [] \<Longrightarrow> faults (db (snd (reloadPrices s))) = []"
  by (simp add: reloadPrices_def ListModelPrices_def split: sum.split)

lemma write_and_reload_faults:
  "faults (db s) = [] \<Longrightarrow> faults (db (snd (write_and_reload s (db_call_step (db s) now w)))) = []"
  using db_call_step_faults [of "db s" now w]
    reloadPrices_faults [of "s\<lparr>db := snd (db_call_step (db s) now w)\<rparr>"]
  by (auto simp: write_and_reload_def split: prod.splits sum.splits)

lemma write_and_reload_cases:
  assumes "write_and_reload s (db_call_step (db s) now w) = (resp, s')" "call_ok w" "store_ok (db s)"
  obtains (written) d p where "resp = respond 200 JSONOk" "s' = s\<lparr>db := d, prices := p\<rparr>"
      "catalog d = catalog_step w (catalog (db s))" "setting d = setting_step w (setting (db s))"
      "store_ok d" "in_force p (catalog d)"
    | (unwritten) d e where "resp = fail 500 (StoreError e)" "s' = s\<lparr>db := d\<rparr>" "tables d = tables (db s)"
      "fst (db_call_step (db s) now w) = Inl e"
    | (stale) d e where "resp = fail 500 (StoreError e)" "s' = s\<lparr>db := d\<rparr>"
      "catalog d = catalog_step w (catalog (db s))" "setting d = setting_step w (setting (db s))" "store_ok d"
      "faults (db s) \<noteq> []"
proof -
  obtain r d where r: "db_call_step (db s) now w = (r, d)" by fastforce
  show thesis
  proof (cases r)
    case (Inl e)
    then show thesis
      using assms(1) r write_Inl_tables by (intro unwritten [of e d]) (auto simp: write_and_reload_def)
  next
    case (Inr u)
    have step: "catalog d = catalog_step w (catalog (db s))" "setting d = setting_step w (setting (db s))"
      using catalog_step_refines setting_step_refines r Inr by simp_all
    have ok: "store_ok d" using store_ok_step [OF assms(2,3)] r by (metis snd_conv)
    obtain res s1 where l: "reloadPrices (s\<lparr>db := d\<rparr>) = (res, s1)" by fastforce
    have e: "(resp, s') = (case res of Inl f \<Rightarrow> (fail 500 f, s1) | Inr _ \<Rightarrow> (respond 200 JSONOk, s1))"
      using assms(1) r Inr l by (simp add: write_and_reload_def)
    have same: "catalog d1 = catalog d" "setting d1 = setting d" "store_ok d1" if "tables d1 = tables d" for d1
      using that catalog_tables setting_tables store_ok_tables ok by blast+
    have "store_ok (db (s\<lparr>db := d\<rparr>))" by (simp add: ok)
    with l show thesis
    proof (cases rule: reloadPrices_cases)
      case (ok d1 p)
      then show thesis using written [of p d1] e step same [of d1] by simp
    next
      case (failed d1 e')
      moreover have "faults (db s) \<noteq> []" using failed(4) r db_call_step_faults [of "db s" now w] by auto
      ultimately show thesis using stale [of e' d1] e step same [of d1] by simp
    qed
  qed
qed

lemma price_call_ok:
  assumes "price_write call = Some w" "is_ok (NewTableFromEntries DefaultPrice [e]) \<or> (\<forall>req. call \<noteq> PostPrice req)"
    "\<And>req e'. call = PostPrice req \<Longrightarrow> price_body req = Some e' \<Longrightarrow> e = e'\<lparr>Model := normalizeModel (Model e')\<rparr>"
  shows "call_ok w"
proof (cases call)
  case (PostPrice req)
  then obtain e' where e': "price_body req = Some e'" "w = CUpsert (e'\<lparr>Model := normalizeModel (Model e'), IsDefault := False\<rparr>)"
    using assms(1) by auto
  then have e: "e = e'\<lparr>Model := normalizeModel (Model e')\<rparr>" using assms(3) PostPrice by blast
  then have "entry_map [e] = [(Model e, entry_price e)]" by (simp add: entry_map_def)
  then have "\<exists>t. NewTable DefaultPrice [(Model e, entry_price e)] = Inr t"
    using assms(2) PostPrice by (simp add: NewTableFromEntries_alt is_ok_iff)
  then have "normalizeModel (Model e) \<noteq> [] \<and> is_ok (compilePrice (entry_price e))"
    using NewTable_Inr(3) by fastforce
  then show ?thesis by (simp add: e' e call_ok_def valid_entry_def entry_price_def)
qed (use assms(1) DefaultEntries_ok in \<open>auto simp: call_ok_def\<close>)

lemma SavePrice_cases:
  assumes "SavePrice s now req = (resp, s')"
  obtains (refused) f where "resp = fail 400 f" "s' = s"
    | (sent) w where "price_write (PostPrice req) = Some w" "call_ok w"
        "write_and_reload s (db_call_step (db s) now w) = (resp, s')"
proof (cases "price_body req")
  case None
  then show thesis using assms refused by (auto simp: SavePrice_def)
next
  case (Some e')
  let ?e = "e'\<lparr>Model := normalizeModel (Model e')\<rparr>"
  show thesis
  proof (cases "Model ?e = []")
    case True
    then show thesis using assms refused Some by (auto simp: SavePrice_def normalizeModel_def)
  next
    case nonempty: False
    show thesis
    proof (cases "NewTableFromEntries DefaultPrice [?e]")
      case (Inl e)
      then show thesis using assms refused Some nonempty by (auto simp: SavePrice_def normalizeModel_def)
    next
      case (Inr t)
      let ?w = "CUpsert (?e\<lparr>IsDefault := False\<rparr>)"
      have w: "price_write (PostPrice req) = Some ?w" using Some by simp
      have "call_ok ?w" using Some Inr by (intro price_call_ok [OF w, of ?e]) simp_all
      moreover have "write_and_reload s (db_call_step (db s) now ?w) = (resp, s')"
        using assms Some nonempty Inr by (simp add: SavePrice_def normalizeModel_def)
      ultimately show thesis using sent w by blast
    qed
  qed
qed

lemma read_tables:
  "tables (snd (DB_Summary d)) = tables d" "tables (snd (RecentPayments d n)) = tables d"
  "tables (snd (ListModelPrices d)) = tables d" "tables (snd (SumByAddress d a)) = tables d"
  "tables (snd (RecentByAddress d a n)) = tables d"
  unfolding DB_Summary_def RecentPayments_def ListModelPrices_def SumByAddress_def RecentByAddress_def
  by (auto simp: Let_def split: prod.split option.split dest!: stmt_tables)

lemma Overview_reads: "\<exists>d. snd (Overview s) = s\<lparr>db := d\<rparr> \<and> tables d = tables (db s)"
proof -
  obtain r1 d1 where 1: "DB_Summary (db s) = (r1, d1)" by fastforce
  obtain r2 d2 where 2: "RecentPayments d1 20 = (r2, d2)" by fastforce
  obtain r3 d3 where 3: "ListModelPrices d2 = (r3, d3)" by fastforce
  have "tables d1 = tables (db s)" "tables d2 = tables d1" "tables d3 = tables d2"
    using read_tables(1) [of "db s"] read_tables(2) [of d1 20] read_tables(3) [of d2] 1 2 3 by simp_all
  then show ?thesis
    by (cases r1; cases r2; cases r3) (auto simp: Overview_def 1 2 3)
qed

lemma SaveSettings_cases:
  assumes "SaveSettings s now req = (resp, s')"
  obtains (refused) f where "resp = fail 400 f" "s' = s"
    | (sent) m r d where "settings_body req = Some m" "markup_ok m"
        "db_call_step (db s) now (CSetSetting ''markup'' (FormatFloat m)) = (r, d)"
        "s' = s\<lparr>cfg := cfg s\<lparr>Markup := m\<rparr>, db := d\<rparr>"
        "resp = (case r of Inl e \<Rightarrow> fail 500 (StoreError e) | Inr _ \<Rightarrow> respond 200 (MarkupSaved m))"
proof (cases "settings_body req")
  case None
  then show thesis using assms refused by (auto simp: SaveSettings_def)
next
  case (Some m)
  obtain r d where r: "SetSetting (db s) now ''markup'' (FormatFloat m) = (r, d)" by fastforce
  show thesis
  proof (cases "f64_le_zero m \<or> m = NaN \<or> m = Inf False \<or> m = Inf True")
    case True
    then show thesis using assms refused Some by (auto simp: SaveSettings_def)
  next
    case False
    then have "markup_ok m" using settings_body_double [OF Some] by blast
    moreover have "s' = s\<lparr>cfg := cfg s\<lparr>Markup := m\<rparr>, db := d\<rparr> \<and>
        resp = (case r of Inl e \<Rightarrow> fail 500 (StoreError e) | Inr _ \<Rightarrow> respond 200 (MarkupSaved m))"
      using assms Some False r by (cases r) (simp_all add: SaveSettings_def)
    ultimately show thesis using sent Some r by simp
  qed
qed

lemma admin_step_cases:
  assumes "admin_step s now call = (resp, s')"
  obtains (refused) f where "resp = fail 400 f" "s' = s"
    | (read) d where "call = ReadOverview" "s' = s\<lparr>db := d\<rparr>" "tables d = tables (db s)"
    | (priced) w where "price_write call = Some w" "call_ok w"
        "write_and_reload s (db_call_step (db s) now w) = (resp, s')"
    | (markup) req m r d where "call = PutSettings req" "settings_body req = Some m" "markup_ok m"
        "db_call_step (db s) now (CSetSetting ''markup'' (FormatFloat m)) = (r, d)"
        "s' = s\<lparr>cfg := cfg s\<lparr>Markup := m\<rparr>, db := d\<rparr>"
        "resp = (case r of Inl e \<Rightarrow> fail 500 (StoreError e) | Inr _ \<Rightarrow> respond 200 (MarkupSaved m))"
proof (cases call)
  case ReadOverview
  then have "s' = snd (Overview s)" using assms by simp
  then show thesis using Overview_reads [of s] ReadOverview read by metis
next
  case (PutSettings req)
  then have "SaveSettings s now req = (resp, s')" using assms by simp
  then show thesis
  proof (cases rule: SaveSettings_cases)
    case (refused f)
    then show thesis by (rule that(1))
  next
    case (sent m r d)
    then show thesis using markup PutSettings by blast
  qed
next
  case (PostPrice req)
  then have "SavePrice s now req = (resp, s')" using assms by simp
  then show thesis
  proof (cases rule: SavePrice_cases)
    case (refused f)
    then show thesis by (rule that(1))
  next
    case (sent w)
    then show thesis using priced PostPrice by blast
  qed
next
  case (DeletePriceOf model)
  show thesis
  proof (cases "normalizeModel model = []")
    case True
    then show thesis using assms refused DeletePriceOf by (auto simp: DeletePrice_def normalizeModel_def)
  next
    case False
    then show thesis
      using assms DeletePriceOf priced by (simp add: DeletePrice_def normalizeModel_def call_ok_def)
  qed
next
  case PostReset
  then show thesis using assms priced DefaultEntries_ok by (simp add: ResetPrices_def call_ok_def)
qed

lemma price_write_effects:
  assumes "price_write call = Some w"
  shows "markup_effect call m = m" "setting_step w st = st" "call \<noteq> ReadOverview" "\<forall>req. call \<noteq> PutSettings req"
  using assms by (cases call; auto)+

lemma store_ok_markup:
  assumes "store_ok (db s)" "markup_ok m"
    "db_call_step (db s) now (CSetSetting ''markup'' (FormatFloat m)) = (r, d)"
  shows "store_ok d" "catalog d = catalog (db s)"
    "setting d = (case r of Inl _ \<Rightarrow> setting (db s) | Inr _ \<Rightarrow> (setting (db s))(''markup'' \<mapsto> FormatFloat m))"
proof -
  have "call_ok (CSetSetting ''markup'' (FormatFloat m))" using assms(2) by (auto simp: call_ok_def)
  then show "store_ok d" using store_ok_step assms(1,3) by (metis snd_conv)
  show "catalog d = catalog (db s)"
  proof (cases r)
    case (Inl e)
    then show ?thesis using catalog_tables write_Inl_tables assms(3) by blast
  next
    case (Inr u)
    then show ?thesis using catalog_step_refines [of "db s" now _ d] assms(3) by (metis catalog_step.simps(6) unit.exhaust)
  qed
  show "setting d = (case r of Inl _ \<Rightarrow> setting (db s) | Inr _ \<Rightarrow> (setting (db s))(''markup'' \<mapsto> FormatFloat m))"
  proof (cases r)
    case (Inl e)
    then have "setting d = setting (db s)" using setting_tables write_Inl_tables assms(3) by blast
    then show ?thesis using Inl by simp
  next
    case (Inr u)
    then have "setting d = setting_step (CSetSetting ''markup'' (FormatFloat m)) (setting (db s))"
      using setting_step_refines assms(3) unit.exhaust by metis
    then show ?thesis using Inr by simp
  qed
qed

lemma Overview_faults: "faults (db s) = [] \<Longrightarrow> faults (db (snd (Overview s))) = []"
  by (simp add: Overview_def DB_Summary_def RecentPayments_def ListModelPrices_def split: option.split)

lemma admin_step_faults:
  assumes "admin_step s now call = (resp, s')" "faults (db s) = []"
  shows "faults (db s') = []"
  using assms(1)
proof (cases rule: admin_step_cases)
  case (read d)
  then show ?thesis using Overview_faults [OF assms(2)] assms(1) by simp
next
  case (priced w)
  then show ?thesis using write_and_reload_faults [OF assms(2), of now w] by simp
next
  case (markup req m r d)
  then show ?thesis using db_call_step_faults [OF assms(2), of now "CSetSetting ''markup'' (FormatFloat m)"] by simp
qed (use assms(2) in simp)

text \<open>Every call keeps the store and the markup well-formed, whatever its outcome.\<close>

lemma admin_step_ok:
  assumes "admin_step s now call = (resp, s')" "store_ok (db s)" "markup_ok (Markup (cfg s))"
  shows "store_ok (db s')" "markup_ok (Markup (cfg s'))"
proof -
  have "store_ok (db s') \<and> markup_ok (Markup (cfg s'))"
    using assms(1)
  proof (cases rule: admin_step_cases)
    case (priced w)
    from priced(3,2) assms(2) show ?thesis
    proof (cases rule: write_and_reload_cases)
      case (unwritten d e)
      then show ?thesis using store_ok_tables assms(2,3) by simp
    qed (simp_all add: assms(3))
  next
    case (read d)
    then show ?thesis using store_ok_tables assms(2,3) by simp
  next
    case (markup req m r d)
    then show ?thesis using store_ok_markup(1) [OF assms(2)] by simp
  qed (simp add: assms)
  then show "store_ok (db s')" "markup_ok (Markup (cfg s'))" by blast+
qed

text \<open>C14: The admin API does what it says: an answer 200 means that the call's change of the
  catalog and of the markup has been made, in the database and in memory, and nothing else of the
  settings or the configuration; after a change of prices, the relay charges by the new catalog.\<close>

theorem admin_refines:
  assumes "admin_step s now call = (resp, s')" "store_ok (db s)" "RStatus resp = 200"
  shows "catalog (db s') = price_effect call (catalog (db s)) \<and>
     cfg s' = cfg s\<lparr>Markup := markup_effect call (Markup (cfg s))\<rparr> \<and>
     (price_write call \<noteq> None \<longrightarrow> in_force (prices s') (catalog (db s'))) \<and>
     (case call of
        PutSettings req \<Rightarrow> setting (db s') = (setting (db s))(''markup'' \<mapsto> FormatFloat (Markup (cfg s')))
      | _ \<Rightarrow> setting (db s') = setting (db s))"
  using assms(1)
proof (cases rule: admin_step_cases)
  case (priced w)
  from priced(3,2) assms(2) show ?thesis
  proof (cases rule: write_and_reload_cases)
    case (written d p)
    then show ?thesis using price_write_effects [OF priced(1)] price_write_effect [OF priced(1)]
      by (cases call) simp_all
  qed (use assms(3) in simp_all)
next
  case (read d)
  then show ?thesis using catalog_tables [OF read(3)] setting_tables [OF read(3)] by simp
next
  case (markup req m r d)
  then obtain u where "r = Inr u" using assms(3) by (cases r) simp_all
  then show ?thesis using markup store_ok_markup [OF assms(2) markup(3,4)] by simp
qed (use assms(3) in simp)

text \<open>C15: An answer other than 200 is a refusal that changes nothing (400), or a failure of the
  database (500). After a failure the settings and the prices in force are the old ones, but the
  markup asked for is already in memory, and the catalog may have changed without being in force.\<close>

theorem admin_failure:
  assumes "admin_step s now call = (resp, s')" "store_ok (db s)" "RStatus resp \<noteq> 200"
  shows "RStatus resp = 400 \<and> s' = s \<or>
     RStatus resp = 500 \<and> store_ok (db s') \<and> setting (db s') = setting (db s) \<and>
     (catalog (db s') = catalog (db s) \<or> catalog (db s') = price_effect call (catalog (db s))) \<and>
     cfg s' = cfg s\<lparr>Markup := markup_effect call (Markup (cfg s))\<rparr> \<and> prices s' = prices s \<and>
     cache s' = cache s \<and> settler s' = settler s \<and> world s' = world s"
  using assms(1)
proof (cases rule: admin_step_cases)
  case (priced w)
  from priced(3,2) assms(2) show ?thesis
  proof (cases rule: write_and_reload_cases)
    case (unwritten d e)
    then show ?thesis
      using price_write_effects [OF priced(1)] catalog_tables [OF unwritten(3)] setting_tables [OF unwritten(3)]
        store_ok_tables [OF unwritten(3) assms(2)] by simp
  next
    case (stale d e)
    then show ?thesis
      using price_write_effects [OF priced(1)] price_write_effect [OF priced(1)] by simp
  qed (use assms(3) in simp)
next
  case (read d)
  have "RStatus (fst (Overview s)) \<in> {200, 500}"
    by (auto simp: Overview_def respond_def fail_def split: prod.split sum.split)
  then have "RStatus resp = 500" using assms(1,3) read(1) by (metis admin_step.simps(1) fst_conv insert_iff singletonD)
  then show ?thesis
    using read catalog_tables [OF read(3)] setting_tables [OF read(3)] store_ok_tables [OF read(3) assms(2)] by simp
next
  case (markup req m r d)
  then obtain e where "r = Inl e" using assms(3) by (cases r) simp_all
  then show ?thesis using markup store_ok_markup [OF assms(2) markup(3,4)] by simp
qed simp

text \<open>C16: A price the API has accepted is what the next request is charged by: the model, however it
  is written, costs the compiled strings of the request.\<close>

theorem saved_price_charged:
  assumes "SavePrice s now req = (resp, s')" "store_ok (db s)" "RStatus resp = 200"
  shows "\<exists>e c. price_body req = Some e \<and> compilePrice (entry_price e) = Inr c \<and>
     (\<forall>model. normalizeModel model = normalizeModel (Model e) \<longrightarrow> priceFor (mtable (prices s')) model = c)"
  using assms(1)
proof (cases rule: SavePrice_cases)
  case (sent w)
  then obtain e where e: "price_body req = Some e" "w = CUpsert (e\<lparr>Model := normalizeModel (Model e), IsDefault := False\<rparr>)"
    by auto
  obtain c where c: "compilePrice (entry_price e) = Inr c"
    using sent(2) by (auto simp: e call_ok_def valid_entry_def entry_price_def is_ok_iff)
  from sent(3,2) assms(2) show ?thesis
  proof (cases rule: write_and_reload_cases)
    case (written d p)
    have "priceFor (mtable p) model = c" if "normalizeModel model = normalizeModel (Model e)" for model
      using in_force_price [OF written(6), of model] written(3) that c by (simp add: e entry_price_def)
    then show ?thesis using written(2) e(1) c by simp
  qed (use assms(3) in simp_all)
qed (use assms(3) in simp)

subsection \<open>Sample calls\<close>

definition json_request :: "string \<Rightarrow> Request" where
  "json_request body = \<lparr>Method = ''POST'', Path = '''', GetHeader = (\<lambda>_. ''''), Query = (\<lambda>_. ''''), ReqBody = Some body\<rparr>"

definition price_request :: Request where
  "price_request = json_request ''{\"model\":\" GPT-4o \",\"input\":\"1\",\"output\":\"2.5\"}''"

definition sample_price :: ModelPriceEntry where
  "sample_price = \<lparr>Model = ''gpt-4o'', Input = ''1'', Output = ''2.5'', CachedInput = '''', IsDefault = False\<rparr>"

lemma store_ok_empty: "store_ok (empty_db\<lparr>faults := fs\<rparr>)"
proof -
  have "setting (empty_db\<lparr>faults := fs\<rparr>) k = None" "catalog (empty_db\<lparr>faults := fs\<rparr>) k = None" for k
    by (simp_all add: setting_def catalog_def empty_db_def lookup_by_def)
  moreover have "db_wf (empty_db\<lparr>faults := fs\<rparr>)" by (simp add: db_wf_def empty_db_def)
  ultimately show ?thesis by (simp add: store_ok_def catalog_ok_def settings_ok_def)
qed

lemma store_ok_sample: "store_ok (db sample_server)"
  using store_ok_empty [of "[]"] by (simp add: sample_server_def empty_db_def)

lemma price_request_body: "price_body price_request = Some (sample_price\<lparr>Model := '' GPT-4o ''\<rparr>)"
  by code_simp

lemma sample_saved: "fst (SavePrice sample_server 5 price_request) = respond 200 JSONOk"
  by code_simp

lemma sample_saved_pair:
  "SavePrice sample_server 5 price_request = (respond 200 JSONOk, snd (SavePrice sample_server 5 price_request))"
  by (simp add: prod_eq_iff sample_saved)

theorem admin_refines_witness:
  "let s' = snd (admin_step sample_server 5 (PostPrice price_request))
   in catalog (db s') ''gpt-4o'' = Some sample_price \<and> in_force (prices s') (catalog (db s'))"
proof -
  let ?s = "snd (SavePrice sample_server 5 price_request)"
  have w: "price_write (PostPrice price_request) \<noteq> None" by (simp add: price_request_body)
  have "admin_step sample_server 5 (PostPrice price_request) = (respond 200 JSONOk, ?s)"
    using sample_saved_pair by simp
  from admin_refines [OF this store_ok_sample respond_simps(1)] w
  have a: "catalog (db ?s) = price_effect (PostPrice price_request) (catalog (db sample_server))"
    "in_force (prices ?s) (catalog (db ?s))"
    by blast+
  have "normalizeModel '' GPT-4o '' = ''gpt-4o''" by code_simp
  then have "catalog (db ?s) ''gpt-4o'' = Some sample_price"
    by (simp add: a(1) price_request_body) (simp add: sample_price_def)
  then show ?thesis using a(2) by simp
qed

definition markup_request :: Request where
  "markup_request = json_request ''{\"markup\":2}''"

definition full_disk :: "nat Server" where
  "full_disk = sample_server\<lparr>db := empty_db\<lparr>faults := [True]\<rparr>\<rparr>"

text \<open>The divergence of the handler: the write of the setting fails, the new markup is charged all the same.\<close>

lemma ParseFloat_two: "ParseFloat ''2'' = Some (Fin (BRat 2 1))"
proof -
  have "rval (BRat 2 1) = of_nat 2 * 2 powi 0" by (simp add: rval_def)
  then have "double (BRat 2 1)"
    unfolding double_def by (intro conjI exI [of _ 2] exI [of _ 0]) (simp_all add: brat_wf_def)
  then have "round_f64 2 1 = Some (BRat 2 1)" using round_f64_exact [of "BRat 2 1" 1 2] by (simp add: rval_def)
  moreover have "dval 0 ''2'' = 2" by code_simp
  moreover have "ParseFloat ''2'' = map_option (float_sign False) (read_scaled 10 (dval 0 ''2'') 0)"
    by (rule ParseFloat_digits(2) [where fs = "[]"]) (simp_all, code_simp)
  ultimately show ?thesis by (simp add: read_scaled_def float_sign_def numeral_2_eq_2)
qed

lemma is_field_markup: "is_field ''markup'' ''markup''"
  by code_simp

theorem admin_failure_witness:
  "let (resp, s') = admin_step full_disk 5 (PutSettings markup_request)
   in RStatus resp = 500 \<and> setting (db s') = setting (db full_disk) \<and> Markup (cfg full_disk) \<noteq> Fin (BRat 2 1) \<and>
      Markup (cfg s') = Fin (BRat 2 1)"
proof -
  let ?r = "admin_step full_disk 5 (PutSettings markup_request)"
  have "json_decode_first ''{\"markup\":2}'' = Some (JObj [(''markup'', ''2'', JNum ''2'')])" by code_simp
  then have body: "settings_body markup_request = Some (Fin (BRat 2 1))"
    by (simp add: settings_body_def ShouldBindJSON_def markup_request_def json_request_def Decoder_Decode_def
        decode_struct_def decode_float_def ParseFloat_two is_field_markup)
  have other: "Markup (cfg full_disk) \<noteq> Fin (BRat 2 1)" by code_simp
  have "SetSetting (empty_db\<lparr>faults := [True]\<rparr>) now k v = (Inl EngineFailure, empty_db\<lparr>faults := []\<rparr>)" for now k v
    by (simp add: SetSetting_def stmt_def)
  then have down: "SetSetting (db full_disk) now k v = (Inl EngineFailure, empty_db\<lparr>faults := []\<rparr>)" for now k v
    by (simp add: full_disk_def)
  have "RStatus (fst (SaveSettings full_disk now req)) = 500" if "settings_body req = Some m" "\<not> (f64_le_zero m \<or> m = NaN \<or> m = Inf False \<or> m = Inf True)" for now req m
    using that by (simp add: SaveSettings_def down)
  from this [OF body] have status: "RStatus (fst ?r) = 500" by simp
  have "store_ok (db full_disk)" by (simp add: full_disk_def store_ok_empty)
  from admin_failure [OF prod.collapse [symmetric] this, of 5 "PutSettings markup_request"]
  have "setting (db (snd ?r)) = setting (db full_disk)"
    "cfg (snd ?r) = cfg full_disk\<lparr>Markup := Fin (BRat 2 1)\<rparr>"
    using status body by simp_all
  then have "setting (db (snd ?r)) = setting (db full_disk)" "Markup (cfg (snd ?r)) = Fin (BRat 2 1)" by simp_all
  then show ?thesis using status other by (simp add: case_prod_unfold Let_def del: admin_step.simps)
qed

theorem saved_price_charged_witness:
  "priceFor (mtable (prices (snd (SavePrice sample_server 5 price_request)))) ''GPT-4O'' =
     \<lparr>InputMicrosPerM = 1000000, OutputMicrosPerM = 2500000, CachedInputMicrosPerM = 1000000\<rparr>"
proof -
  have n: "normalizeModel ''GPT-4O'' = normalizeModel '' GPT-4o ''" by code_simp
  have "compilePrice (entry_price (sample_price\<lparr>Model := '' GPT-4o ''\<rparr>)) =
      Inr \<lparr>InputMicrosPerM = 1000000, OutputMicrosPerM = 2500000, CachedInputMicrosPerM = 1000000\<rparr>" by code_simp
  then show ?thesis
    using saved_price_charged [OF sample_saved_pair store_ok_sample] n by (auto simp: price_request_body)
qed

end
