(* ===== verification/Info.thy ===== *)
theory Info
  imports Relay Storage
begin

section \<open>The information endpoints\<close>

text \<open>
  \<open>internal/handler/info.go\<close>: the payment address of the server, and what an address has paid so
  far. The store keys payments by the payer as the settler prints it, so \<open>Balance\<close> first brings the
  queried address into that form.
\<close>

subsection \<open>Handlers\<close>

definition Address :: "'w Server \<Rightarrow> Response" where
  "Address s = respond 200 (AddressInfo
     [(''paymentChain'', PaymentChain (cfg s)), (''payTo'', PayToAddress (cfg s)), (''network'', Network (cfg s)),
      (''asset'', USDCAddress (cfg s)), (''scheme'', SchemeExact)] (ChainID (cfg s)))"

definition normalizeAddress :: "'w libs \<Rightarrow> Config \<Rightarrow> string \<Rightarrow> string \<times> bool" where
  "normalizeAddress l c addr =
     (if PaymentChain c = ''solana'' then
        (case PublicKeyFromBase58 (solana_lib l) addr of
           None \<Rightarrow> ('''', False)
         | Some pub \<Rightarrow> (PublicKey_String (solana_lib l) pub, True))
      else if \<not> IsHexAddress (geth_lib l) addr then ('''', False)
      else (Address_Hex (geth_lib l) (HexToAddress (geth_lib l) addr), True))"

text \<open>An error of \<open>RecentByAddress\<close> is dropped: the list is empty then.\<close>

definition Balance :: "'w libs \<Rightarrow> 'w Server \<Rightarrow> Request \<Rightarrow> Response \<times> 'w Server" where
  "Balance l s req =
     (case normalizeAddress l (cfg s) (Query req ''address'') of
        (payer_id, False) \<Rightarrow> (fail 400 (Message ''invalid address''), s)
      | (payer_id, True) \<Rightarrow>
          (case SumByAddress (db s) payer_id of
             (Inl e, d) \<Rightarrow> (fail 500 (StoreError e), s\<lparr>db := d\<rparr>)
           | (Inr (spent, n), d) \<Rightarrow>
               (case RecentByAddress d payer_id 50 of (r, d) \<Rightarrow>
                  (respond 200 (BalanceInfo
                     \<lparr>BalAddress = payer_id, TotalSpent = spent, TotalSpentUSD = USDCUnitsToUSD (Some spent),
                      BalPaymentCount = n, BalRecent = (case r of Inr recent \<Rightarrow> recent | Inl _ \<Rightarrow> [])\<rparr>),
                   s\<lparr>db := d\<rparr>))))"

subsection \<open>A payment shows in the balance of its payer\<close>

lemma normalizeAddress_OK:
  "normalizeAddress l c addr = (payer_id, True) \<Longrightarrow>
   (if PaymentChain c = ''solana'' then \<exists>k. PublicKeyFromBase58 (solana_lib l) addr = Some k \<and> payer_id = PublicKey_String (solana_lib l) k
    else IsHexAddress (geth_lib l) addr \<and> payer_id = Address_Hex (geth_lib l) (HexToAddress (geth_lib l) addr))"
  by (auto simp: normalizeAddress_def split: if_splits option.splits)

text \<open>The endpoint, as long as the engine does not fail.\<close>

lemma Balance_spent:
  assumes "no_faults (db s)" "normalizeAddress l (cfg s) (Query req ''address'') = (payer_id, True)"
    "SumByAddress (db s) payer_id = (Inr (spent, n), db s)"
  shows "\<exists>recent. Balance l s req = (respond 200 (BalanceInfo
     \<lparr>BalAddress = payer_id, TotalSpent = spent, TotalSpentUSD = USDCUnitsToUSD (Some spent),
      BalPaymentCount = n, BalRecent = recent\<rparr>), s)"
  using assms by (simp add: Balance_def RecentByAddress_def no_faults_def) (rule exI, rule refl)

lemma Balance_read:
  assumes "no_faults (db s)" "normalizeAddress l (cfg s) (Query req ''address'') = (payer_id, True)"
    "Balance l s req = (respond 200 (BalanceInfo b), s)"
  shows "SumByAddress (db s) payer_id = (Inr (TotalSpent b, BalPaymentCount b), db s)"
  using assms
  by (auto simp: Balance_def SumByAddress_def no_faults_def fail_def respond_def Let_def split: option.splits prod.splits)

text \<open>C18: A payment the server has taken shows in \<open>/v1/info/balance\<close>: after a delivery, any address
  that means the payer has spent the price of the delivered answer more than before, and made one
  payment more, if the request and the transaction are new to the ledger and the sum fits 64 bits.\<close>

theorem delivery_in_balance:
  assumes "deliver s t rid e st = (r, s')" "faults (db s) = []"
    and fresh: "rid \<notin> PayRequestID ` set (payments (db s))" "(Network (cfg s), StTxHash st) \<notin> tx_key ` set (payments (db s))"
    and payer: "normalizeAddress l (cfg s) (Query req ''address'') = (StPayer st, True)"
    and before: "Balance l s req = (respond 200 (BalanceInfo b), s)"
    and range: "0 \<le> TotalSpent b" "0 \<le> Cost e" "TotalSpent b + Cost e < 2 ^ 63"
  shows "\<exists>b'. Balance l s' req = (respond 200 (BalanceInfo b'), s') \<and> BalAddress b' = StPayer st \<and>
     TotalSpent b' = TotalSpent b + Cost e \<and> BalPaymentCount b' = BalPaymentCount b + 1"
proof -
  let ?row = "payment_row (cfg s) rid e st"
  have row: "FromAddress ?row = StPayer st" "Amount ?row = Cost e" "\<not> known_payment (db s) ?row"
    using fresh range by (simp_all add: payment_row_def known_payment_def tx_key_def int64_range_def)
  have s': "db s' = snd (Record (db s) (t div second) ?row)" "cfg s' = cfg s"
    using assms(1) deliver_simps [of s t rid e st] by simp_all
  have ok: "no_faults (db s)" using assms(2) by (simp add: no_faults_def)
  have "int64_range (TotalSpent b + Amount ?row)" using range row(2) by (simp add: int64_range_def)
  note counted = store_ledger.counted_for_payer [OF ok row(3) _ this, unfolded row(1,2), OF Balance_read [OF ok payer before],
      where now = "t div second", folded s'(1)]
  from Balance_spent [OF counted(2) _ counted(1)] payer s'(2) show ?thesis by fastforce
qed

definition balance_request :: Request where
  "balance_request =
     \<lparr>Method = ''GET'', Path = ''/v1/info/balance'', GetHeader = (\<lambda>_. ''''), Query = (\<lambda>_. sample_address), ReqBody = None\<rparr>"

definition delivered_entry :: Entry where
  "delivered_entry =
     \<lparr>Body = ''{}'', Status = 200, ContentType = ''application/json'', Cost = 7,
      EntryUsage = \<lparr>PromptTokens = 3, CompletionTokens = 4, CachedTokens = 0\<rparr>, EntryModel = ''m'', CreatedAt = 0\<rparr>"

definition payer_settlement :: Settlement where
  "payer_settlement = \<lparr>StTxHash = ''0xt'', StPayer = sample_address\<rparr>"

theorem delivery_in_balance_witness:
  "\<exists>b'. fst (Balance sample_libs (snd (deliver sample_server 5 ''r1'' delivered_entry payer_settlement)) balance_request) =
      respond 200 (BalanceInfo b') \<and> TotalSpent b' = 7 \<and> BalPaymentCount b' = 1"
proof -
  let ?s' = "snd (deliver sample_server 5 ''r1'' delivered_entry payer_settlement)"
  let ?b = "\<lparr>BalAddress = sample_address, TotalSpent = 0, TotalSpentUSD = USDCUnitsToUSD (Some 0), BalPaymentCount = 0,
      BalRecent = []\<rparr>"
  have f: "faults (db sample_server) = []" "payments (db sample_server) = []"
    by (simp_all add: sample_server_def empty_db_def)
  have n: "normalizeAddress sample_libs (cfg sample_server) (Query balance_request ''address'') = (StPayer payer_settlement, True)"
    by code_simp
  have "sql_sum [] = Some 0" by (simp add: sql_sum_def)
  then have "Balance sample_libs sample_server balance_request = (respond 200 (BalanceInfo ?b), sample_server)"
    using f n by (simp add: Balance_def SumByAddress_def RecentByAddress_def payer_settlement_def newest_first_def)
  from delivery_in_balance [OF prod.collapse [symmetric] f(1) _ _ n this, where rid = "''r1''" and t = 5 and e = delivered_entry]
  obtain b' where "Balance sample_libs ?s' balance_request = (respond 200 (BalanceInfo b'), ?s')"
      "TotalSpent b' = 7" "BalPaymentCount b' = 1"
    by (auto simp: f(2) delivered_entry_def)
  then show ?thesis by (intro exI [of _ b']) simp
qed

end
