(* ===== verification/Server.thy ===== *)
theory Server
  imports Admin Info
begin

section \<open>The server\<close>

text \<open>
  \<open>cmd/server/main.go\<close>: start-up from the environment and the stored state, the routes, and the two
  middlewares. \<open>boot\<close> is \<open>main\<close> up to the handlers: \<open>d\<close> is the database \<open>store.Open\<close> has opened, and an
  error is an exit. The router is gin's: \<open>mux\<close> is given the base path, the routes of \<open>main\<close> in their
  order, and the method and path of a request; it gives the index of a route and its path
  parameters, \<open>Unmatched\<close>, or \<open>Elsewhere\<close> for a redirect gin sends before any handler runs. The
  listener, signals and shutdown are left out.
\<close>

subsection \<open>Start-up\<close>

datatype boot_error =
    ConfigError cfg_error
  | BootstrapError db_error
  | LoadSettingsError db_error
  | InvalidMarkup string
  | SettlerError new_error
  | LoadPricesError db_error
  | CompilePricesError price_error

text \<open>The stored markup replaces the configured one.\<close>

definition load_markup :: "DB \<Rightarrow> Config \<Rightarrow> boot_error + Config \<times> DB" where
  "load_markup d c =
     (case GetSetting d ''markup'' of
        (Inl e, d) \<Rightarrow> Inl (LoadSettingsError e)
      | (Inr (v, False), d) \<Rightarrow> Inr (c, d)
      | (Inr (v, True), d) \<Rightarrow>
          (case ParseFloat v of
             None \<Rightarrow> Inl (InvalidMarkup v)
           | Some m \<Rightarrow> if f64_le_zero m then Inl (InvalidMarkup v) else Inr (c\<lparr>Markup := m\<rparr>, d)))"

definition load_prices :: "DB \<Rightarrow> boot_error + Manager \<times> DB" where
  "load_prices d =
     (case ListModelPrices d of
        (Inl e, d) \<Rightarrow> Inl (LoadPricesError e)
      | (Inr entries, d) \<Rightarrow>
          (case NewTableFromEntries DefaultPrice entries of
             Inl e \<Rightarrow> Inl (CompilePricesError e)
           | Inr table \<Rightarrow> Inr (NewManager (Some table), d)))"

definition boot ::
    "'w outside \<Rightarrow> (string \<Rightarrow> string option) \<Rightarrow> Env \<Rightarrow> DB \<Rightarrow> int \<Rightarrow> 'w \<Rightarrow> boot_error + 'w Server" where
  "boot out url_path env d now w =
     (case Load (geth_lib (libs_of out)) (solana_lib (libs_of out)) url_path env of
        Inl e \<Rightarrow> Inl (ConfigError e)
      | Inr c \<Rightarrow>
     (case BootstrapDefaultPrices d now DefaultEntries of
        (Inl e, d) \<Rightarrow> Inl (BootstrapError e)
      | (Inr _, d) \<Rightarrow>
     (case load_markup d c of
        Inl e \<Rightarrow> Inl e
      | Inr (c, d) \<Rightarrow>
     (case Settler_New (libs_of out) c of
        Inl e \<Rightarrow> Inl (SettlerError e)
      | Inr s \<Rightarrow>
     (case load_prices d of
        Inl e \<Rightarrow> Inl e
      | Inr (m, d) \<Rightarrow>
          Inr \<lparr>cfg = c, cache = New (wrap64 (CacheTTLSecs c * second)), settler = s, db = d, prices = m, world = w\<rparr>)))))"

subsection \<open>Middleware\<close>

text \<open>\<open>corsMiddleware\<close>: the headers it sets before the handler runs, unless it answers itself.\<close>

definition allow_all :: "string list \<Rightarrow> bool" where
  "allow_all allowed \<longleftrightarrow> allowed = [] \<or> ''*'' \<in> set allowed"

definition cors_headers :: "string list \<Rightarrow> Request \<Rightarrow> (string \<times> string) list" where
  "cors_headers allowed req =
     (let origin = GetHeader req ''Origin'' in
      (if allow_all allowed then [(''Access-Control-Allow-Origin'', ''*'')]
       else if origin \<noteq> [] \<and> origin \<in> set allowed
       then [(''Access-Control-Allow-Origin'', origin), (''Vary'', ''Origin'')]
       else []) @
      [(''Access-Control-Allow-Methods'', ''GET, POST, OPTIONS''),
       (''Access-Control-Allow-Headers'', ''Content-Type, Authorization, X-PAYMENT, X-PAYMENT-REQUEST-ID, anthropic-version''),
       (''Access-Control-Expose-Headers'', ''X-PAYMENT-RESPONSE, X-Cost, X-Tx, X-PAYMENT-REQUEST-ID'')])"

definition corsMiddleware ::
    "string list \<Rightarrow> (Request \<Rightarrow> Response \<times> 's) \<Rightarrow> 's \<Rightarrow> Request \<Rightarrow> Response \<times> 's" where
  "corsMiddleware allowed next s req =
     (if Method req = ''OPTIONS''
      then (\<lparr>RStatus = 204, RHeaders = cors_headers allowed req, RBody = Empty\<rparr>, s)
      else
        (case next req of (r, s) \<Rightarrow>
           (r\<lparr>RHeaders := fold (\<lambda>(k, v). AList.update k v) (RHeaders r) (cors_headers allowed req)\<rparr>, s)))"

subsection \<open>Routes\<close>

datatype endpoint =
    RelayHandle
  | Health
  | InfoAddress
  | InfoBalance
  | AdminPage
  | AdminOverview
  | AdminSaveSettings
  | AdminSavePrice
  | AdminDeletePrice
  | AdminResetPrices

definition routes :: "((string \<times> string) \<times> endpoint) list" where
  "routes =
     [((''POST'', ''/v1/chat/completions''), RelayHandle), ((''POST'', ''/v1/responses''), RelayHandle),
      ((''POST'', ''/v1/messages''), RelayHandle), ((''POST'', ''/v1/completions''), RelayHandle),
      ((''GET'', ''/health''), Health), ((''GET'', ''/v1/info/address''), InfoAddress),
      ((''GET'', ''/v1/info/balance''), InfoBalance), ((''GET'', ''/admin''), AdminPage),
      ((''GET'', ''/admin/api/overview''), AdminOverview), ((''PUT'', ''/admin/api/settings''), AdminSaveSettings),
      ((''POST'', ''/admin/api/prices''), AdminSavePrice),
      ((''DELETE'', ''/admin/api/prices/:model''), AdminDeletePrice),
      ((''POST'', ''/admin/api/prices/reset-defaults''), AdminResetPrices)]"

text \<open>The group \<open>/admin/api\<close> is behind \<open>AdminAuth\<close>.\<close>

fun admin_api :: "endpoint \<Rightarrow> bool" where
  "admin_api AdminOverview = True"
| "admin_api AdminSaveSettings = True"
| "admin_api AdminSavePrice = True"
| "admin_api AdminDeletePrice = True"
| "admin_api AdminResetPrices = True"
| "admin_api _ = False"

datatype routed = Matched nat "string \<Rightarrow> string" | Unmatched | Elsewhere

type_synonym mux = "string \<Rightarrow> (string \<times> string) list \<Rightarrow> string \<Rightarrow> string \<Rightarrow> routed"

fun endpoint_run ::
    "'w outside \<Rightarrow> string option \<Rightarrow> 'w Server \<Rightarrow> Times \<Rightarrow> endpoint \<Rightarrow> (string \<Rightarrow> string) \<Rightarrow> Request \<Rightarrow> Response \<times> 'w Server" where
  "endpoint_run out page s t RelayHandle param req = Handle out s t req"
| "endpoint_run out page s t Health param req = (respond 200 JSONOk, s)"
| "endpoint_run out page s t InfoAddress param req = (Address s, s)"
| "endpoint_run out page s t InfoBalance param req = Balance (libs_of out) s req"
| "endpoint_run out page s t AdminPage param req = (Page page, s)"
| "endpoint_run out page s t AdminOverview param req = Overview s"
| "endpoint_run out page s t AdminSaveSettings param req = SaveSettings s (t_first t div second) req"
| "endpoint_run out page s t AdminSavePrice param req = SavePrice s (t_first t div second) req"
| "endpoint_run out page s t AdminDeletePrice param req = DeletePrice s (param ''model'')"
| "endpoint_run out page s t AdminResetPrices param req = ResetPrices s (t_first t div second)"

text \<open>
  One request: \<open>token\<close> and \<open>allowed\<close> are the values the middlewares got at start-up. \<open>None\<close> is gin's
  redirect; its answer to an unknown path passes through the CORS middleware. \<open>Recovery\<close>, the
  outermost middleware, matters where a handler panics: \<open>settle_payment\<close> has its empty 500, and the
  CORS headers set before the panic stay.
\<close>

definition not_found :: Response where
  "not_found = respond 404 (Data ''text/plain'' ''404 page not found'')"

definition dispatch ::
    "'w outside \<Rightarrow> mux \<Rightarrow> string option \<Rightarrow> 'w Server \<Rightarrow> Times \<Rightarrow> Request \<Rightarrow> Response option \<times> 'w Server" where
  "dispatch out mx page s t req =
     (case mx (BaseURL (cfg s)) (map fst routes) (Method req) (Path req) of
        Elsewhere \<Rightarrow> (None, s)
      | Unmatched \<Rightarrow>
          (case corsMiddleware (AllowedOrigins (cfg s)) (\<lambda>req. (not_found, s)) s req of (r, s) \<Rightarrow> (Some r, s))
      | Matched i param \<Rightarrow>
          (let ep = snd (routes ! i);
               handler = (\<lambda>req.
                 case (if admin_api ep then AdminAuth (AdminToken (cfg s)) req else None) of
                   Some r \<Rightarrow> (r, s)
                 | None \<Rightarrow> endpoint_run out page s t ep param req)
           in case corsMiddleware (AllowedOrigins (cfg s)) handler s req of (r, s) \<Rightarrow> (Some r, s)))"

text \<open>A run of requests, one after the other.\<close>

fun serve ::
    "'w outside \<Rightarrow> mux \<Rightarrow> string option \<Rightarrow> 'w Server \<Rightarrow> (Times \<times> Request) list \<Rightarrow> 'w Server" where
  "serve out mx page s [] = s"
| "serve out mx page s ((t, req) # rest) = serve out mx page (snd (dispatch out mx page s t req)) rest"

subsection \<open>What a request can change\<close>

text \<open>The call of the admin API an endpoint stands for.\<close>

fun admin_call_of :: "endpoint \<Rightarrow> (string \<Rightarrow> string) \<Rightarrow> Request \<Rightarrow> admin_call option" where
  "admin_call_of AdminOverview param req = Some ReadOverview"
| "admin_call_of AdminSaveSettings param req = Some (PutSettings req)"
| "admin_call_of AdminSavePrice param req = Some (PostPrice req)"
| "admin_call_of AdminDeletePrice param req = Some (DeletePriceOf (param ''model''))"
| "admin_call_of AdminResetPrices param req = Some PostReset"
| "admin_call_of _ param req = None"

lemma admin_call_of_iff: "admin_call_of ep param req = None \<longleftrightarrow> \<not> admin_api ep"
  by (cases ep) simp_all

lemma endpoint_run_admin:
  "admin_call_of ep param req = Some call \<Longrightarrow>
   endpoint_run out page s t ep param req = admin_step s (t_first t div second) call"
  by (cases ep) auto

text \<open>What the other endpoints leave alone: everything but the cache, the payments and the world.\<close>

definition public_effect :: "'w Server \<Rightarrow> 'w Server \<Rightarrow> bool" where
  "public_effect s s' \<longleftrightarrow> cfg s' = cfg s \<and> prices s' = prices s \<and> settler s' = settler s \<and>
     (tables (db s') = tables (db s) \<or> (\<exists>now p. db s' = snd (db_call_step (db s) now (CRecord p)))) \<and>
     (faults (db s) = [] \<longrightarrow> faults (db s') = [])"

lemma public_effect_refl [simp]: "public_effect s s"
  by (simp add: public_effect_def)

lemma handlePayment_public: "handlePayment out s t_get t_settle t_record req = (r, s') \<Longrightarrow> public_effect s s'"
proof (drule handlePayment_cases, erule disjE)
  assume "paid_delivery out s t_get t_settle t_record req r s'"
  then obtain p where "cfg s' = cfg s" "prices s' = prices s" "settler s' = settler s"
      "db s' = snd (db_call_step (db s) (t_record div second) (CRecord p))"
    by (auto simp: paid_delivery_def)
  moreover from this(4) have "faults (db s) = [] \<longrightarrow> faults (db s') = []"
    using db_call_step_faults [of "db s" "t_record div second" "CRecord p"] by simp
  ultimately show ?thesis unfolding public_effect_def by blast
next
  assume "failed_payment s r s'"
  then obtain w where "s' = s\<lparr>world := w\<rparr>" by (auto simp: failed_payment_def)
  then show ?thesis by (simp add: public_effect_def)
qed

lemma Handle_public: "Handle out s t req = (r, s') \<Longrightarrow> public_effect s s'"
  using handlePayment_public [of out s "t_first t" "t_second t" "t_third t" req r s']
    handleInitial_frame [of out s "t_first t" "t_second t" req _ r s']
  by (auto simp: Handle_def public_effect_def split: option.splits if_splits)

lemma Balance_public: "Balance l s req = (r, s') \<Longrightarrow> public_effect s s'"
proof -
  obtain n ok where n: "normalizeAddress l (cfg s) (Query req ''address'') = (n, ok)" by fastforce
  obtain r1 d1 where 1: "SumByAddress (db s) n = (r1, d1)" by fastforce
  obtain r2 d2 where 2: "RecentByAddress d1 n 50 = (r2, d2)" by fastforce
  have "tables d1 = tables (db s)" "tables d2 = tables d1"
    using read_tables(4) [of "db s" n] read_tables(5) [of d1 n 50] 1 2 by simp_all
  moreover have "faults (db s) = [] \<longrightarrow> faults d1 = []" "faults d1 = [] \<longrightarrow> faults d2 = []"
    using 1 2 by (auto simp: SumByAddress_def RecentByAddress_def Let_def split: option.splits)
  moreover assume "Balance l s req = (r, s')"
  ultimately show ?thesis
    using n 1 2 by (cases ok; cases r1) (auto simp: Balance_def public_effect_def)
qed

lemma endpoint_run_public:
  "endpoint_run out page s t ep param req = (r, s') \<Longrightarrow> \<not> admin_api ep \<Longrightarrow> public_effect s s'"
  by (cases ep) (auto intro: Handle_public Balance_public)

text \<open>Only \<open>Overview\<close> sends the overview.\<close>

definition discreet :: "Response \<Rightarrow> bool" where
  "discreet r \<longleftrightarrow> (\<forall>ov. RBody r \<noteq> OverviewInfo ov)"

lemma discreet_fail [simp]: "discreet (fail n f)"
  by (simp add: discreet_def)

lemma Handle_discreet: "Handle out s t req = (r, s') \<Longrightarrow> discreet r"
proof -
  assume "Handle out s t req = (r, s')"
  then consider (none) f where "r = fail 400 f"
    | (pay) "handlePayment out s (t_first t) (t_second t) (t_third t) req = (r, s')"
    | (initial) b where "handleInitial out s (t_first t) (t_second t) req b = (r, s')"
    by (auto simp: Handle_def split: option.splits if_splits)
  then show ?thesis
  proof cases
    case pay
    then show ?thesis using handlePayment_cases [OF pay]
      by (auto simp: discreet_def paid_delivery_def failed_payment_def)
  next
    case initial
    then show ?thesis
      by (auto simp: handleInitial_def discreet_def Let_def split: if_splits prod.splits option.splits)
  qed simp
qed

lemma endpoint_run_discreet:
  assumes "endpoint_run out page s t ep param req = (r, s')" "\<not> admin_api ep"
  shows "discreet r"
  using assms Handle_discreet [of out s t req r s']
  by (cases ep)
    (auto simp: discreet_def Address_def Page_def Balance_def split: option.splits prod.splits sum.splits if_splits bool.splits)

lemma corsMiddleware_cases:
  assumes "corsMiddleware allowed next s req = (r, s')"
  obtains (preflight) "Method req = ''OPTIONS''" "s' = s" "RStatus r = 204" "RBody r = Empty"
      "RHeaders r = cors_headers allowed req"
    | (passed) r0 where "Method req \<noteq> ''OPTIONS''" "next req = (r0, s')" "RStatus r = RStatus r0" "RBody r = RBody r0"
      "RHeaders r = fold (\<lambda>(k, v). AList.update k v) (RHeaders r0) (cors_headers allowed req)"
proof (cases "Method req = ''OPTIONS''")
  case True
  then show thesis using assms preflight by (auto simp: corsMiddleware_def)
next
  case False
  obtain r0 s0 where "next req = (r0, s0)" by fastforce
  then show thesis using False assms passed by (auto simp: corsMiddleware_def)
qed

text \<open>A handler behind the middleware of its group, as \<open>dispatch\<close> runs it.\<close>

lemma guarded_handler_cases:
  assumes "(case (if admin_api ep then AdminAuth tok req else None) of
      Some r \<Rightarrow> (r, s) | None \<Rightarrow> endpoint_run out page s t ep param req) = (r, s')"
  obtains (public) "public_effect s s'" "discreet r"
    | (admin) call where "AdminAuth tok req = None" "admin_step s (t_first t div second) call = (r, s')"
proof (cases "admin_api ep")
  case False
  then have run: "endpoint_run out page s t ep param req = (r, s')" using assms by simp
  show thesis using public endpoint_run_public [OF run False] endpoint_run_discreet [OF run False] by blast
next
  case True
  then obtain call where call: "admin_call_of ep param req = Some call" using admin_call_of_iff by blast
  show thesis
  proof (cases "AdminAuth tok req")
    case None
    then show thesis using assms True admin endpoint_run_admin [OF call, of out page s t] by simp
  next
    case (Some r2)
    then have "r2 = fail 401 (Message ''admin token required'')"
      by (auto simp: AdminAuth_def Let_def split: if_splits)
    then have "discreet r" "s' = s" using assms True Some by auto
    then show thesis using public by simp
  qed
qed

lemma dispatch_cases:
  assumes "dispatch out mx page s t req = (r, s')"
  obtains (public) "public_effect s s'" "\<forall>resp. r = Some resp \<longrightarrow> discreet resp"
    | (admin) call resp where "AdminAuth (AdminToken (cfg s)) req = None"
        "admin_step s (t_first t div second) call = (resp, s')"
proof (cases "mx (BaseURL (cfg s)) (map fst routes) (Method req) (Path req)")
  case (Matched i param)
  define handler where "handler = (\<lambda>req. case (if admin_api (snd (routes ! i)) then AdminAuth (AdminToken (cfg s)) req else None) of
      Some r \<Rightarrow> (r, s) | None \<Rightarrow> endpoint_run out page s t (snd (routes ! i)) param req)"
  obtain r1 where r1: "corsMiddleware (AllowedOrigins (cfg s)) handler s req = (r1, s')" "r = Some r1"
    using assms Matched unfolding dispatch_def handler_def Let_def by (auto split: prod.splits)
  from r1(1) show thesis
  proof (cases rule: corsMiddleware_cases)
    case preflight
    then show thesis using public r1(2) by (simp add: discreet_def)
  next
    case (passed r0)
    from passed(2) [unfolded handler_def] show thesis
    proof (cases rule: guarded_handler_cases)
      case public
      then show thesis using that(1) passed(4) r1(2) by (simp add: discreet_def)
    next
      case (admin call)
      then show thesis by (rule that(2))
    qed
  qed
next
  case Unmatched
  then obtain r1 where "corsMiddleware (AllowedOrigins (cfg s)) (\<lambda>req. (not_found, s)) s req = (r1, s')" "r = Some r1"
    using assms unfolding dispatch_def by (auto split: prod.splits)
  then show thesis using public by (cases rule: corsMiddleware_cases) (auto simp: discreet_def not_found_def)
next
  case Elsewhere
  then show thesis using assms public by (simp add: dispatch_def)
qed

subsection \<open>The admin token\<close>

lemma AdminAuth_None:
  assumes "AdminAuth tok req = None" "tok \<noteq> []"
  shows "GetHeader req ''X-Admin-Token'' = tok \<or>
    GetHeader req ''X-Admin-Token'' = [] \<and> GetHeader req ''Authorization'' \<in> {tok, ''Bearer '' @ tok}"
  using assms
  by (auto simp: AdminAuth_def TrimPrefix_def HasPrefix_def Let_def prefix_def split: if_splits)

lemma public_effect_store:
  assumes "public_effect s s'"
  shows "catalog (db s') = catalog (db s)" "setting (db s') = setting (db s)"
proof -
  have "catalog (snd (db_call_step d now (CRecord p))) = catalog d"
    "setting (snd (db_call_step d now (CRecord p))) = setting d" for d now p
    by (rule catalog_view.view_unchanged setting_view.view_unchanged, simp)+
  then show "catalog (db s') = catalog (db s)" "setting (db s') = setting (db s)"
    using assms catalog_tables setting_tables unfolding public_effect_def by metis+
qed

text \<open>C12: With an admin token configured, a request that does not present it, in \<open>X-Admin-Token\<close> or as
  the bearer token, changes neither the prices nor the markup nor any setting, whatever its method
  and path and however the router matches them, and is never answered with the overview.\<close>

theorem admin_needs_token:
  assumes "dispatch out mx page s t req = (r, s')" "AdminToken (cfg s) = tok" "tok \<noteq> []"
    and "GetHeader req ''X-Admin-Token'' \<noteq> tok"
    and "GetHeader req ''X-Admin-Token'' \<noteq> [] \<or> GetHeader req ''Authorization'' \<notin> {tok, ''Bearer '' @ tok}"
  shows "cfg s' = cfg s \<and> prices s' = prices s \<and> catalog (db s') = catalog (db s) \<and>
     setting (db s') = setting (db s) \<and> (\<forall>resp ov. r = Some resp \<longrightarrow> RBody resp \<noteq> OverviewInfo ov)"
  using assms(1)
proof (cases rule: dispatch_cases)
  case public
  then show ?thesis using public_effect_store [OF public(1)] by (simp add: public_effect_def discreet_def)
next
  case (admin call resp)
  then have "AdminAuth tok req = None" by (simp only: assms(2))
  from AdminAuth_None [OF this assms(3)] have False using assms(4,5) by blast
  then show ?thesis ..
qed

subsection \<open>Restarts\<close>

text \<open>
  The state of a server whose database has not failed: what is in force is what is stored. \<open>c\<close> is the
  configuration of the environment.
\<close>

definition markup_kept :: "(string \<Rightarrow> string option) \<Rightarrow> Config \<Rightarrow> f64 \<Rightarrow> bool" where
  "markup_kept st c m \<longleftrightarrow> (case st ''markup'' of None \<Rightarrow> m = Markup c | Some v \<Rightarrow> v = FormatFloat m)"

definition durable :: "Config \<Rightarrow> 'w Server \<Rightarrow> bool" where
  "durable c s \<longleftrightarrow>
     store_ok (db s) \<and> faults (db s) = [] \<and> markup_ok (Markup (cfg s)) \<and> cfg s = c\<lparr>Markup := Markup (cfg s)\<rparr> \<and>
     markup_kept (setting (db s)) c (Markup (cfg s)) \<and>
     in_force (prices s) (catalog (db s))"

lemma durable_public:
  assumes "public_effect s s'" "durable c s"
  shows "durable c s'"
proof -
  have "store_ok (db s')"
    using assms store_ok_tables store_ok_step [of "CRecord _" "db s"] unfolding public_effect_def durable_def
    by (auto simp: call_ok_def)
  then show ?thesis
    using assms(2) public_effect_store [OF assms(1)] assms(1) by (simp add: durable_def public_effect_def)
qed

lemma durable_admin:
  assumes "admin_step s now call = (resp, s')" "durable c s"
  shows "durable c s'"
proof -
  have ok: "store_ok (db s)" "faults (db s) = []" "markup_ok (Markup (cfg s))" using assms(2) by (simp_all add: durable_def)
  note ok' = admin_step_ok [OF assms(1) ok(1,3)] admin_step_faults [OF assms(1) ok(2)]
  from assms(1) show ?thesis
  proof (cases rule: admin_step_cases)
    case (read d)
    then show ?thesis
      using ok' assms(2) catalog_tables [OF read(3)] setting_tables [OF read(3)] by (simp add: durable_def)
  next
    case (priced w)
    from priced(3,2) ok(1) show ?thesis
    proof (cases rule: write_and_reload_cases)
      case (written d p)
      then show ?thesis using ok' assms(2) price_write_effects(2) [OF priced(1)] by (simp add: durable_def)
    next
      case (unwritten d e)
      then show ?thesis
        using ok' assms(2) catalog_tables [OF unwritten(3)] setting_tables [OF unwritten(3)] by (simp add: durable_def)
    next
      case (stale d e)
      then show ?thesis using ok(2) by simp
    qed
  next
    case (markup req m r d)
    have "r = Inr ()" using markup(4) ok(2) by (simp add: SetSetting_def)
    then have "setting d = (setting (db s))(''markup'' \<mapsto> FormatFloat m)" "catalog d = catalog (db s)"
      using store_ok_markup(2,3) [OF ok(1) markup(3,4)] by simp_all
    moreover have "cfg s\<lparr>Markup := m\<rparr> = c\<lparr>Markup := m\<rparr>"
      using assms(2) by (metis Config.surjective Config.update_convs(24) durable_def)
    ultimately show ?thesis using ok' assms(2) markup(3,5) by (simp add: durable_def markup_kept_def)
  qed (use assms(2) in simp)
qed

lemma durable_dispatch: "dispatch out mx page s t req = (r, s') \<Longrightarrow> durable c s \<Longrightarrow> durable c s'"
  by (erule dispatch_cases) (auto intro: durable_public durable_admin)

lemma durable_serve: "durable c s \<Longrightarrow> durable c (serve out mx page s reqs)"
proof (induction out mx page s reqs rule: serve.induct)
  case (2 out mx page s t req rest)
  have "durable c (snd (dispatch out mx page s t req))"
    using durable_dispatch [of out mx page s t req "fst (dispatch out mx page s t req)"] "2.prems" by simp
  then show ?case using "2.IH" by simp
qed simp

lemma Settler_New_markup: "is_ok (Settler_New l (c\<lparr>Markup := m\<rparr>)) = is_ok (Settler_New l c)"
  unfolding Settler_New_def NewEVM_def NewSolana_def Let_def
  by (simp split: option.split)

lemma load_markup_kept:
  assumes "faults d = []" "markup_kept (setting d) c m" "markup_ok m"
  shows "load_markup d c = Inr (c\<lparr>Markup := m\<rparr>, d)"
proof (cases "setting d ''markup''")
  case None
  then have "m = Markup c" using assms(2) by (simp add: markup_kept_def)
  then show ?thesis using None assms(1) by (simp add: load_markup_def GetSetting_setting)
next
  case (Some v)
  then have v: "v = FormatFloat m" using assms(2) by (simp add: markup_kept_def)
  obtain r where r: "m = Fin r" "double r" "0 < Num r" using assms(3) by (auto simp: markup_ok_def)
  have "ParseFloat v = Some m" using ParseFloat_FormatFloat [OF r(2)] by (simp only: v r(1))
  moreover have "\<not> f64_le_zero m" using r by simp
  ultimately show ?thesis using Some assms(1) by (simp add: load_markup_def GetSetting_setting)
qed

lemma load_prices_in_force:
  assumes "faults d = []" "store_ok d"
  obtains p where "load_prices d = Inr (p, d)" "in_force p (catalog d)"
proof -
  obtain es where es: "ListModelPrices d = (Inr es, d)" using ListModelPrices_ok [OF assms(1)] by blast
  have wf: "db_wf d" "catalog_ok (catalog d)" using assms(2) by (simp_all add: store_ok_def)
  note spec = ListModelPrices_Inr [OF es wf(1)]
  obtain t where "NewTableFromEntries DefaultPrice es = Inr t" "in_force \<lparr>mtable = Some t\<rparr> (catalog d)"
    using table_of_catalog [OF spec(2,3) wf(2) spec(4)] by blast
  then show thesis using es that by (simp add: load_prices_def NewManager_def table_or_default_def)
qed

text \<open>Start-up on a well-formed store of which \<open>m\<close> is the markup.\<close>

lemma boot_total:
  assumes load: "Load (geth_lib (libs_of out)) (solana_lib (libs_of out)) url_path env = Inr c"
    and settler: "is_ok (Settler_New (libs_of out) c)"
    and d: "faults d = []" "store_ok d" and m: "markup_ok m" "markup_kept (setting d) c m"
  shows "\<exists>s. boot out url_path env d now w = Inr s \<and> durable c s \<and> cfg s = c\<lparr>Markup := m\<rparr> \<and>
    catalog (db s) = entries_map DefaultEntries ++ catalog d \<and> setting (db s) = setting d"
proof -
  have call: "call_ok (CBootstrap DefaultEntries)" using DefaultEntries_ok by (simp add: call_ok_def)
  obtain d1 where d1: "BootstrapDefaultPrices d now DefaultEntries = (Inr (), d1)"
    using bootstrap_rows_ok [OF d(1), of now DefaultEntries] d(1) by (auto simp: BootstrapDefaultPrices_def in_tx_def)
  then have step: "db_call_step d now (CBootstrap DefaultEntries) = (Inr (), d1)" by simp
  have ok: "faults d1 = []" "store_ok d1"
    using db_call_step_faults [OF d(1), of now "CBootstrap DefaultEntries"] store_ok_step [OF call d(2), of now] step by simp_all
  have same: "catalog d1 = entries_map DefaultEntries ++ catalog d" "setting d1 = setting d"
    using catalog_step_refines [OF step] setting_step_refines [OF step] by simp_all
  obtain s where s: "Settler_New (libs_of out) (c\<lparr>Markup := m\<rparr>) = Inr s"
    using settler Settler_New_markup by (metis is_ok_iff)
  obtain p where p: "load_prices d1 = Inr (p, d1)" "in_force p (catalog d1)"
    using load_prices_in_force [OF ok] by blast
  have lm: "load_markup d1 c = Inr (c\<lparr>Markup := m\<rparr>, d1)"
    using load_markup_kept [OF ok(1) _ m(1)] m(2) same(2) by simp
  show ?thesis
    using ok m p same by (simp add: boot_def load d1 lm s durable_def)
qed

lemma boot_Inr:
  assumes "boot out url_path env d now w = Inr s" "faults d = []" "store_ok d"
  obtains c where "Load (geth_lib (libs_of out)) (solana_lib (libs_of out)) url_path env = Inr c"
    "is_ok (Settler_New (libs_of out) c)" "durable c s"
proof -
  obtain c d1 c' d2 st where b: "Load (geth_lib (libs_of out)) (solana_lib (libs_of out)) url_path env = Inr c"
      "load_markup d1 c = Inr (c', d2)" "Settler_New (libs_of out) c' = Inr st"
    using assms(1) by (auto simp: boot_def split: sum.splits prod.splits)
  then have "c' = c \<or> (\<exists>m. c' = c\<lparr>Markup := m\<rparr>)"
    by (auto simp: load_markup_def split: sum.splits prod.splits option.splits bool.splits if_splits)
  then have ok: "is_ok (Settler_New (libs_of out) c)" using b(3) Settler_New_markup by (metis is_ok_iff)
  have c: "config_ok (geth_lib (libs_of out)) (solana_lib (libs_of out)) c" using b(1) by (rule Load_config_ok)
  have "\<exists>m. markup_ok m \<and> markup_kept (setting d) c m"
    using c assms(3) by (cases "setting d ''markup''")
      (auto simp: markup_kept_def config_ok_def markup_ok_def store_ok_def settings_ok_def)
  then obtain m where "markup_ok m" "markup_kept (setting d) c m" by blast
  from boot_total [OF b(1) ok assms(2,3) this, of now w] have "durable c s" using assms(1) by auto
  then show thesis using that b(1) ok by blast
qed

text \<open>C10: What a restart restores. Started from a sound store whose engine never fails, the server starts
  again, after any run of requests to any endpoints, from the same environment and what is stored
  then. It runs with the configuration in force before, a markup set through the API included to the
  last bit. Its catalog is the stored one with the built-in models it lacks added to it, so a
  built-in model deleted through the API is back, with its built-in entry; every model of the stored
  catalog costs what it did before.\<close>

theorem restart_restores:
  assumes "boot out url_path env d now w = Inr s0" "store_ok d" "faults d = []"
    and "serve out mx page s0 reqs = s"
  shows "\<exists>s1. boot out url_path env (db s) now' (world s) = Inr s1 \<and> cfg s1 = cfg s \<and>
     catalog (db s1) = entries_map DefaultEntries ++ catalog (db s) \<and> in_force (prices s1) (catalog (db s1)) \<and>
     (\<forall>model. normalizeModel model \<in> dom (catalog (db s)) \<longrightarrow>
        priceFor (mtable (prices s1)) model = priceFor (mtable (prices s)) model)"
proof -
  obtain c where c: "Load (geth_lib (libs_of out)) (solana_lib (libs_of out)) url_path env = Inr c"
    "is_ok (Settler_New (libs_of out) c)" "durable c s0"
    using boot_Inr [OF assms(1,3,2)] by blast
  have dur: "durable c s" using durable_serve [OF c(3)] assms(4) by blast
  then have s: "faults (db s) = []" "store_ok (db s)" "markup_ok (Markup (cfg s))"
    "markup_kept (setting (db s)) c (Markup (cfg s))" "cfg s = c\<lparr>Markup := Markup (cfg s)\<rparr>"
    "in_force (prices s) (catalog (db s))"
    unfolding durable_def by blast+
  obtain s1 where s1: "boot out url_path env (db s) now' (world s) = Inr s1" "durable c s1"
    "cfg s1 = c\<lparr>Markup := Markup (cfg s)\<rparr>" "catalog (db s1) = entries_map DefaultEntries ++ catalog (db s)"
    using boot_total [OF c(1,2) s(1-4), of now' "world s"] by blast
  have f: "in_force (prices s1) (catalog (db s1))" using s1(2) by (simp add: durable_def)
  have "priceFor (mtable (prices s1)) model = priceFor (mtable (prices s)) model"
    if "normalizeModel model \<in> dom (catalog (db s))" for model
  proof -
    from that obtain e where e: "catalog (db s) (normalizeModel model) = Some e" by blast
    then have "catalog (db s1) (normalizeModel model) = Some e" by (simp add: s1(4) map_add_def)
    then show ?thesis using in_force_price [OF f] in_force_price [OF s(6)] e by simp
  qed
  then show ?thesis using s1 s(5) f by (intro exI [of _ s1]) simp
qed

subsection \<open>Sample requests\<close>

text \<open>A router for the samples: literal paths, and one path segment for \<open>:model\<close>.\<close>

definition sample_mux :: mux where
  "sample_mux base rs m p =
     (let q = drop (length base) p; price = ''/admin/api/prices/''
      in case find (\<lambda>i. rs ! i = (m, q)) [0..<length rs] of
           Some i \<Rightarrow> Matched i (\<lambda>_. '''')
         | None \<Rightarrow>
             if \<not> HasPrefix q price \<or> CHR ''/'' \<in> set (drop (length price) q) then Unmatched
             else (case find (\<lambda>i. rs ! i = (m, price @ '':model'')) [0..<length rs] of
                     Some i \<Rightarrow> Matched i (\<lambda>_. drop (length price) q)
                   | None \<Rightarrow> Unmatched))"

definition plain_request :: "string \<Rightarrow> string \<Rightarrow> Request" where
  "plain_request m p =
     \<lparr>Method = m, Path = p, GetHeader = (\<lambda>_. ''''), Query = (\<lambda>_. ''''), ReqBody = Some ''''\<rparr>"

definition delete_request :: Request where
  "delete_request = plain_request ''DELETE'' ''/payapi/admin/api/prices/gpt-4o''"

definition guarded_server :: "nat Server" where
  "guarded_server = sample_server\<lparr>cfg := sample_live_config\<lparr>BaseURL := ''/payapi'', AdminToken := ''s3cret''\<rparr>\<rparr>"

definition sample_times :: Times where
  "sample_times = \<lparr>t_first = 5, t_second = 6, t_third = 7\<rparr>"

text \<open>Without the token the request is refused, and the prices stay.\<close>

theorem admin_needs_token_witness:
  "let (r, s') = dispatch sample_outside sample_mux None guarded_server sample_times delete_request
   in map_option RStatus r = Some 401 \<and> catalog (db s') = catalog (db guarded_server)"
proof -
  let ?d = "dispatch sample_outside sample_mux None guarded_server sample_times delete_request"
  have "map_option RStatus (fst ?d) = Some 401" by code_simp
  moreover have "AdminToken (cfg guarded_server) = ''s3cret''"
    "GetHeader delete_request ''X-Admin-Token'' = ''''" "GetHeader delete_request ''Authorization'' = ''''"
    by (simp_all add: guarded_server_def delete_request_def plain_request_def)
  then have "catalog (db (snd ?d)) = catalog (db guarded_server)"
    using admin_needs_token [of sample_outside sample_mux None guarded_server sample_times delete_request "fst ?d" "snd ?d" "''s3cret''"]
    by simp
  ultimately show ?thesis by (simp add: case_prod_unfold)
qed

lemma DeletePrice_deletes:
  assumes "durable c s" "normalizeModel m \<noteq> []"
  shows "catalog (db (snd (DeletePrice s m))) = (catalog (db s))(normalizeModel m := None)"
proof -
  let ?w = "CDeletePrice (normalizeModel m)"
  have ok: "call_ok ?w" "store_ok (db s)" "faults (db s) = []" using assms(1) by (simp_all add: call_ok_def durable_def)
  obtain resp s' where r: "write_and_reload s (db_call_step (db s) 0 ?w) = (resp, s')" by fastforce
  then have "DeletePrice s m = (resp, s')" using assms(2) by (simp add: DeletePrice_def normalizeModel_def)
  moreover have "catalog (db s') = catalog_step ?w (catalog (db s))"
    using r ok(1,2)
  proof (cases rule: write_and_reload_cases)
    case (unwritten d e)
    then show ?thesis using ok(3) by (simp add: DeleteModelPrice_def)
  qed (use ok(3) in simp_all)
  ultimately show ?thesis by simp
qed

definition sample_boot :: "DB \<Rightarrow> int \<Rightarrow> boot_error + nat Server" where
  "sample_boot d now = boot sample_outside (\<lambda>_. None) sample_env d now 0"

lemma sample_boot_ok:
  obtains s where "sample_boot empty_db 1 = Inr s" "durable sample_config s" "BaseURL (cfg s) = ''/payapi''"
    "AdminToken (cfg s) = ''''" "catalog (db s) = entries_map DefaultEntries"
proof -
  have load: "Load (geth_lib (libs_of sample_outside)) (solana_lib (libs_of sample_outside)) (\<lambda>_. None) sample_env = Inr sample_config"
    using sample_config_loads by (simp add: sample_outside_def sample_libs_def)
  have c: "is_ok (Settler_New (libs_of sample_outside) sample_config)" "BaseURL sample_config = ''/payapi''"
    "AdminToken sample_config = ''''" by code_simp+
  have "config_ok sample_geth sample_solana sample_config" using sample_config_loads by (rule Load_config_ok)
  then have m: "markup_ok (Markup sample_config)" by (simp add: config_ok_def markup_ok_def)
  have d: "faults empty_db = []" "store_ok empty_db" "catalog empty_db = Map.empty" "setting empty_db = Map.empty"
    using store_ok_empty [of "[]"]
    by (simp_all add: empty_db_def catalog_def setting_def lookup_by_def fun_eq_iff)
  have kept: "markup_kept (setting empty_db) sample_config (Markup sample_config)" by (simp add: markup_kept_def d)
  obtain s where "boot sample_outside (\<lambda>_. None) sample_env empty_db 1 0 = Inr s" "durable sample_config s"
      "cfg s = sample_config\<lparr>Markup := Markup sample_config\<rparr>" "catalog (db s) = entries_map DefaultEntries ++ catalog empty_db"
    using boot_total [OF load c(1) d(1,2) m kept, of 1 0] by blast
  then show thesis using that c(2,3) d(3) by (simp add: sample_boot_def)
qed

text \<open>A built-in price that was deleted is back after the restart.\<close>

theorem restart_restores_witness:
  "\<exists>s0 s s1. sample_boot empty_db 1 = Inr s0 \<and>
     serve sample_outside sample_mux None s0 [(sample_times, delete_request)] = s \<and> catalog (db s) ''gpt-4o'' = None \<and>
     boot sample_outside (\<lambda>_. None) sample_env (db s) 9 (world s) = Inr s1 \<and> cfg s1 = cfg s \<and>
     catalog (db s1) ''gpt-4o'' \<noteq> None"
proof -
  obtain s0 where s0: "sample_boot empty_db 1 = Inr s0" "durable sample_config s0" "BaseURL (cfg s0) = ''/payapi''"
    "AdminToken (cfg s0) = ''''" "catalog (db s0) = entries_map DefaultEntries" by (rule sample_boot_ok)
  define s where "s = serve sample_outside sample_mux None s0 [(sample_times, delete_request)]"
  have mx: "sample_mux ''/payapi'' (map fst routes) (Method delete_request) (Path delete_request) = Matched 11 (\<lambda>_. ''gpt-4o'')"
  proof -
    have "find (\<lambda>i. map fst routes ! i = (''DELETE'', ''/admin/api/prices/gpt-4o'')) [0..<length (map fst routes)] = None"
      "find (\<lambda>i. map fst routes ! i = (''DELETE'', ''/admin/api/prices/:model'')) [0..<length (map fst routes)] = Some 11"
      by code_simp+
    then show ?thesis by (simp add: sample_mux_def delete_request_def plain_request_def HasPrefix_def del: find_None_iff2)
  qed
  have ep: "snd (routes ! 11) = AdminDeletePrice" by code_simp
  have "snd (dispatch sample_outside sample_mux None s0 sample_times delete_request) = snd (DeletePrice s0 ''gpt-4o'')"
    unfolding dispatch_def s0(3) mx using s0(4)
    by (simp add: ep corsMiddleware_def AdminAuth_def delete_request_def plain_request_def split: prod.split)
  then have s: "s = snd (DeletePrice s0 ''gpt-4o'')" by (simp add: s_def)
  have n: "normalizeModel ''gpt-4o'' = ''gpt-4o''" by code_simp
  have gone: "catalog (db s) ''gpt-4o'' = None" using DeletePrice_deletes [OF s0(2), of "''gpt-4o''"] by (simp add: s n)
  have d: "faults empty_db = []" "store_ok empty_db" using store_ok_empty [of "[]"] by (simp_all add: empty_db_def)
  obtain s1 where s1: "boot sample_outside (\<lambda>_. None) sample_env (db s) 9 (world s) = Inr s1" "cfg s1 = cfg s"
      "catalog (db s1) = entries_map DefaultEntries ++ catalog (db s)"
    using restart_restores [OF s0(1) [unfolded sample_boot_def] d(2,1) s_def [symmetric], of 9] by blast
  have "map_option (\<lambda>e. ()) (entries_map DefaultEntries ''gpt-4o'') = Some ()" by code_simp
  then have "catalog (db s1) ''gpt-4o'' \<noteq> None" using gone by (auto simp: s1(3) map_add_def)
  then show ?thesis using s0(1) s_def gone s1 by blast
qed

end
