(* ===== verification/Display.thy ===== *)
theory Display
  imports Pricing GoFloat
begin

section \<open>The amount the client shows\<close>

text \<open>
  \<open>formatUSDC\<close> of \<open>cmd/testpay/main.go\<close>: token units through \<open>math/big\<close> floats of 64 bits, a
  \<open>float64\<close> and \<open>%.6f\<close>. Each of the first three steps rounds, yet up to \<open>2 ^ 51\<close> units (two
  thousand million dollars) the text is exact (\<open>formatUSDC_exact\<close>).
\<close>

subsection \<open>\<open>big.Float\<close> and \<open>%.6f\<close>\<close>

text \<open>\<open>n / d\<close> rounded to \<open>p\<close> significant bits, ties to even; the exponents of a \<open>big.Float\<close> do not end.\<close>

definition bits_exp :: "nat \<Rightarrow> nat \<Rightarrow> nat \<Rightarrow> int" where
  "bits_exp p n d =
     (let e = int (bitlen n) - int (bitlen d) - int p in if 2 ^ p \<le> units n d e then e + 1 else e)"

definition round_bits :: "nat \<Rightarrow> nat \<Rightarrow> nat \<Rightarrow> brat" where
  "round_bits p n d =
     (if n = 0 then BRat 0 1
      else let e = bits_exp p n d in case scale2 n d e of (a, b) \<Rightarrow> of_units (half_even a b) e)"

text \<open>\<open>fmt\<close>'s \<open>%.6f\<close> of a \<open>float64\<close> given as sign and absolute value, \<open>None\<close> for an infinity.\<close>

definition format_f6 :: "bool \<Rightarrow> brat option \<Rightarrow> string" where
  "format_f6 neg x =
     (case x of
        None \<Rightarrow> if neg then ''-Inf'' else ''+Inf''
      | Some r \<Rightarrow> (if neg then ''-'' else '''') @ fixed 6 (half_even (nat (Num r) * 10 ^ 6) (nat (Denom r))))"

text \<open>
  For units that are a decimal integer. On any other text the program ends in a panic, here or at
  \<open>paddedBig(nil)\<close> (\<open>client_payload\<close>), which is \<open>None\<close>. \<open>SetString\<close> and \<open>Quo\<close> round to 64 bits,
  \<open>Float64\<close> to the nearest double.
\<close>

definition formatUSDC :: "string \<Rightarrow> string option" where
  "formatUSDC s =
     (case int_SetString False s of
        None \<Rightarrow> None
      | Some v \<Rightarrow>
          let n = round_bits 64 (nat \<bar>v\<bar>) 1;
              result = round_bits 64 (nat (Num n)) (nat (Denom n) * 1000000);
              f = round_f64 (nat (Num result)) (nat (Denom result))
          in Some (format_f6 (HasPrefix s ''-'') f))"

subsection \<open>How far rounding moves a number\<close>

lemma half_even_near:
  assumes "0 < b"
  shows "\<bar>of_nat (half_even a b) - of_nat a / of_nat b\<bar> \<le> (1 / 2 :: rat)"
proof -
  define q r where "q = a div b" and "r = a mod b"
  have a: "a = q * b + r" "r < b" using assms by (simp_all add: q_def r_def)
  have "of_nat a / of_nat b = (of_nat q + of_nat r / of_nat b :: rat)"
    using assms by (simp add: a(1) field_simps)
  moreover have "half_even a b = q + 1 \<and> b \<le> 2 * r \<or> half_even a b = q \<and> 2 * r \<le> b"
    by (auto simp: half_even_def Let_def q_def r_def)
  moreover have "(1 / 2 :: rat) \<le> of_nat r / of_nat b" if "b \<le> 2 * r"
  proof -
    have "(of_nat b :: rat) \<le> of_nat (2 * r)" using that by (simp only: of_nat_le_iff)
    then show ?thesis using assms by (simp add: field_simps)
  qed
  moreover have "of_nat r / of_nat b \<le> (1 / 2 :: rat)" if "2 * r \<le> b"
  proof -
    have "(of_nat (2 * r) :: rat) \<le> of_nat b" using that by (simp only: of_nat_le_iff)
    then show ?thesis using assms by (simp add: field_simps)
  qed
  moreover have "(0 :: rat) \<le> of_nat r / of_nat b" "of_nat r / of_nat b < (1 :: rat)"
    using a(2) assms by (simp_all add: divide_less_eq)
  ultimately show ?thesis by auto
qed

lemma half_even_nearest:
  assumes "0 < b" "\<bar>of_nat a / of_nat b - of_nat k\<bar> < (1 / 2 :: rat)"
  shows "half_even a b = k"
proof -
  have "\<bar>of_nat (half_even a b) - of_nat k\<bar> < (1 :: rat)"
    using half_even_near [OF assms(1), of a] assms(2) by linarith
  then have "\<bar>rat_of_int (int (half_even a b) - int k)\<bar> < 1" by simp
  then have "\<bar>int (half_even a b) - int k\<bar> < 1" by linarith
  then show ?thesis by linarith
qed

text \<open>The kept part has \<open>p\<close> bits.\<close>

lemma units_ge_iff:
  assumes "0 < d"
  shows "2 ^ p \<le> units n d e \<longleftrightarrow> 2 ^ p \<le> (of_nat n / of_nat d :: rat) / 2 powi e"
proof -
  obtain a b where s: "scale2 n d e = (a, b)" by (cases "scale2 n d e")
  note v = scale2_value [OF s assms]
  have "2 ^ p \<le> a div b \<longleftrightarrow> 2 ^ p * b \<le> a" using v(1) by (simp add: less_eq_div_iff_mult_less_eq)
  also have "\<dots> \<longleftrightarrow> (2 :: rat) ^ p * of_nat b \<le> of_nat a"
    by (metis of_nat_le_iff of_nat_mult of_nat_numeral of_nat_power)
  also have "\<dots> \<longleftrightarrow> 2 ^ p \<le> (of_nat a / of_nat b :: rat)"
    using v(1) by (simp add: le_divide_eq)
  finally show ?thesis unfolding v(2) [symmetric] by (simp add: units_def s)
qed

lemma bits_exp_ge:
  assumes "0 < n" "0 < d" "0 < p"
  shows "2 powi (bits_exp p n d + int p - 1) \<le> (of_nat n / of_nat d :: rat)"
proof -
  define e where "e = int (bitlen n) - int (bitlen d) - int p"
  show ?thesis
  proof (cases "2 ^ p \<le> units n d e")
    case True
    then have "(2 :: rat) powi e * 2 ^ p \<le> of_nat n / of_nat d"
      using units_ge_iff [OF assms(2)] by (intro scaled_le) simp_all
    moreover have "(2 :: rat) powi e * 2 ^ p = 2 powi (e + int p)"
      by (simp add: power_int_add power_int_of_nat)
    ultimately show ?thesis using True by (simp add: bits_exp_def Let_def flip: e_def)
  next
    case False
    then have "bits_exp p n d + int p - 1 = int (bitlen n) - int (bitlen d) - 1"
      by (simp add: bits_exp_def Let_def flip: e_def) (simp add: e_def)
    then show ?thesis using fraction_bounds(1) [OF assms(1,2)] by (metis less_imp_le)
  qed
qed

lemma round_bits_near:
  assumes "0 < d" "0 < p"
  shows "\<bar>rval (round_bits p n d) - of_nat n / of_nat d\<bar> \<le> of_nat n / of_nat d / 2 ^ p"
    and "brat_wf (round_bits p n d)" "0 \<le> Num (round_bits p n d)"
proof -
  show wf: "brat_wf (round_bits p n d)"
    by (auto simp: round_bits_def brat_wf_def [of "BRat 0 1"] Let_def of_units_value split: prod.splits)
  have val: "rval (round_bits p n d) = of_nat (half_even (fst (scale2 n d e)) (snd (scale2 n d e))) * 2 powi e"
    if "0 < n" "e = bits_exp p n d" for e
    using that by (simp add: round_bits_def Let_def of_units_value split: prod.splits)
  have "0 \<le> rval (round_bits p n d)"
  proof (cases "n = 0")
    case False
    then show ?thesis using val by simp
  qed (simp add: round_bits_def rval_def)
  then show "0 \<le> Num (round_bits p n d)" using rval_nonneg_iff [OF wf] by simp
  show "\<bar>rval (round_bits p n d) - of_nat n / of_nat d\<bar> \<le> of_nat n / of_nat d / 2 ^ p"
  proof (cases "n = 0")
    case False
    define e where "e = bits_exp p n d"
    obtain a b where s: "scale2 n d e = (a, b)" by (cases "scale2 n d e")
    note v = scale2_value [OF s assms(1)]
    define x where "x = (of_nat n / of_nat d :: rat)"
    have pos: "(0 :: rat) < 2 powi e" by simp
    have x: "x = of_nat a / of_nat b * 2 powi e" using v(2) by (simp add: x_def)
    have "rval (round_bits p n d) - x = (of_nat (half_even a b) - of_nat a / of_nat b) * 2 powi e"
      using val [OF _ e_def] False s by (simp add: x algebra_simps)
    then have "\<bar>rval (round_bits p n d) - x\<bar> = \<bar>of_nat (half_even a b) - of_nat a / of_nat b\<bar> * 2 powi e"
      using pos by (simp add: abs_mult)
    also have "\<dots> \<le> 1 / 2 * 2 powi e"
      using half_even_near [OF v(1)] pos by (intro mult_right_mono) simp_all
    also have "\<dots> \<le> x / 2 ^ p"
    proof -
      have "(2 :: rat) powi (e + int p - 1) \<le> x"
        using bits_exp_ge [OF _ assms] False by (simp add: x_def e_def)
      moreover have "(2 :: rat) powi (e + int p - 1) = 2 powi e * 2 ^ p / 2"
        by (simp add: power_int_add power_int_diff power_int_of_nat)
      ultimately show ?thesis by (simp add: field_simps)
    qed
    finally show ?thesis by (simp add: x_def)
  qed (simp add: round_bits_def rval_def)
qed

text \<open>Away from the ends of the range a double is 53 bits.\<close>

lemma near_double: "\<bar>y - x\<bar> \<le> x / 2 ^ p \<Longrightarrow> 0 \<le> x \<Longrightarrow> y \<le> 2 * (x :: rat)"
proof -
  assume "\<bar>y - x\<bar> \<le> x / 2 ^ p" "0 \<le> x"
  moreover have "x / 2 ^ p \<le> x" using \<open>0 \<le> x\<close> by (simp add: divide_le_eq mult_le_cancel_left1)
  ultimately show ?thesis by linarith
qed

lemma round_f64_bits:
  assumes "0 < n" "0 < d" "2 powi (- 1000) \<le> (of_nat n / of_nat d :: rat)" "(of_nat n / of_nat d :: rat) \<le> 2 powi 1000"
  shows "round_f64 n d = Some (round_bits 53 n d)"
proof -
  have "(2 :: rat) powi (- 1000) < 2 powi (int (bitlen n) - int (bitlen d) + 1)"
    using fraction_bounds(2) [OF assms(1,2)] assms(3) by (rule order.strict_trans1 [rotated])
  then have "- 1000 < int (bitlen n) - int (bitlen d) + 1" by (rule powi_less_D)
  then have e: "round_exp n d = bits_exp 53 n d" by (simp add: round_exp_def bits_exp_def max_def)
  define r where "r = round_bits 53 n d"
  have r: "brat_wf r" "\<bar>rval r - of_nat n / of_nat d\<bar> \<le> of_nat n / of_nat d / 2 ^ 53"
    using round_bits_near [of d 53 n] assms(2) by (simp_all add: r_def)
  have "(0 :: rat) \<le> of_nat n / of_nat d" by simp
  then have "rval r \<le> 2 * (of_nat n / of_nat d)" using near_double r(2) by blast
  also have "\<dots> \<le> 2 * 2 powi 1000" using assms(4) by simp
  also have "\<dots> < (2 ^ 1024 :: rat)"
    unfolding power_int_of_nat [of "2 :: rat" 1000, simplified] by simp
  finally have "rat_of_int (Num r) < rat_of_int (2 ^ 1024 * Denom r)"
    using r(1) by (simp add: rval_def brat_wf_def divide_less_eq)
  then have "\<not> 2 ^ 1024 * Denom r \<le> Num r" by (simp only: of_int_less_iff not_le)
  then show ?thesis
    using assms(1) e by (simp add: round_f64_def round_bits_def Let_def r_def split: prod.splits)
qed

lemma rval_nat: "brat_wf r \<Longrightarrow> 0 \<le> Num r \<Longrightarrow> of_nat (nat (Num r)) / of_nat (nat (Denom r)) = rval r"
  by (simp add: rval_def brat_wf_def)

text \<open>The three roundings of \<open>n\<close> units, and what \<open>%.6f\<close> makes of the result.\<close>

lemma shown_units:
  assumes "n < 2 ^ 51"
  defines "x \<equiv> round_bits 64 n 1"
  defines "q \<equiv> round_bits 64 (nat (Num x)) (nat (Denom x) * 1000000)"
  shows "\<exists>r. round_f64 (nat (Num q)) (nat (Denom q)) = Some r \<and>
     half_even (nat (Num r) * 10 ^ 6) (nat (Denom r)) = n"
proof (cases "n = 0")
  case True
  then have "x = BRat 0 1" by (simp add: x_def round_bits_def)
  then have "q = BRat 0 1" by (simp add: q_def round_bits_def)
  then show ?thesis using True by (simp add: round_f64_def half_even_def)
next
  case False
  define N where "N = (of_nat n :: rat)"
  have N: "1 \<le> N" "N \<le> 2 ^ 51"
    using False assms(1) by (simp_all add: N_def)
  have x: "\<bar>rval x - N\<bar> \<le> N / 2 ^ 64" "brat_wf x" "0 \<le> Num x"
    using round_bits_near [of 1 64 n] by (simp_all add: x_def N_def)
  have dx: "0 < nat (Denom x)" using x(2) by (simp add: brat_wf_def)
  have frac: "of_nat (nat (Num x)) / of_nat (nat (Denom x) * 1000000) = rval x / 1000000"
    using rval_nat [OF x(2,3)] by simp
  have q: "\<bar>rval q - rval x / 1000000\<bar> \<le> rval x / 1000000 / 2 ^ 64" "brat_wf q" "0 \<le> Num q"
    using round_bits_near [of "nat (Denom x) * 1000000" 64 "nat (Num x)"] dx unfolding frac q_def by simp_all
  have pow: "(2 :: rat) ^ 64 = 18446744073709551616" "(2 :: rat) ^ 53 = 9007199254740992"
    "(2 :: rat) ^ 51 = 2251799813685248" by simp_all
  have size: "1 / 10000000 \<le> rval q" "rval q \<le> 2 ^ 51"
    using x(1) q(1) N unfolding pow by linarith+
  have dq: "0 < nat (Denom q)" using q(2) by (simp add: brat_wf_def)
  have nq: "0 < nat (Num q)" using rval_pos_iff [OF q(2)] size(1) by simp
  define r where "r = round_bits 53 (nat (Num q)) (nat (Denom q))"
  have "(2 :: rat) powi (- 1000) \<le> 2 powi (- 24)" "(2 :: rat) powi 51 \<le> 2 powi 1000"
    by (rule power_int_increasing; simp)+
  moreover have "(2 :: rat) powi (- 24) \<le> rval q" "rval q \<le> 2 powi 51"
    using size by (simp_all add: power_int_def power_one_over)
  ultimately have "2 powi (- 1000) \<le> rval q" "rval q \<le> 2 powi 1000" by (meson order_trans)+
  then have f: "round_f64 (nat (Num q)) (nat (Denom q)) = Some r"
    using round_f64_bits [OF nq dq] unfolding rval_nat [OF q(2,3)] r_def by blast
  have r: "\<bar>rval r - rval q\<bar> \<le> rval q / 2 ^ 53" "brat_wf r" "0 \<le> Num r"
    using round_bits_near [OF dq, of 53 "nat (Num q)"] unfolding rval_nat [OF q(2,3)] r_def by simp_all
  have "\<bar>rval r * 1000000 - N\<bar> < 1 / 2" using x(1) q(1) r(1) N unfolding pow by linarith
  moreover have "of_nat (nat (Num r) * 10 ^ 6) / of_nat (nat (Denom r)) = rval r * 1000000"
    using rval_nat [OF r(2,3), symmetric] by simp
  moreover have "0 < nat (Denom r)" using r(2) by (simp add: brat_wf_def)
  ultimately show ?thesis using f half_even_nearest by (simp add: N_def)
qed

lemma formatUSDC_itoa_exact:
  assumes "\<bar>n\<bar> < 2 ^ 51"
  shows "formatUSDC (itoa n) = Some (USDCUnitsToUSD (Some n))"
proof -
  have "HasPrefix (itoa n) ''-'' \<longleftrightarrow> n < 0"
    using utoa_digits [of "CHR ''-''" "nat n"]
    by (cases "utoa (nat n)") (auto simp: itoa_def HasPrefix_def is_digit_def code_def)
  moreover have "nat \<bar>n\<bar> < 2 ^ 51" using assms by (simp add: nat_less_iff)
  ultimately show ?thesis
    using shown_units [of "nat \<bar>n\<bar>"] by (auto simp: formatUSDC_def format_f6_def USDCUnitsToUSD_exact Let_def)
qed

text \<open>C29: What the client shows is what it pays: for every amount below \<open>2 ^ 51\<close> units in either
  direction, the dollars that \<open>formatUSDC\<close> computes in floating point are the exact amount, the very
  text the server puts into \<open>X-Cost\<close>; the three roundings never show.\<close>

theorem formatUSDC_exact:
  assumes "\<bar>n\<bar> < 2 ^ 51"
  shows "formatUSDC (itoa n) = Some (USDCUnitsToUSD (Some n))"
  using assms by (rule formatUSDC_itoa_exact)

theorem formatUSDC_exact_witness: "formatUSDC (itoa (- 1234567)) = Some ''-1.234567''"
proof -
  have "USDCUnitsToUSD (Some (- 1234567)) = ''-1.234567''" by code_simp
  then show ?thesis using formatUSDC_exact [of "- 1234567"] by simp
qed

end
