(* ===== verification/Paying.thy ===== *)
theory Paying
  imports Testpay Server Display
begin

section \<open>The program \<open>testpay\<close>\<close>

text \<open>
  \<open>main\<close> of \<open>cmd/testpay/main.go\<close> from start to end, over any HTTP transport, and the same program
  talking to the server: \<open>testpay_run_served\<close> follows both through the two requests, with the challenge
  crossing as JSON text. What is printed is the \<open>Report\<close>.
\<close>

subsection \<open>The program\<close>

definition test_key :: string where
  "test_key = ''4c0883a69102937d6231471b5dbb6204fe5129617082792ae468d01a3f362318''"

definition testModel :: string where
  "testModel = ''claude-sonnet-4-6''"

definition test_body :: string where
  "test_body = ''{\"model\":\"'' @ testModel @
     ''\",\"messages\":[{\"role\":\"user\",\"content\":\"Hello, one sentence please.\"}],\"stream\":false,\"max_tokens\":50}''"

text \<open>An HTTP answer: a missing header is the empty string, and the body is what can be read of it.\<close>

record Reply =
  RepStatus :: int
  RepHeader :: "string \<Rightarrow> string"
  RepBody :: string

datatype shown = LLMResponse string | BodyStart string | ErrorBody string

record Report =
  ShownRequestID :: string
  ShownUnits :: string
  ShownUSD :: string
  ShownPayTo :: string
  ShownStatus :: int
  ShownCost :: string
  ShownTx :: string
  ShownAnswer :: shown

text \<open>
  How the program ends: \<open>must\<close> with its message, the exit on an answer other than 402, a panic (of an
  index, of a nil number or in \<open>signEIP712\<close>, where a failed \<open>crypto.Sign\<close> is a \<open>must\<close> as well), or
  after the last line of \<open>main\<close>.
\<close>

datatype run_end = Exited string | Expected402 int string | Aborted | Finished Report

definition must :: "'a option \<Rightarrow> string \<Rightarrow> ('a \<Rightarrow> run_end \<times> 's) \<Rightarrow> 's \<Rightarrow> run_end \<times> 's" where
  "must x msg k s = (case x of None \<Rightarrow> (Exited msg, s) | Some v \<Rightarrow> k v)"

definition min_int :: "int \<Rightarrow> int \<Rightarrow> int" where
  "min_int a b = (if a < b then a else b)"

text \<open>The first answer: the request id and the first offer.\<close>

definition read_challenge :: "Reply \<Rightarrow> run_end + string \<times> Offer" where
  "read_challenge r =
     (if RepStatus r \<noteq> 402 then Inl (Expected402 (RepStatus r) (RepBody r))
      else
        let requestID = RepHeader r ''X-PAYMENT-REQUEST-ID''
        in case Decoder_Decode decode_Offers (RepBody r) zero_offers of
             (_, True) \<Rightarrow> Inl (Exited ''decode 402'')
           | (challenge, False) \<Rightarrow>
               (case fst (OffAccepts challenge) of [] \<Rightarrow> Inl Aborted | req # _ \<Rightarrow> Inr (requestID, req)))"

text \<open>The final answer; \<open>choices[].message.content\<close> is the one field read of each choice.\<close>

definition decode_Choice :: "json \<Rightarrow> string \<Rightarrow> string \<times> bool" where
  "decode_Choice = decode_struct (\<lambda>k raw v p.
     if is_field k ''message'' then
       decode_struct (\<lambda>k raw v p. if is_field k ''content'' then decode_string (\<lambda>f. f) v p else (p, False)) v p
     else (p, False))"

definition decode_Result :: "json \<Rightarrow> string slice \<Rightarrow> string slice \<times> bool" where
  "decode_Result = decode_struct (\<lambda>k raw v p.
     if is_field k ''choices'' then decode_slice decode_Choice '''' v p else (p, False))"

definition show_answer :: "int \<Rightarrow> string \<Rightarrow> shown" where
  "show_answer status body =
     (if status = 200 then
        (case Unmarshal decode_Result body ([], []) of
           (choices, err) \<Rightarrow>
             if \<not> err \<and> fst choices \<noteq> [] then LLMResponse (hd (fst choices))
             else BodyStart (take (nat (min_int (int (length body)) 400)) body))
      else ErrorBody body)"

text \<open>
  \<open>send\<close> is the HTTP client, \<open>None\<close> its error; \<open>now\<close> and \<open>nanos\<close> are read between the requests. Both
  requests go to \<open>/v1/chat/completions\<close> of \<open>serverURL\<close>.
\<close>

definition testpay_main ::
    "geth \<Rightarrow> (string \<Rightarrow> string \<Rightarrow> string option) \<Rightarrow> ('s \<Rightarrow> Request \<Rightarrow> Reply option \<times> 's) \<Rightarrow> int \<Rightarrow> int \<Rightarrow> 's \<Rightarrow>
     run_end \<times> 's" where
  "testpay_main g sign send now nanos s =
     must (HexToECDSA g test_key) ''parse private key'' (\<lambda>privKey.
       case send s (client_request test_body [] []) of
         (answer, s) \<Rightarrow> must answer ''phase1 request'' (\<lambda>resp1.
           case read_challenge resp1 of
             Inl e \<Rightarrow> (e, s)
           | Inr (requestID, req) \<Rightarrow>
               (case (formatUSDC (OffMaxAmountRequired req), client_header g sign privKey now nanos req) of
                  (Some usd, Some xPayment) \<Rightarrow>
                    (case send s (client_request test_body xPayment requestID) of
                       (answer, s) \<Rightarrow> must answer ''phase2 request'' (\<lambda>resp2.
                         (Finished
                            \<lparr>ShownRequestID = requestID, ShownUnits = OffMaxAmountRequired req, ShownUSD = usd,
                             ShownPayTo = OffPayTo req, ShownStatus = RepStatus resp2,
                             ShownCost = RepHeader resp2 ''X-Cost'', ShownTx = RepHeader resp2 ''X-Tx'',
                             ShownAnswer = show_answer (RepStatus resp2) (RepBody resp2)\<rparr>, s)) s)
                | _ \<Rightarrow> (Aborted, s))) s) s"

subsection \<open>The server as the other side\<close>

text \<open>
  An answer of the server on the wire: the challenge as its JSON, a relayed answer as its bytes.
  \<open>other\<close> gives the text of the bodies that \<open>testpay\<close> only prints.
\<close>

definition reply_of :: "(body \<Rightarrow> string) \<Rightarrow> Response \<Rightarrow> Reply" where
  "reply_of other r =
     \<lparr>RepStatus = RStatus r, RepHeader = (\<lambda>h. case map_of (RHeaders r) h of Some v \<Rightarrow> v | None \<Rightarrow> ''''),
      RepBody = (case RBody r of Challenge ch \<Rightarrow> Marshal_PaymentRequiredResponse ch | Data ct d \<Rightarrow> d | b \<Rightarrow> other b)\<rparr>"

text \<open>Requests reach the server at the given times, through router and middleware; a redirect is no answer.\<close>

fun to_server ::
    "'w outside \<Rightarrow> mux \<Rightarrow> string option \<Rightarrow> (body \<Rightarrow> string) \<Rightarrow> 'w Server \<times> Times list \<Rightarrow> Request \<Rightarrow>
     Reply option \<times> 'w Server \<times> Times list" where
  "to_server out mx page other (s, []) req = (None, s, [])"
| "to_server out mx page other (s, t # ts) req =
     (case dispatch out mx page s t req of (r, s) \<Rightarrow> (map_option (reply_of other) r, s, ts))"

subsection \<open>Headers on their way through the middleware\<close>

lemma map_of_set_header_eq:
  "map_of (set_header k v hs) k' = (if k' = k then if v = [] then None else Some v else map_of hs k')"
  by (cases "k' = k") (auto simp: map_of_set_header, auto simp: set_header_def update_conv' map_of_eq_None_iff)

lemma map_of_fold_set_header:
  "distinct (map fst kvs) \<Longrightarrow>
   map_of (fold (\<lambda>(k, v). set_header k v) kvs hs) k =
     (case map_of kvs k of Some v \<Rightarrow> if v = [] then None else Some v | None \<Rightarrow> map_of hs k)"
proof (induction kvs arbitrary: hs)
  case (Cons kv kvs)
  obtain k' v' where kv: "kv = (k', v')" by (cases kv)
  have "map_of kvs k' = None" using Cons.prems kv by (simp add: map_of_eq_None_iff)
  then show ?case using Cons kv by (auto simp: map_of_set_header_eq split: option.splits)
qed simp

lemma distinct_set_header: "distinct (map fst hs) \<Longrightarrow> distinct (map fst (set_header k v hs))"
  by (auto simp: set_header_def distinct_update distinct_map_filter)

lemma distinct_fold_set_header:
  "distinct (map fst hs) \<Longrightarrow> distinct (map fst (fold (\<lambda>(k, v). set_header k v) kvs hs))"
  by (induction kvs arbitrary: hs) (auto simp: distinct_set_header)

lemma map_of_fold_update_distinct:
  "distinct (map fst hs) \<Longrightarrow> map_of hs k = Some v \<Longrightarrow>
   map_of (fold (\<lambda>(k, v). AList.update k v) hs m) k = Some v"
proof (induction hs arbitrary: m)
  case (Cons h hs)
  obtain k' v' where h: "h = (k', v')" by (cases h)
  have keep: "k \<notin> fst ` set hs \<Longrightarrow> map_of (fold (\<lambda>(k, v). AList.update k v) hs m) k = map_of m k" for m
    by (induction hs arbitrary: m) (auto simp: update_conv')
  show ?case
  proof (cases "k = k'")
    case True
    then show ?thesis using Cons.prems h keep by (simp add: update_conv')
  qed (use Cons h in simp)
qed simp

lemma dispatch_relay:
  assumes "mx (BaseURL (cfg s)) (map fst routes) ''POST'' ''/v1/chat/completions'' = Matched 0 param"
    and "Handle out s t (client_request b h rid) = (r, s')" "distinct (map fst (RHeaders r))"
  obtains r' where "dispatch out mx page s t (client_request b h rid) = (Some r', s')" "RStatus r' = RStatus r"
    "RBody r' = RBody r" "\<And>k v. map_of (RHeaders r) k = Some v \<Longrightarrow> map_of (RHeaders r') k = Some v"
proof -
  let ?req = "client_request b h rid"
  let ?r = "r\<lparr>RHeaders := fold (\<lambda>(k, v). AList.update k v) (RHeaders r) (cors_headers (AllowedOrigins (cfg s)) ?req)\<rparr>"
  have req: "Method ?req = ''POST''" "Path ?req = ''/v1/chat/completions''" by (simp_all add: client_request_def)
  have "snd (routes ! 0) = RelayHandle" by (simp add: routes_def)
  then have "dispatch out mx page s t ?req = (Some ?r, s')"
    using assms(1,2) by (simp add: dispatch_def req corsMiddleware_def)
  then show thesis by (rule that) (use map_of_fold_update_distinct [OF assms(3)] in simp_all)
qed

lemma paid_headers_cost:
  "distinct (map fst (paid_headers s e st))"
  "map_of (paid_headers s e st) HeaderCost = Some (USDCUnitsToUSD (Some (Cost e)))"
proof -
  obtain a b c where p: "Manager_PricesFor (prices s) (EntryModel e) = (a, b, c)"
    by (cases "Manager_PricesFor (prices s) (EntryModel e)")
  have keys: "distinct [HeaderResponse, HeaderCost, HeaderTx, HeaderUsageInput, HeaderUsageCached, HeaderUsageOutput,
      HeaderPriceInput, HeaderPriceCached, HeaderPriceOutput]" by code_simp
  show "distinct (map fst (paid_headers s e st))"
    unfolding paid_headers_def Let_def p prod.case by (rule distinct_fold_set_header) simp
  have "USDCUnitsToUSD (Some (Cost e)) \<noteq> []" by (simp add: USDCUnitsToUSD_exact fixed_def)
  then show "map_of (paid_headers s e st) HeaderCost = Some (USDCUnitsToUSD (Some (Cost e)))"
    unfolding paid_headers_def Let_def p prod.case using keys
    by (subst map_of_fold_set_header) auto
qed

subsection \<open>Every challenge can be read\<close>

lemma BuildRequirements_ok:
  "MaxTimeoutSeconds (BuildRequirements l s res descr rid cost t) = t"
  "keys_ok (Extra (BuildRequirements l s res descr rid cost t))"
proof -
  have "utf8_valid ''requestId''" "utf8_valid ''name''" "utf8_valid ''version''" "utf8_valid ''decimals''"
    "utf8_valid ''tokenProgram''" "utf8_valid ''payToTokenAccount''" "utf8_valid ''settlement''" "utf8_valid ''memo''"
    "utf8_valid ''confirmation''" "utf8_valid ''addressLookupTables''" "utf8_valid ''clientSubmitSupported''"
    by code_simp+
  then show "keys_ok (Extra (BuildRequirements l s res descr rid cost t))"
    by (cases s) (simp_all add: BuildRequirements_def EVM_BuildRequirements_def Solana_BuildRequirements_def keys_ok_def
        del: utf8_valid.simps)
qed (cases s; simp add: BuildRequirements_def EVM_BuildRequirements_def Solana_BuildRequirements_def)

lemma challenge_always_ok:
  assumes "handleInitial out s t_id t_store req body = (r, s')" "RBody r = Challenge ch"
    "int64_range (SigTimeoutSecs (cfg s))"
  shows "challenge_ok ch" "ResX402Version ch = X402Version"
proof -
  show v: "ResX402Version ch = X402Version"
    using assms(1,2) by (auto simp: handleInitial_def Let_def split: if_splits prod.splits option.splits)
  obtain u m rid cost where "Accepts ch = [BuildRequirements (libs_of out) (settler s) (Path req) (usage_text m u) rid
      cost (SigTimeoutSecs (cfg s))]"
    using assms(1,2) by (auto elim!: handleInitial_Challenge)
  then show "challenge_ok ch"
    using assms(3) v by (simp add: challenge_ok_def X402Version_def int64_range_def BuildRequirements_ok)
qed

lemma challenge_headers:
  assumes "handleInitial out s t_id t_store req body = (r, s')" "RBody r = Challenge ch"
  shows "\<exists>rid c. RHeaders r = set_header HeaderCost c (set_header HeaderRequest rid []) \<and> rid \<noteq> [] \<and> RStatus r = 402 \<and>
     cfg s' = cfg s"
  by (rule handleInitial_Challenge [OF assms]) auto

text \<open>The two answers as the client gets them: the challenge, and a delivery.\<close>

lemma challenge_reply:
  assumes "mx (BaseURL (cfg s)) (map fst routes) ''POST'' ''/v1/chat/completions'' = Matched 0 param"
    and "Handle out s t (client_request b [] []) = (r, s1)" "RBody r = Challenge ch" "Accepts ch = [pr]"
    and "int64_range (SigTimeoutSecs (cfg s))"
  obtains r1 rid where "dispatch out mx page s t (client_request b [] []) = (Some r1, s1)"
    "read_challenge (reply_of other r1) = Inr (rid, offer_of pr)" "map_of (RHeaders r) HeaderRequest = Some rid"
    "cfg s1 = cfg s"
proof -
  have init: "handleInitial out s (t_first t) (t_second t) (client_request b [] []) b = (r, s1)"
    using assms(2,3) by (auto simp: Handle_def client_request_headers split: if_splits)
  obtain rid c where hdr: "RHeaders r = set_header HeaderCost c (set_header HeaderRequest rid [])" "rid \<noteq> []" "RStatus r = 402"
      "cfg s1 = cfg s"
    using challenge_headers [OF init assms(3)] by metis
  then have rid: "map_of (RHeaders r) HeaderRequest = Some rid" "distinct (map fst (RHeaders r))"
    by (simp_all add: map_of_set_header_eq header_keys distinct_set_header)
  obtain r1 where r1: "dispatch out mx page s t (client_request b [] []) = (Some r1, s1)" "RStatus r1 = RStatus r"
    "RBody r1 = RBody r" "map_of (RHeaders r1) HeaderRequest = Some rid"
    using dispatch_relay [of mx s param out t b "[]" "[]" r s1 page] assms(1,2) rid by metis
  then have "read_challenge (reply_of other r1) = Inr (rid, offer_of pr)"
    using challenge_always_ok(1) [OF init assms(3,5)] assms(3,4) hdr(3)
    by (simp add: read_challenge_def reply_of_def challenge_read_back_lemma HeaderRequest_def)
  then show thesis using that r1(1) rid(1) hdr(4) by blast
qed

lemma delivered_reply:
  assumes "mx (BaseURL (cfg s)) (map fst routes) ''POST'' ''/v1/chat/completions'' = Matched 0 param"
    and "Handle out s t (client_request b h rid) = deliver s0 t' rid e st"
  obtains r s' where "dispatch out mx page s t (client_request b h rid) = (Some r, s')"
    "RepStatus (reply_of other r) = Status e" "RepBody (reply_of other r) = Body e"
    "RepHeader (reply_of other r) ''X-Cost'' = USDCUnitsToUSD (Some (Cost e))"
proof -
  obtain r0 s' where d: "deliver s0 t' rid e st = (r0, s')" by fastforce
  then have r0: "RStatus r0 = Status e" "RBody r0 = Data (ContentType e) (Body e)"
      "RHeaders r0 = paid_headers (s0\<lparr>db := db s', cache := cache s'\<rparr>) e st"
    by (auto simp: deliver_def Let_def)
  obtain r where "dispatch out mx page s t (client_request b h rid) = (Some r, s')" "RStatus r = Status e"
    "RBody r = Data (ContentType e) (Body e)" "map_of (RHeaders r) HeaderCost = Some (USDCUnitsToUSD (Some (Cost e)))"
    using dispatch_relay [of mx s param out t b h rid r0 s' page] assms d r0 paid_headers_cost
    by (metis (no_types, lifting))
  then show thesis by (intro that [of r s']) (simp_all add: reply_of_def HeaderCost_def)
qed

subsection \<open>Client and server together\<close>

lemma formatUSDC_itoa: "\<exists>usd. formatUSDC (itoa n) = Some usd \<and> (\<bar>n\<bar> < 2 ^ 51 \<longrightarrow> usd = USDCUnitsToUSD (Some n))"
proof (cases "\<bar>n\<bar> < 2 ^ 51")
  case True
  then show ?thesis using formatUSDC_itoa_exact by blast
next
  case False
  then show ?thesis by (simp add: formatUSDC_def Let_def)
qed

text \<open>C5: The test client does its job against this server: \<open>testpay\<close>, started with its key, sends its
  request, gets a 402 whose JSON it can read, shows the amount, signs, pays, and finishes with the
  status and the answer of the upstream. The cost header it prints is the price it was asked for, and
  the amount it printed before paying is that same text for every price below \<open>2 ^ 51\<close> units.\<close>

theorem testpay_run_served:
  fixes out :: "'w outside" and s :: "'w Server"
  defines "g \<equiv> geth_lib (libs_of out)" and "rpc \<equiv> evm_client (libs_of out)"
    and "req \<equiv> client_request test_body [] []"
  assumes "implements_eip712 g" "hex_library g" "signs g sign key" "HexToECDSA g test_key = Some key"
    and route: "mx (BaseURL (cfg s)) (map fst routes) ''POST'' ''/v1/chat/completions'' = Matched 0 param"
    and first: "Handle out s t1 req = (r, s1)" "RBody r = Challenge ch" "Accepts ch = [pr]"
      "int_SetString False (MaxAmountRequired pr) = Some cost"
    and srv: "settler s = EVM es" "ecfg es = cfg s" "takes_payment rpc es (world s1)" "payable g (cfg s) cost now"
    and time: "t_first t2 \<le> t_second t1 + ttl (cache s)" "0 \<le> t_second t2 div second"
      "t_second t2 div second < now + SigTimeoutSecs (cfg s)"
  shows "\<exists>resp report s2.
     fst (HTTP_Do out (world s) (upstream_request (cfg s) req test_body)) = Some resp \<and>
     testpay_main g sign (to_server out mx page other) now nanos (s, [t1, t2]) = (Finished report, s2, []) \<and>
     ShownStatus report = UpStatus resp \<and> ShownAnswer report = show_answer (UpStatus resp) (UpRespBody resp) \<and>
     ShownUnits report = itoa cost \<and> ShownCost report = USDCUnitsToUSD (Some cost) \<and>
     (cost < 2 ^ 51 \<longrightarrow> ShownUSD report = ShownCost report)"
proof -
  have range: "int64_range (SigTimeoutSecs (cfg s))" using srv(4) by (simp add: payable_def int64_range_def)
  obtain r1 rid where r1: "dispatch out mx page s t1 req = (Some r1, s1)"
    "read_challenge (reply_of other r1) = Inr (rid, offer_of pr)" "map_of (RHeaders r) HeaderRequest = Some rid"
    "cfg s1 = cfg s"
    using challenge_reply [where mx = mx and param = param, OF route first(1) [unfolded req_def] first(2,3) range]
    unfolding req_def by metis
  obtain h resp w e st w' where run:
    "HTTP_Do out (world s) (upstream_request (cfg s) req test_body) = (Some resp, w)"
    "client_header g sign key now nanos (offer_of pr) = Some h" "OffMaxAmountRequired (offer_of pr) = itoa cost"
    "Body e = UpRespBody resp" "Status e = UpStatus resp" "Cost e = cost"
    "Handle out s1 t2 (client_request test_body h rid) = deliver (s1\<lparr>world := w'\<rparr>) (t_third t2) rid e st"
    using paid_challenge [of out, folded g_def rpc_def, OF assms(4-6) first(1) [unfolded req_def] first(2,3) r1(3)
        first(4) srv time, folded req_def, where nanos = nanos] by metis
  obtain r2 s2 where r2: "dispatch out mx page s1 t2 (client_request test_body h rid) = (Some r2, s2)"
    "RepStatus (reply_of other r2) = UpStatus resp" "RepBody (reply_of other r2) = UpRespBody resp"
    "RepHeader (reply_of other r2) ''X-Cost'' = USDCUnitsToUSD (Some cost)"
    using delivered_reply [OF _ run(7)] route r1(4) run(4-6) by metis
  obtain usd where usd: "formatUSDC (itoa cost) = Some usd" "\<bar>cost\<bar> < 2 ^ 51 \<longrightarrow> usd = USDCUnitsToUSD (Some cost)"
    using formatUSDC_itoa by blast
  have "testpay_main g sign (to_server out mx page other) now nanos (s, [t1, t2]) =
     (Finished \<lparr>ShownRequestID = rid, ShownUnits = itoa cost, ShownUSD = usd, ShownPayTo = OffPayTo (offer_of pr),
        ShownStatus = UpStatus resp, ShownCost = USDCUnitsToUSD (Some cost),
        ShownTx = RepHeader (reply_of other r2) ''X-Tx'', ShownAnswer = show_answer (UpStatus resp) (UpRespBody resp)\<rparr>, s2, [])"
    using assms(7) r1(1,2) r2 run(2,3) usd(1) by (simp add: testpay_main_def must_def req_def)
  moreover have "0 < cost" using srv(4) by (simp add: payable_def)
  ultimately show ?thesis using run(1) usd(2) by simp
qed

text \<open>The wallet of \<open>Testpay\<close> with the key of the program, against the sample server.\<close>

definition run_wallet :: "run_end \<times> nat Server \<times> Times list" where
  "run_wallet = testpay_main wallet_geth wallet_sign (to_server wallet_outside sample_mux None (\<lambda>_. '''')) 3 99
     (sample_server, [wallet_times 5, wallet_times 9])"

lemma run_wallet_first:
  "\<exists>r s1 ch pr. Handle wallet_outside sample_server (wallet_times 5) (client_request test_body [] []) = (r, s1) \<and>
     RBody r = Challenge ch \<and> Accepts ch = [pr] \<and> int_SetString False (MaxAmountRequired pr) = Some 7"
proof -
  let ?h = "Handle wallet_outside sample_server (wallet_times 5) (client_request test_body [] [])"
  have "case RBody (fst ?h) of
      Challenge ch \<Rightarrow> length (Accepts ch) = 1 \<and> int_SetString False (MaxAmountRequired (hd (Accepts ch))) = Some 7
    | _ \<Rightarrow> False" by code_simp
  then show ?thesis
    by (cases ?h) (auto split: body.splits simp: length_Suc_conv)
qed

theorem testpay_run_served_witness:
  "\<exists>report s2. run_wallet = (Finished report, s2, []) \<and> ShownStatus report = 200 \<and>
     ShownUnits report = ''7'' \<and> ShownUSD report = ''0.000007''"
proof -
  obtain r s1 ch pr where first:
    "Handle wallet_outside sample_server (wallet_times 5) (client_request test_body [] []) = (r, s1)"
    "RBody r = Challenge ch" "Accepts ch = [pr]" "int_SetString False (MaxAmountRequired pr) = Some 7"
    using run_wallet_first by blast
  have libs: "geth_lib (libs_of wallet_outside) = wallet_geth" "evm_client (libs_of wallet_outside) = sample_eth_rpc"
    by (simp_all add: wallet_outside_def sample_libs_def)
  have "case HexDecode test_key of Some k \<Rightarrow> length k = 32 | None \<Rightarrow> False" by code_simp
  then obtain key where "HexDecode test_key = Some key" "length key = 32" by (auto split: option.splits)
  then have key: "signs wallet_geth wallet_sign key" "HexToECDSA wallet_geth test_key = Some key"
    by (simp_all add: wallet_signs) (simp add: wallet_geth_def wallet_base_def)
  have mx: "sample_mux (BaseURL (cfg sample_server)) (map fst routes) ''POST'' ''/v1/chat/completions'' = Matched 0 (\<lambda>_. '''')"
  proof -
    have "BaseURL (cfg sample_server) = ''''" by (simp add: sample_server_def sample_live_config_def)
    moreover have "find (\<lambda>i. map fst routes ! i = (''POST'', ''/v1/chat/completions'')) [0..<length (map fst routes)] = Some 0"
      by code_simp
    ultimately show ?thesis by (simp add: sample_mux_def Let_def)
  qed
  let ?es = "\<lparr>ecfg = sample_live_config, contract = Some ''usdc'', opts = Some ''gas''\<rparr>"
  have srv: "settler sample_server = EVM ?es" "ecfg ?es = cfg sample_server" "takes_payment sample_eth_rpc ?es (world s1)"
    by (simp_all add: sample_server_def sample_settler_def takes_payment_def sample_eth_rpc_def)
  have time: "t_first (wallet_times 9) \<le> t_second (wallet_times 5) + ttl (cache sample_server)"
    "0 \<le> t_second (wallet_times 9) div second" "t_second (wallet_times 9) div second < 3 + SigTimeoutSecs (cfg sample_server)"
    by code_simp+
  have pay: "payable wallet_geth (cfg sample_server) 7 3" using wallet_payable by (simp add: sample_server_def)
  have up: "fst (HTTP_Do wallet_outside w q) = Some resp \<Longrightarrow> UpStatus resp = 200" for w q resp
    by (auto simp: wallet_outside_def sample_outside_def)
  have print: "itoa 7 = ''7''" "USDCUnitsToUSD (Some 7) = ''0.000007''" by code_simp+
  have "\<exists>resp report s2.
     fst (HTTP_Do wallet_outside (world sample_server) (upstream_request (cfg sample_server)
       (client_request test_body [] []) test_body)) = Some resp \<and> run_wallet = (Finished report, s2, []) \<and>
     ShownStatus report = UpStatus resp \<and> ShownAnswer report = show_answer (UpStatus resp) (UpRespBody resp) \<and>
     ShownUnits report = itoa 7 \<and> ShownCost report = USDCUnitsToUSD (Some 7) \<and>
     ((7 :: int) < 2 ^ 51 \<longrightarrow> ShownUSD report = ShownCost report)"
    unfolding run_wallet_def
    by (rule testpay_run_served [of wallet_outside wallet_sign key sample_mux sample_server, unfolded libs,
        OF wallet_eip712 wallet_hex key mx first srv pay time])
  then show ?thesis using up unfolding print by auto
qed

end
