(* ===== verification/Opening.thy ===== *)
theory Opening
  imports Database GoJson
begin

section \<open>Opening the store\<close>

text \<open>
  \<open>Open\<close>, \<open>ensureDBDir\<close>, \<open>dbDir\<close> and \<open>migrate\<close> of \<open>internal/store/db.go\<close>, over what is on disk. Of
  \<open>net/url\<close> and \<open>path/filepath\<close> the parts these use are written out (for Unix paths); whether
  \<open>net/url\<close> accepts the authority of a \<open>file://host\<close> URL is a parameter, as are the file system and the
  SQLite driver.
\<close>

subsection \<open>\<open>path/filepath\<close>\<close>

definition clean_step :: "bool \<Rightarrow> string \<Rightarrow> string list \<Rightarrow> string list" where
  "clean_step rooted el out =
     (if el = '''' \<or> el = ''.'' then out
      else if el = ''..'' then
        (case out of [] \<Rightarrow> if rooted then [] else [el] | o1 # os \<Rightarrow> if o1 = ''..'' then el # out else os)
      else el # out)"

fun join_slash :: "string list \<Rightarrow> string" where
  "join_slash [] = ''''"
| "join_slash [w] = w"
| "join_slash (w # ws) = w @ ''/'' @ join_slash ws"

definition Clean :: "string \<Rightarrow> string" where
  "Clean p =
     (let rooted = HasPrefix p ''/'';
          s = join_slash (rev (fold (clean_step rooted) (Split p (CHR ''/'')) []))
      in if rooted then ''/'' @ s else if s = '''' then ''.'' else s)"

definition Dir :: "string \<Rightarrow> string" where
  "Dir p = Clean (rev (dropWhile (\<lambda>c. c \<noteq> CHR ''/'') (rev p)))"

subsection \<open>\<open>net/url\<close>\<close>

definition Cut :: "string \<Rightarrow> char \<Rightarrow> string \<times> string" where
  "Cut s c = (takeWhile (\<lambda>x. x \<noteq> c) s, drop 1 (dropWhile (\<lambda>x. x \<noteq> c) s))"

definition Contains :: "string \<Rightarrow> string \<Rightarrow> bool" where
  "Contains s t \<longleftrightarrow> list_ex (\<lambda>r. HasPrefix r t) (suffixes s)"

fun url_unescape :: "string \<Rightarrow> string option" where
  "url_unescape [] = Some []"
| "url_unescape (c # s) =
     (if c = CHR ''%'' then
        (case s of
           a # b # r \<Rightarrow>
             (case (hex_value a, hex_value b) of
                (Some x, Some y) \<Rightarrow> map_option (\<lambda>t. char_of (16 * x + y) # t) (url_unescape r)
              | _ \<Rightarrow> None)
         | _ \<Rightarrow> None)
      else map_option (\<lambda>t. c # t) (url_unescape s))"

text \<open>The fields of \<open>url.URL\<close> that \<open>dbDir\<close> reads, for a URL that begins with \<open>file:\<close>.\<close>

record FileURL =
  UOpaque :: string
  UPath :: string
  URawQuery :: string

definition url_Parse :: "(string \<Rightarrow> bool) \<Rightarrow> string \<Rightarrow> FileURL option" where
  "url_Parse authority_ok raw =
     (let (u, fragment) = Cut raw (CHR ''#'') in
      if list_ex (\<lambda>c. code c < 32 \<or> code c = 127) u \<or> url_unescape fragment = None then None
      else
        let (rest, query) = Cut (TrimPrefix u ''file:'') (CHR ''?'') in
        if \<not> HasPrefix rest ''/'' then Some \<lparr>UOpaque = rest, UPath = '''', URawQuery = query\<rparr>
        else
          let (authority, p) = (if HasPrefix rest ''//'' then
                (takeWhile (\<lambda>x. x \<noteq> CHR ''/'') (drop 2 rest), dropWhile (\<lambda>x. x \<noteq> CHR ''/'') (drop 2 rest))
              else ('''', rest))
          in if \<not> authority_ok authority then None
             else map_option (\<lambda>p. \<lparr>UOpaque = '''', UPath = p, URawQuery = query\<rparr>) (url_unescape p))"

subsection \<open>The directory\<close>

definition dbDir :: "(string \<Rightarrow> bool) \<Rightarrow> string \<Rightarrow> string" where
  "dbDir authority_ok path =
     (if path = '''' \<or> path = '':memory:'' then ''''
      else if HasPrefix path ''file:'' then
        (case url_Parse authority_ok path of
           None \<Rightarrow> ''''
         | Some u \<Rightarrow>
             if Contains (URawQuery u) ''mode=memory'' \<or> UOpaque u = '':memory:'' \<or> UPath u = '':memory:'' then ''''
             else if UOpaque u \<noteq> '''' then Dir (UOpaque u)
             else Dir (UPath u))
      else Dir path)"

text \<open>\<open>mkdirAll\<close> is \<open>os.MkdirAll\<close>: whether it succeeds, and the file system after it.\<close>

definition ensureDBDir :: "(string \<Rightarrow> bool) \<Rightarrow> ('f \<Rightarrow> string \<Rightarrow> bool \<times> 'f) \<Rightarrow> 'f \<Rightarrow> string \<Rightarrow> bool \<times> 'f" where
  "ensureDBDir authority_ok mkdirAll fs path =
     (let dir = dbDir authority_ok path in
      if dir = '''' \<or> dir = ''.'' then (True, fs) else mkdirAll fs dir)"

subsection \<open>The schema\<close>

text \<open>
  A database file: its rows, and which tables, unique indexes and which column it already has. Rows of
  a \<open>model_prices\<close> table without the column have nothing in \<open>pcached_input\<close>.
\<close>

record DBFile =
  rows :: DB
  has_payments :: bool
  tx_index :: bool
  request_index :: bool
  has_settings :: bool
  has_prices :: bool
  has_cached_input :: bool

datatype ddl = CreatePayments | IndexFrom | UniqueTx | UniqueRequest | CreateSettings | CreatePrices | AddCachedInput

datatype ddl_error = DdlEngine | NotUnique string | DuplicateColumn

fun exec_ddl :: "ddl \<Rightarrow> DBFile \<Rightarrow> ddl_error + DBFile" where
  "exec_ddl CreatePayments f = Inr (f\<lparr>has_payments := True\<rparr>)"
| "exec_ddl IndexFrom f = Inr f"
| "exec_ddl UniqueTx f =
     (if tx_index f \<or> distinct (map tx_key (payments (rows f))) then Inr (f\<lparr>tx_index := True\<rparr>)
      else Inl (NotUnique ''network, tx_hash''))"
| "exec_ddl UniqueRequest f =
     (if request_index f \<or> distinct (map PayRequestID (payments (rows f))) then Inr (f\<lparr>request_index := True\<rparr>)
      else Inl (NotUnique ''request_id''))"
| "exec_ddl CreateSettings f = Inr (f\<lparr>has_settings := True\<rparr>)"
| "exec_ddl CreatePrices f =
     Inr (f\<lparr>has_prices := True, has_cached_input := (if has_prices f then has_cached_input f else True)\<rparr>)"
| "exec_ddl AddCachedInput f =
     (if has_cached_input f then Inl DuplicateColumn
      else Inr (f\<lparr>has_cached_input := True,
                  rows := (rows f)\<lparr>model_prices := map (\<lambda>r. r\<lparr>pcached_input := ''''\<rparr>) (model_prices (rows f))\<rparr>\<rparr>))"

fun run_ddl :: "ddl list \<Rightarrow> DBFile \<Rightarrow> (ddl_error + unit) \<times> DBFile" where
  "run_ddl [] f = (Inr (), f)"
| "run_ddl (x # xs) f =
     (case stmt (rows f) of (failed, d) \<Rightarrow>
        let f = f\<lparr>rows := d\<rparr> in
        if failed then (Inl DdlEngine, f)
        else case exec_ddl x f of
          Inl e \<Rightarrow> if x = AddCachedInput \<and> e = DuplicateColumn then run_ddl xs f else (Inl e, f)
        | Inr f \<Rightarrow> run_ddl xs f)"

definition migrate :: "DBFile \<Rightarrow> (ddl_error + unit) \<times> DBFile" where
  "migrate = run_ddl [CreatePayments, IndexFrom, UniqueTx, UniqueRequest, CreateSettings, CreatePrices, AddCachedInput]"

datatype open_error = CreateDirectory string | OpenSQLite | Migrate ddl_error

text \<open>\<open>sql_Open\<close> is the driver: the file behind a path, new or existing.\<close>

definition Open ::
    "(string \<Rightarrow> bool) \<Rightarrow> ('f \<Rightarrow> string \<Rightarrow> bool \<times> 'f) \<Rightarrow> ('f \<Rightarrow> string \<Rightarrow> DBFile option) \<Rightarrow> 'f \<Rightarrow> string \<Rightarrow>
     (open_error + DBFile) \<times> 'f" where
  "Open authority_ok mkdirAll sql_Open fs path =
     (case ensureDBDir authority_ok mkdirAll fs path of
        (False, fs) \<Rightarrow> (Inl (CreateDirectory (dbDir authority_ok path)), fs)
      | (True, fs) \<Rightarrow>
          (case sql_Open fs path of
             None \<Rightarrow> (Inl OpenSQLite, fs)
           | Some f \<Rightarrow>
               (case migrate f of
                  (Inl e, f) \<Rightarrow> (Inl (Migrate e), fs)
                | (Inr _, f) \<Rightarrow> (Inr f, fs))))"

subsection \<open>What opening gives\<close>

text \<open>
  A file as SQLite keeps it: indexed columns have no duplicates, primary keys are unique, row ids grow
  below the sequence, a table that is not there has no rows.
\<close>

definition file_ok :: "DBFile \<Rightarrow> bool" where
  "file_ok f \<longleftrightarrow>
     (tx_index f \<longrightarrow> distinct (map tx_key (payments (rows f)))) \<and>
     (request_index f \<longrightarrow> distinct (map PayRequestID (payments (rows f)))) \<and>
     sorted_wrt (<) (map PayID (payments (rows f))) \<and> (\<forall>p \<in> set (payments (rows f)). PayID p < next_id (rows f)) \<and>
     distinct (map skey (settings (rows f))) \<and> distinct (map pmodel (model_prices (rows f))) \<and>
     (\<not> has_payments f \<longrightarrow> payments (rows f) = []) \<and> (\<not> has_settings f \<longrightarrow> settings (rows f) = []) \<and>
     (\<not> has_prices f \<longrightarrow> model_prices (rows f) = []) \<and>
     (\<not> has_cached_input f \<longrightarrow> (\<forall>r \<in> set (model_prices (rows f)). pcached_input r = ''''))"

text \<open>What a statement asks for, and has made sure of.\<close>

fun provided :: "ddl \<Rightarrow> DBFile \<Rightarrow> bool" where
  "provided CreatePayments f = has_payments f"
| "provided IndexFrom f = True"
| "provided UniqueTx f = tx_index f"
| "provided UniqueRequest f = request_index f"
| "provided CreateSettings f = has_settings f"
| "provided CreatePrices f = has_prices f"
| "provided AddCachedInput f = has_cached_input f"

definition migrated :: "DBFile \<Rightarrow> bool" where
  "migrated f \<longleftrightarrow> (\<forall>x. provided x f)"

text \<open>What a statement leaves of the rows.\<close>

definition same_rows :: "DBFile \<Rightarrow> DBFile \<Rightarrow> bool" where
  "same_rows f f' \<longleftrightarrow> payments (rows f') = payments (rows f) \<and> next_id (rows f') = next_id (rows f) \<and>
     settings (rows f') = settings (rows f) \<and> model_prices (rows f') = model_prices (rows f)"

lemma stmt_rows:
  assumes "stmt (rows f) = (failed, d)"
  shows "payments d = payments (rows f)" "next_id d = next_id (rows f)" "settings d = settings (rows f)"
    "model_prices d = model_prices (rows f)"
  using stmt_tables [OF assms] by auto

lemma file_ok_stmt: "stmt (rows f) = (failed, d) \<Longrightarrow> file_ok (f\<lparr>rows := d\<rparr>) = file_ok f"
  by (simp add: file_ok_def stmt_rows)

lemma same_rows_stmt: "stmt (rows f) = (failed, d) \<Longrightarrow> same_rows (f\<lparr>rows := d\<rparr>) f' = same_rows f f'"
  by (simp add: same_rows_def stmt_rows)

lemma provided_rows [simp]: "provided x (f\<lparr>rows := d\<rparr>) = provided x f"
  by (cases x) simp_all

lemma exec_ddl_provided:
  assumes "exec_ddl x f = Inr f'"
  shows "provided x f'" "provided y f \<Longrightarrow> provided y f'"
proof -
  show "provided x f'" using assms by (cases x) (auto split: if_splits)
  show "provided y f \<Longrightarrow> provided y f'" using assms by (cases x; cases y) (auto split: if_splits)
qed

lemma exec_ddl_rows:
  assumes "exec_ddl x f = Inr f'" "file_ok f"
  shows "same_rows f f'" "file_ok f'"
proof -
  have filled: "map (pcached_input_update (\<lambda>_. '''')) (model_prices (rows f)) = model_prices (rows f)"
    if "\<not> has_cached_input f"
    using assms(2) that by (auto simp: file_ok_def intro!: map_idI)
  have pmodels: "map (pmodel \<circ> pcached_input_update g) rs = map pmodel rs" for g rs by simp
  show "same_rows f f'" using assms by (cases x) (clarsimp simp: same_rows_def filled split: if_splits)+
  show "file_ok f'"
    using assms by (cases x) (clarsimp simp: file_ok_def pmodels split: if_splits; blast?)+
qed

lemma same_rows_trans:
  assumes "same_rows f f'" "same_rows f' f''"
  shows "same_rows f f''"
  using assms by (auto simp: same_rows_def)

lemma run_ddl_rows:
  assumes "run_ddl xs f = (r, f')" "file_ok f"
  shows "file_ok f' \<and> same_rows f f' \<and> (\<forall>y. provided y f \<longrightarrow> provided y f') \<and>
     (r = Inr () \<longrightarrow> (\<forall>x \<in> set xs. provided x f'))"
  using assms
proof (induction xs f rule: run_ddl.induct)
  case (1 f)
  then show ?case by (simp add: same_rows_def)
next
  case (2 x xs f)
  obtain failed d where st: "stmt (rows f) = (failed, d)" by fastforce
  let ?g = "f\<lparr>rows := d\<rparr>"
  have g: "file_ok ?g" using "2.prems"(2) file_ok_stmt [OF st] by simp
  show ?case
  proof (cases failed)
    case True
    then show ?thesis using "2.prems"(1) st g by (auto simp: same_rows_def stmt_rows [OF st])
  next
    case False
    show ?thesis
    proof (cases "exec_ddl x ?g")
      case (Inl e)
      show ?thesis
      proof (cases "x = AddCachedInput \<and> e = DuplicateColumn")
        case True
        then have "provided x ?g" using Inl by (simp split: if_splits)
        moreover have "run_ddl xs ?g = (r, f')" using "2.prems"(1) st False Inl True by simp
        ultimately show ?thesis
          using "2.IH"(1) [OF st [symmetric] refl False Inl True _ g] same_rows_stmt [OF st] by auto
      next
        case no: False
        then have "f' = ?g" "r = Inl e" using "2.prems"(1) st False Inl by auto
        then show ?thesis using g by (auto simp: same_rows_def stmt_rows [OF st])
      qed
    next
      case (Inr f1)
      note ex = exec_ddl_rows [OF Inr g] exec_ddl_provided [OF Inr]
      have "run_ddl xs f1 = (r, f')" using "2.prems"(1) st False Inr by simp
      then have ih: "file_ok f' \<and> same_rows f1 f' \<and> (\<forall>y. provided y f1 \<longrightarrow> provided y f') \<and>
          (r = Inr () \<longrightarrow> (\<forall>x \<in> set xs. provided x f'))"
        using "2.IH"(2) [OF st [symmetric] refl False Inr] ex by blast
      have "same_rows ?g f'" using same_rows_trans [of ?g f1 f'] ex ih by blast
      then show ?thesis using ex ih same_rows_stmt [OF st] by auto
    qed
  qed
qed

lemma migrated_iff: "migrated f \<longleftrightarrow> has_payments f \<and> tx_index f \<and> request_index f \<and> has_settings f \<and> has_prices f \<and> has_cached_input f"
  unfolding migrated_def by (metis (full_types) ddl.exhaust provided.simps)

lemma migrate_again: "migrated f \<Longrightarrow> faults (rows f) = [] \<Longrightarrow> migrate f = (Inr (), f)"
  by (simp add: migrate_def migrated_iff)

lemma migrate_gives:
  assumes "migrate f = (Inr (), f')" "file_ok f"
  shows "migrated f' \<and> file_ok f' \<and> same_rows f f'"
proof -
  note run = run_ddl_rows [OF assms [unfolded migrate_def]]
  then have "provided x f'" for x by (cases x) auto
  then show ?thesis using run by (simp add: migrated_def)
qed

lemma file_ok_wf: "file_ok f \<Longrightarrow> migrated f \<Longrightarrow> db_wf (rows f)"
  by (simp add: file_ok_def migrated_iff db_wf_def)

text \<open>C33: Whatever file \<open>Open\<close> finds, new, current or of the version without cached prices, what it returns
  satisfies the invariant every later operation keeps (\<open>store_invariant\<close>): all tables and unique
  indexes are there and no row was lost or changed; opening it again changes nothing; the only directory made is that of the database, and none for one in memory.\<close>

theorem open_store:
  assumes "Open authority_ok mkdirAll sql_Open fs path = (Inr f', fs')"
    and "\<forall>fs f. sql_Open fs path = Some f \<longrightarrow> file_ok f"
  shows "db_wf (rows f') \<and> migrated f' \<and> (\<exists>f. sql_Open fs' path = Some f \<and> same_rows f f') \<and>
     (faults (rows f') = [] \<longrightarrow> migrate f' = (Inr (), f')) \<and>
     (fs' = fs \<or> dbDir authority_ok path \<notin> {'''', ''.''} \<and> fs' = snd (mkdirAll fs (dbDir authority_ok path)))"
proof -
  obtain f where f: "ensureDBDir authority_ok mkdirAll fs path = (True, fs')" "sql_Open fs' path = Some f"
      "migrate f = (Inr (), f')"
    using assms(1) by (auto simp: Open_def split: prod.splits bool.splits option.splits sum.splits)
  then have g: "migrated f' \<and> file_ok f' \<and> same_rows f f'" using migrate_gives assms(2) by blast
  have "fs' = fs \<or> dbDir authority_ok path \<notin> {'''', ''.''} \<and> fs' = snd (mkdirAll fs (dbDir authority_ok path))"
    using f(1) by (auto simp: ensureDBDir_def Let_def split: if_splits)
  then show ?thesis using f(2) g file_ok_wf migrate_again by blast
qed

text \<open>A file of the version before cached prices.\<close>

definition old_file :: DBFile where
  "old_file =
     \<lparr>rows = empty_db\<lparr>model_prices := [\<lparr>pmodel = ''m'', pinput = ''1'', poutput = ''2'', pcached_input = '''',
        pis_default = 0, pupdated_at = 0\<rparr>]\<rparr>,
      has_payments = True, tx_index = False, request_index = False, has_settings = True, has_prices = True,
      has_cached_input = False\<rparr>"

lemma old_file_ok: "file_ok old_file"
  by (simp add: file_ok_def old_file_def empty_db_def)

theorem open_store_witness:
  "\<exists>f'. Open (\<lambda>a. True) (\<lambda>fs d. (True, d # fs)) (\<lambda>fs p. Some old_file) [] ''./data/xpay.db'' = (Inr f', [''data'']) \<and>
     db_wf (rows f') \<and> has_cached_input f' \<and> map pmodel (model_prices (rows f')) = [''m'']"
proof -
  let ?open = "Open (\<lambda>a. True) (\<lambda>fs d. (True, d # fs)) (\<lambda>fs p. Some old_file) [] ''./data/xpay.db''"
  have "is_ok (fst ?open) \<and> snd ?open = [''data''] \<and>
      map pmodel (model_prices (rows (projr (fst ?open)))) = [''m'']" by code_simp
  then obtain f' where o: "?open = (Inr f', [''data''])" "map pmodel (model_prices (rows f')) = [''m'']"
    by (cases ?open) (auto simp: is_ok_iff)
  from open_store [OF o(1)] old_file_ok have "db_wf (rows f') \<and> migrated f'" by simp
  then show ?thesis using o by (auto simp: migrated_iff)
qed

text \<open>Spellings of one database: the directory is the same, a database in memory has none.\<close>

lemma dbDir_spellings:
  "dbDir ok ''./data/xpay.db'' = ''data''" "dbDir ok ''file:data/xpay.db?cache=shared'' = ''data''"
  "dbDir (\<lambda>a. True) ''file:///var/lib/xpay.db'' = ''/var/lib''" "dbDir ok ''xpay.db'' = ''.''"
  "dbDir ok '':memory:'' = ''''" "dbDir ok ''file::memory:?cache=shared'' = ''''"
  "dbDir ok ''file:x/y?mode=memory'' = ''''"
  by code_simp+

text \<open>The opaque part of a URL is not unescaped, so the directory of an escaped relative name is made under
  its escaped name, which is not where SQLite puts the file.\<close>

lemma dbDir_escaped: "dbDir ok ''file:my%20data/xpay.db'' = ''my%20data''"
  by code_simp

end
