(* ===== verification/Serving.thy ===== *)
theory Serving
  imports Server Opening
begin

section \<open>The whole of \<open>main\<close>\<close>

text \<open>
  \<open>cmd/server/main.go\<close> from the environment to the exit: configuration, opening the database, the
  start-up of \<open>Server.boot\<close>, the settings of the listener, and what ends the process. Every error before
  the listener exits with 1.
\<close>

datatype start_error = StartConfig cfg_error | StartStore open_error | StartServer boot_error

definition start ::
    "'w outside \<Rightarrow> (string \<Rightarrow> string option) \<Rightarrow> (string \<Rightarrow> bool) \<Rightarrow> ('f \<Rightarrow> string \<Rightarrow> bool \<times> 'f) \<Rightarrow>
     ('f \<Rightarrow> string \<Rightarrow> DBFile option) \<Rightarrow> Env \<Rightarrow> 'f \<Rightarrow> int \<Rightarrow> 'w \<Rightarrow> (start_error + 'w Server) \<times> 'f" where
  "start out url_path authority_ok mkdirAll sql_Open env fs now w =
     (case Load (geth_lib (libs_of out)) (solana_lib (libs_of out)) url_path env of
        Inl e \<Rightarrow> (Inl (StartConfig e), fs)
      | Inr c \<Rightarrow>
          (case Open authority_ok mkdirAll sql_Open fs (DBPath c) of
             (Inl e, fs) \<Rightarrow> (Inl (StartStore e), fs)
           | (Inr f, fs) \<Rightarrow>
               (case boot out url_path env (rows f) now w of
                  Inl e \<Rightarrow> (Inl (StartServer e), fs)
                | Inr s \<Rightarrow> (Inr s, fs))))"

text \<open>The listener's settings; durations are 64-bit nanoseconds.\<close>

record HttpServer =
  Addr :: string
  ReadHeaderTimeout :: int
  ReadTimeout :: int
  WriteTimeout :: int
  IdleTimeout :: int
  MaxHeaderBytes :: int

definition http_server :: "Config \<Rightarrow> HttpServer" where
  "http_server c =
     \<lparr>Addr = '':'' @ Port c, ReadHeaderTimeout = 10 * second,
      ReadTimeout = wrap64 (wrap64 (UpstreamTimeoutSecs c + 10) * second),
      WriteTimeout = wrap64 (wrap64 (UpstreamTimeoutSecs c + 60) * second),
      IdleTimeout = 60 * second, MaxHeaderBytes = 2 ^ 20\<rparr>"

text \<open>
  What the \<open>select\<close> gets: a signal, after which \<open>Shutdown\<close> has or has not finished within the timeout it
  is given, or the error of \<open>ListenAndServe\<close>, \<open>ErrServerClosed\<close> or another.
\<close>

datatype stop_event = StopSignal "int \<Rightarrow> bool" | ListenEnded bool

definition exit_code :: "Config \<Rightarrow> stop_event \<Rightarrow> int" where
  "exit_code c ev =
     (case ev of
        StopSignal shutdown_ok \<Rightarrow> if shutdown_ok (wrap64 (ShutdownTimeoutSecs c * second)) then 0 else 1
      | ListenEnded server_closed \<Rightarrow> if server_closed then 0 else 1)"

text \<open>A run of the process: the requests served until it ends, and its exit code.\<close>

definition main ::
    "'w outside \<Rightarrow> (string \<Rightarrow> string option) \<Rightarrow> (string \<Rightarrow> bool) \<Rightarrow> ('f \<Rightarrow> string \<Rightarrow> bool \<times> 'f) \<Rightarrow>
     ('f \<Rightarrow> string \<Rightarrow> DBFile option) \<Rightarrow> Env \<Rightarrow> 'f \<Rightarrow> int \<Rightarrow> 'w \<Rightarrow> mux \<Rightarrow> string option \<Rightarrow> (Times \<times> Request) list \<Rightarrow>
     stop_event \<Rightarrow> int \<times> 'w Server option" where
  "main out url_path authority_ok mkdirAll sql_Open env fs now w mx page reqs ev =
     (case start out url_path authority_ok mkdirAll sql_Open env fs now w of
        (Inl e, fs) \<Rightarrow> (1, None)
      | (Inr s, fs) \<Rightarrow> (exit_code (cfg s) ev, Some (serve out mx page s reqs)))"

subsection \<open>What a running server has\<close>

text \<open>A file this program wrote: SQLite's constraints, entries that compile, a markup it printed.\<close>

definition own_file :: "DBFile \<Rightarrow> bool" where
  "own_file f \<longleftrightarrow> file_ok f \<and> catalog_ok (catalog (rows f)) \<and> settings_ok (setting (rows f)) \<and> faults (rows f) = []"

lemma run_ddl_faults: "faults (rows f) = [] \<Longrightarrow> faults (rows (snd (run_ddl xs f))) = []"
proof (induction xs arbitrary: f)
  case (Cons x xs)
  have "faults (rows f') = []" if "exec_ddl x f = Inr f'" for f'
    using that Cons.prems by (cases x) (auto split: if_splits)
  then show ?case using Cons.IH Cons.prems by (cases "exec_ddl x f") simp_all
qed simp

lemma same_rows_views:
  "same_rows f f' \<Longrightarrow> catalog (rows f') = catalog (rows f) \<and> setting (rows f') = setting (rows f)"
  by (simp add: same_rows_def catalog_def setting_def fun_eq_iff)

lemma Open_own_file:
  assumes "Open authority_ok mkdirAll sql_Open fs path = (Inr f', fs')" "\<forall>fs f. sql_Open fs path = Some f \<longrightarrow> own_file f"
  obtains f where "sql_Open fs' path = Some f" "store_ok (rows f')" "faults (rows f') = []"
    "payments (rows f') = payments (rows f)"
proof -
  obtain f where f: "sql_Open fs' path = Some f" "migrate f = (Inr (), f')"
    using assms(1) by (auto simp: Open_def split: prod.splits bool.splits option.splits sum.splits)
  then have own: "own_file f" using assms(2) by blast
  then have g: "migrated f' \<and> file_ok f' \<and> same_rows f f'" using migrate_gives f(2) unfolding own_file_def by blast
  have "faults (rows f') = []"
    using run_ddl_faults [of f] own f(2) by (metis migrate_def own_file_def snd_conv)
  moreover have "store_ok (rows f')"
    using g file_ok_wf [of f'] same_rows_views [of f f'] own by (simp add: store_ok_def own_file_def)
  moreover have "payments (rows f') = payments (rows f)" using g by (simp add: same_rows_def)
  ultimately show thesis using that f(1) by blast
qed

lemma boot_fields:
  assumes "boot out url_path env d now w = Inr s"
  shows "payments (db s) = payments d" "store (cache s) = Map.empty" "world s = w"
proof -
  obtain r d1 where d1: "BootstrapDefaultPrices d now DefaultEntries = (r, d1)" by fastforce
  have "payments (snd (BootstrapDefaultPrices d now DefaultEntries)) = payments d"
    by (simp add: BootstrapDefaultPrices_def payments_in_tx payments_bootstrap_rows)
  then have p: "payments d1 = payments d" by (simp add: d1)
  have lm: "payments d' = payments d1" if "load_markup d1 c = Inr (c', d')" for c c' d'
    using that by (auto simp: load_markup_def GetSetting_def split: sum.splits prod.splits option.splits bool.splits if_splits
        dest!: stmt_tables)
  have lp: "payments d' = payments d2" if "load_prices d2 = Inr (m, d')" for d2 m d'
    using that by (auto simp: load_prices_def ListModelPrices_def split: sum.splits prod.splits if_splits dest!: stmt_tables)
  show "payments (db s) = payments d" "store (cache s) = Map.empty" "world s = w"
    using assms p by (auto simp: boot_def d1 New_def split: sum.splits prod.splits dest!: lm lp)
qed

lemma config_ok_Markup: "config_ok g sol c \<Longrightarrow> markup_ok m \<Longrightarrow> config_ok g sol (c\<lparr>Markup := m\<rparr>)"
  by (simp add: config_ok_def markup_ok_def evm_ok_def solana_ok_def)

text \<open>C11: From the environment and the file to any later moment, for database files this program wrote
  (\<open>own_file\<close>: the constraints hold, the catalog compiles, a stored markup is a positive finite number
  as the program prints it) and an engine that never fails: a process that gets to its listener
  starts with an empty cache and every payment of the file; and after any run of requests it runs
  with a valid configuration, the one \<open>Load\<close> accepted but for a markup that is positive and finite
  too, the database satisfies its invariants, and the prices charged are those stored. Of a file that
  someone else wrote this does not hold: a markup \<open>NaN\<close> in it is put in force.\<close>

theorem started_server_sound:
  assumes "start out url_path authority_ok mkdirAll sql_Open env fs now w = (Inr s0, fs')"
    and "\<forall>fs path f. sql_Open fs path = Some f \<longrightarrow> own_file f"
  shows "\<exists>c f. Load (geth_lib (libs_of out)) (solana_lib (libs_of out)) url_path env = Inr c \<and>
     sql_Open fs' (DBPath c) = Some f \<and> payments (db s0) = payments (rows f) \<and> store (cache s0) = Map.empty \<and>
     (\<forall>mx page reqs. let s = serve out mx page s0 reqs in
        cfg s = c\<lparr>Markup := Markup (cfg s)\<rparr> \<and> config_ok (geth_lib (libs_of out)) (solana_lib (libs_of out)) (cfg s) \<and>
        store_ok (db s) \<and> in_force (prices s) (catalog (db s)))"
proof -
  obtain c f' where c: "Load (geth_lib (libs_of out)) (solana_lib (libs_of out)) url_path env = Inr c"
    and f': "Open authority_ok mkdirAll sql_Open fs (DBPath c) = (Inr f', fs')"
    and boot: "boot out url_path env (rows f') now w = Inr s0"
    using assms(1) by (auto simp: start_def split: sum.splits prod.splits)
  obtain f where f: "sql_Open fs' (DBPath c) = Some f" "store_ok (rows f')" "faults (rows f') = []"
      "payments (rows f') = payments (rows f)"
    using Open_own_file [OF f'] assms(2) by blast
  have dur: "durable c s0" using boot_Inr [OF boot f(3,2)] c by (metis sum.inject(2))
  have d: "durable c (serve out mx page s0 reqs)" for mx page reqs using durable_serve [OF dur] .
  have "config_ok (geth_lib (libs_of out)) (solana_lib (libs_of out)) (cfg (serve out mx page s0 reqs))" for mx page reqs
    using d [of mx page reqs] config_ok_Markup [OF Load_config_ok [OF c]] unfolding durable_def by metis
  then show ?thesis
    using c f boot_fields [OF boot] d unfolding durable_def Let_def by metis
qed

text \<open>A first start: the file is new, the directory is made.\<close>

definition new_file :: DBFile where
  "new_file = \<lparr>rows = empty_db, has_payments = False, tx_index = False, request_index = False, has_settings = False,
     has_prices = False, has_cached_input = False\<rparr>"

lemma new_file_own: "own_file new_file"
  using store_ok_empty [of "[]"] by (simp add: own_file_def file_ok_def new_file_def empty_db_def store_ok_def)

theorem started_server_sound_witness:
  "\<exists>s0. start sample_outside (\<lambda>_. None) (\<lambda>_. True) (\<lambda>fs d. (True, d # fs)) (\<lambda>fs p. Some new_file) sample_env [] 1 0 = (Inr s0, []) \<and>
     payments (db s0) = [] \<and> store_ok (db s0) \<and> in_force (prices s0) (catalog (db s0))"
proof -
  let ?open = "Open (\<lambda>_. True) (\<lambda>fs d. (True, d # fs)) (\<lambda>fs p. Some new_file) [] (DBPath sample_config)"
  have load: "Load (geth_lib (libs_of sample_outside)) (solana_lib (libs_of sample_outside)) (\<lambda>_. None) sample_env = Inr sample_config"
    using sample_config_loads by (simp add: sample_outside_def sample_libs_def)
  have "is_ok (fst ?open) \<and> snd ?open = [] \<and> rows (projr (fst ?open)) = empty_db" by code_simp
  then obtain f' where f': "?open = (Inr f', [])" "rows f' = empty_db" by (cases ?open) (auto simp: is_ok_iff)
  obtain s0 where "boot sample_outside (\<lambda>_. None) sample_env empty_db 1 0 = Inr s0"
    using sample_boot_ok by (metis sample_boot_def)
  then have start: "start sample_outside (\<lambda>_. None) (\<lambda>_. True) (\<lambda>fs d. (True, d # fs)) (\<lambda>fs p. Some new_file) sample_env [] 1 0 = (Inr s0, [])"
    using f' by (simp add: start_def load)
  have "\<forall>(fs :: string list) path f. Some new_file = Some f \<longrightarrow> own_file f" using new_file_own by simp
  from started_server_sound [OF start this] obtain f where f: "Some new_file = Some f" "payments (db s0) = payments (rows f)"
    and all: "\<forall>mx page reqs. let s = serve sample_outside mx page s0 reqs in
      store_ok (db s) \<and> in_force (prices s) (catalog (db s))"
    unfolding Let_def by blast
  from all have "store_ok (db s0) \<and> in_force (prices s0) (catalog (db s0))"
    by (metis (mono_tags, lifting) serve.simps(1))
  then show ?thesis using start f by (auto simp: new_file_def empty_db_def)
qed

end
