(* ===== verification/Waiting.thy ===== *)
theory Waiting
  imports Solana Cache
begin

section \<open>The wait for a confirmation, with its clock\<close>

text \<open>
  \<open>Solana.waitConfirmed\<close> runs for a given number of ticks. Here the loop of \<open>settler/solana.go\<close> is a
  step relation over the time its ticker and its context measure, one step per poll and \<open>select\<close>; the
  tick count of the function is bounded by the deadline \<open>handlePayment\<close> sets.
\<close>

definition millisecond :: int where
  "millisecond = 10 ^ 6"

text \<open>The ticker's period, and the time a settlement gets (\<open>relay.go\<close>), in nanoseconds.\<close>

definition tick_period :: int where
  "tick_period = 750 * millisecond"

definition settle_timeout :: int where
  "settle_timeout = 45 * second"

text \<open>
  A loop that has polled \<open>k\<close> times and starts the next poll at time \<open>t\<close>; or one that has returned after
  \<open>n\<close> polls, at time \<open>t\<close>.
\<close>

datatype 'w wait_state =
  Polling nat int 'w
| Returned nat int "settle_error + unit" 'w

text \<open>
  The ticker fires at \<open>start + tick_period\<close>, \<open>start + 2 * tick_period\<close> and so on, and its channel holds one
  tick: after a receive at \<open>t\<close> the next one can be had from the first firing after \<open>t\<close> on. (The tick
  that fires at the very time of a receive is the one received.)
\<close>

definition fired :: "int \<Rightarrow> int \<Rightarrow> int" where
  "fired start t = (t - start) div tick_period"

definition next_tick :: "int \<Rightarrow> int \<Rightarrow> int" where
  "next_tick start t = start + (fired start t + 1) * tick_period"

text \<open>
  \<open>done_at\<close> is when the context is done: at its deadline, or earlier when the client goes away. A poll
  answers at some time \<open>u\<close>; one whose context is done, or becomes so, within \<open>lag\<close>. The \<open>select\<close> then
  waits for a tick or the end of the context, whichever comes first, and when both are there, it
  takes either.
\<close>

definition select_at :: "int \<Rightarrow> int \<Rightarrow> int \<Rightarrow> int \<Rightarrow> int" where
  "select_at start done_at t u = max u (min (next_tick start t) done_at)"

definition poll_time :: "int \<Rightarrow> int \<Rightarrow> int \<Rightarrow> int \<Rightarrow> bool" where
  "poll_time done_at lag t u \<longleftrightarrow> t \<le> u \<and> u \<le> max t done_at + lag"

inductive wait_step ::
    "'w solana_rpc \<Rightarrow> SolanaSettler \<Rightarrow> string \<Rightarrow> int \<Rightarrow> int \<Rightarrow> int \<Rightarrow> 'w wait_state \<Rightarrow> 'w wait_state \<Rightarrow> bool"
  for rpc s sig start done_at lag where
  verdict: "poll_time done_at lag t u \<Longrightarrow> GetSignatureStatuses rpc w sig = (st, w') \<Longrightarrow> poll_verdict s st = Some r \<Longrightarrow>
    wait_step rpc s sig start done_at lag (Polling k t w) (Returned (Suc k) u r w')"
| tick: "poll_time done_at lag t u \<Longrightarrow> GetSignatureStatuses rpc w sig = (st, w') \<Longrightarrow> poll_verdict s st = None \<Longrightarrow>
    v = select_at start done_at t u \<Longrightarrow> next_tick start t \<le> v \<Longrightarrow>
    wait_step rpc s sig start done_at lag (Polling k t w) (Polling (Suc k) v w')"
| expired: "poll_time done_at lag t u \<Longrightarrow> GetSignatureStatuses rpc w sig = (st, w') \<Longrightarrow> poll_verdict s st = None \<Longrightarrow>
    v = select_at start done_at t u \<Longrightarrow> done_at \<le> v \<Longrightarrow>
    wait_step rpc s sig start done_at lag (Polling k t w) (Returned (Suc k) v (Inl WaitConfirmation) w')"

inductive_simps next_poll [simp]: "wait_step rpc s sig start done_at lag (Polling k t w) (Polling k' t' w')"
inductive_simps return [simp]: "wait_step rpc s sig start done_at lag (Polling k t w) (Returned n t' r w')"
inductive_simps returned [simp]: "wait_step rpc s sig start done_at lag (Returned n t r w) c"

text \<open>The function's view of a state.\<close>

fun follows :: "'w solana_rpc \<Rightarrow> SolanaSettler \<Rightarrow> string \<Rightarrow> 'w \<Rightarrow> 'w wait_state \<Rightarrow> bool" where
  "follows rpc s sig w0 (Polling k t w) \<longleftrightarrow>
     (\<forall>m. waitConfirmed rpc s (k + m) w0 sig = waitConfirmed rpc s m w sig)"
| "follows rpc s sig w0 (Returned n t r w) \<longleftrightarrow> 0 < n \<and> waitConfirmed rpc s (n - 1) w0 sig = (r, w)"

lemma follows_step:
  assumes "wait_step rpc s sig start done_at lag c c'" "follows rpc s sig w0 c"
  shows "follows rpc s sig w0 c'"
  using assms
proof (induction rule: wait_step.induct)
  case (tick t u w st w' v k)
  have "waitConfirmed rpc s (Suc k + m) w0 sig = waitConfirmed rpc s m w' sig" for m
    using tick.prems [simplified, THEN spec, of "Suc m"] tick.hyps by simp
  then show ?case by simp
qed (auto dest: spec [where x = 0])

subsection \<open>Ticks and time\<close>

lemma tick_period_pos: "0 < tick_period"
  by (simp add: tick_period_def millisecond_def)

lemma div_le_int: "0 < p \<Longrightarrow> x div p \<le> n \<longleftrightarrow> x < (n + 1) * p" for x p n :: int
proof
  assume p: "0 < p" and "x div p \<le> n"
  then have "x div p * p \<le> n * p" by (intro mult_right_mono) simp_all
  moreover have "x < x div p * p + p" using p div_mult_mod_eq [of x p] pos_mod_bound [of p x] by linarith
  ultimately show "x < (n + 1) * p" by (simp add: distrib_right)
next
  assume p: "0 < p" and x: "x < (n + 1) * p"
  show "x div p \<le> n"
  proof (rule ccontr)
    assume "\<not> x div p \<le> n"
    then have "(n + 1) * p \<le> x div p * p" using p by (intro mult_right_mono) simp_all
    also have "\<dots> \<le> x" using p div_mult_mod_eq [of x p] pos_mod_sign [of p x] by linarith
    finally show False using x by simp
  qed
qed

lemma fired_le: "fired start t \<le> n \<longleftrightarrow> t < start + (n + 1) * tick_period"
  unfolding fired_def div_le_int [OF tick_period_pos] by linarith

lemma fired_ge: "n \<le> fired start t \<longleftrightarrow> start + n * tick_period \<le> t"
  using fired_le [of start t "n - 1"] by auto

lemma next_tick_le: "next_tick start t \<le> v \<longleftrightarrow> fired start t < fired start v"
  using fired_ge [of "fired start t + 1" start v] by (auto simp: next_tick_def)

text \<open>Less than a tick period holds at most one firing more.\<close>

lemma fired_step: "v \<le> t + tick_period \<Longrightarrow> fired start v \<le> fired start t + 1"
proof -
  assume v: "v \<le> t + tick_period"
  have "t < start + (fired start t + 1) * tick_period" using fired_le [of start t "fired start t"] by simp
  then have "v < start + (fired start t + 1) * tick_period + tick_period" using v by linarith
  then show "fired start v \<le> fired start t + 1" unfolding fired_le by (simp add: algebra_simps)
qed

lemma select_after_done:
  "poll_time done_at lag t u \<Longrightarrow> 0 \<le> lag \<Longrightarrow> done_at \<le> select_at start done_at t u \<Longrightarrow>
   select_at start done_at t u \<le> max t done_at + lag"
  by (auto simp: poll_time_def select_at_def)

text \<open>
  What holds before a poll: no more polls than ticks, and after \<open>d\<close>, when the context is done, at most
  two ticks more were received, the second one firing after the first.
\<close>

definition late :: "int \<Rightarrow> int \<Rightarrow> int \<Rightarrow> int \<Rightarrow> bool" where
  "late start d lag t \<longleftrightarrow>
     t \<le> d + lag \<or>
     (\<exists>t1. t1 \<le> d + lag \<and> t1 \<le> t \<and> t \<le> t1 + lag \<and> fired start t1 < fired start t)"

fun in_time :: "int \<Rightarrow> int \<Rightarrow> int \<Rightarrow> 'w wait_state \<Rightarrow> bool" where
  "in_time start d lag (Polling k t w) \<longleftrightarrow> int k \<le> fired start t \<and> late start d lag t"
| "in_time start d lag (Returned n t r w) \<longleftrightarrow>
     (\<exists>t0. int n \<le> fired start t0 + 1 \<and> late start d lag t0) \<and> t \<le> d + 3 * lag"

lemma late_bound: "late start d lag t \<Longrightarrow> 0 \<le> lag \<Longrightarrow> t \<le> d + 2 * lag"
  by (auto simp: late_def)

lemma late_tick:
  assumes "late start d lag t" "poll_time done_at lag t u" "v = select_at start done_at t u"
    and "next_tick start t \<le> v" "0 \<le> lag" "2 * lag \<le> tick_period" "done_at \<le> d"
  shows "late start d lag v"
proof (cases "v < done_at")
  case False
  then have "v \<le> max t done_at + lag" using select_after_done [of done_at lag t u start] assms by simp
  then have v: "v \<le> max t d + lag" using assms(7) by linarith
  have more: "fired start t < fired start v" "t \<le> v"
    using assms(2-4) by (auto simp: next_tick_le select_at_def poll_time_def)
  show ?thesis
  proof (cases "t \<le> d")
    case True
    then show ?thesis using v by (simp add: late_def)
  next
    case after: False
    have "\<not> (\<exists>t1. t1 \<le> t \<and> t \<le> t1 + lag \<and> fired start t1 < fired start t)"
    proof
      assume "\<exists>t1. t1 \<le> t \<and> t \<le> t1 + lag \<and> fired start t1 < fired start t"
      then obtain t1 where "t \<le> t1 + lag" "fired start t1 < fired start t" by blast
      moreover from this have "fired start v \<le> fired start t1 + 1"
        using v after assms(6) by (intro fired_step) linarith
      ultimately show False using more by linarith
    qed
    then have "t \<le> d + lag" using assms(1) by (auto simp: late_def)
    then show ?thesis using v after more unfolding late_def by (intro disjI2 exI [of _ t]) simp
  qed
qed (use assms(5,7) in \<open>simp add: late_def\<close>)

lemma in_time_step:
  assumes "wait_step rpc s sig start done_at lag c c'" "in_time start d lag c" "0 \<le> lag" "2 * lag \<le> tick_period"
    and "done_at \<le> d"
  shows "in_time start d lag c'"
  using assms(1,2)
proof (induction rule: wait_step.induct)
  case (verdict t u w st w' r k)
  then have l: "late start d lag t" "int k \<le> fired start t" by simp_all
  have "u \<le> max t done_at + lag" using verdict.hyps by (simp add: poll_time_def)
  then have "u \<le> d + 3 * lag" using late_bound [OF l(1) assms(3)] assms(3,5) by linarith
  then show ?case using l by auto
next
  case (tick t u w st w' v k)
  then have "late start d lag v" using late_tick [of start d lag t done_at u v] assms(3-5) by simp
  moreover have "fired start t < fired start v" using tick.hyps by (simp add: next_tick_le)
  ultimately show ?case using tick.prems by simp
next
  case (expired t u w st w' v k)
  then have l: "late start d lag t" "int k \<le> fired start t" by simp_all
  have "v \<le> max t done_at + lag"
    using expired.hyps select_after_done [of done_at lag t u start] assms(3) by simp
  then have "v \<le> d + 3 * lag" using late_bound [OF l(1) assms(3)] assms(3,5) by linarith
  then show ?case using l by auto
qed

lemma late_fired:
  assumes "late start d lag t" "0 \<le> lag" "2 * lag \<le> tick_period" "d \<le> start + settle_timeout"
  shows "fired start t \<le> 61"
proof -
  have "t \<le> start + settle_timeout + tick_period" using late_bound [OF assms(1,2)] assms(3,4) by linarith
  moreover have "settle_timeout + tick_period < (61 + 1) * tick_period" by code_simp
  ultimately show ?thesis unfolding fired_le by linarith
qed

lemma wait_goes_on:
  assumes "0 \<le> lag"
  shows "\<exists>c'. wait_step rpc s sig start done_at lag (Polling k t w) c'"
proof -
  obtain st w' where poll: "GetSignatureStatuses rpc w sig = (st, w')" by fastforce
  have time: "poll_time done_at lag t t" using assms by (simp add: poll_time_def)
  show ?thesis
  proof (cases "poll_verdict s st")
    case None
    have "next_tick start t \<le> select_at start done_at t t \<or> done_at \<le> select_at start done_at t t"
      by (auto simp: select_at_def)
    then show ?thesis using tick [OF time poll None refl] expired [OF time poll None refl] by blast
  next
    case (Some r)
    then show ?thesis by (intro exI) (rule verdict [OF time poll])
  qed
qed

subsection \<open>Runs\<close>

text \<open>How many polls a state has behind it: every step is one.\<close>

fun polls :: "'w wait_state \<Rightarrow> nat" where
  "polls (Polling k t w) = k"
| "polls (Returned n t r w) = n"

lemma polls_step: "wait_step rpc s sig start done_at lag c c' \<Longrightarrow> polls c' = Suc (polls c)"
  by (induction rule: wait_step.induct) simp_all

lemma wait_invariant:
  assumes "(wait_step rpc s sig start done_at lag ^^ n) (Polling 0 start w) c" "0 \<le> lag" "2 * lag \<le> tick_period"
  shows "follows rpc s sig w c \<and> in_time start (max start done_at) lag c \<and> polls c = n"
  using assms(1)
proof (induction n arbitrary: c)
  case 0
  then show ?case using assms(2) by (auto simp: fired_def late_def)
next
  case (Suc n)
  then obtain c0 where c0: "(wait_step rpc s sig start done_at lag ^^ n) (Polling 0 start w) c0"
    "wait_step rpc s sig start done_at lag c0 c" by auto
  then show ?case
    using Suc.IH [OF c0(1)] follows_step [OF c0(2)] polls_step [OF c0(2)]
      in_time_step [OF c0(2) _ assms(2,3), of "max start done_at"] by simp
qed

text \<open>C19: The wait ends. Within the 45 seconds of a settlement, and if a poll whose context is done comes back
  within half a tick period, every run of the loop has at most 62 steps, one per poll, whatever the
  cluster answers, however long the polls before take, and whichever case \<open>select\<close> takes when it has
  the choice; a run can always go on until the loop has returned; it has then returned at most three
  such lags after the end of the context (or after its own start, if that is later), with what
  \<open>waitConfirmed\<close> gives for that number of ticks.\<close>

theorem wait_ends:
  assumes "0 \<le> lag" "2 * lag \<le> tick_period" "done_at \<le> start + settle_timeout"
    and "(wait_step rpc s sig start done_at lag ^^ n) (Polling 0 start w) c"
  shows "n \<le> 62 \<and>
    ((\<exists>c'. wait_step rpc s sig start done_at lag c c') \<or>
     (\<exists>t r w'. c = Returned n t r w' \<and> 0 < n \<and> t \<le> max start done_at + 3 * lag \<and>
        waitConfirmed rpc s (n - 1) w sig = (r, w')))"
proof -
  note inv = wait_invariant [OF assms(4,1,2)]
  have "0 \<le> settle_timeout" by code_simp
  then have "max start done_at \<le> start + settle_timeout" using assms(3) by simp
  note late = late_fired [OF _ assms(1,2) this]
  show ?thesis
  proof (cases c)
    case (Polling k t w1)
    then have "int n \<le> fired start t" "fired start t \<le> 61" using inv late [of t] by simp_all
    then show ?thesis using wait_goes_on [OF assms(1)] Polling by auto
  next
    case (Returned m t r w1)
    then obtain t0 where "int n \<le> fired start t0 + 1" "fired start t0 \<le> 61"
      using inv late by auto
    then show ?thesis using inv Returned by auto
  qed
qed

text \<open>The sample cluster confirms at the third poll.\<close>

theorem wait_ends_witness:
  "\<exists>t w'. (wait_step sample_solana_rpc sample_solana_settler ''sig'' 0 settle_timeout millisecond ^^ 3)
       (Polling 0 0 1) (Returned 3 t (Inr ()) w') \<and>
     waitConfirmed sample_solana_rpc sample_solana_settler 2 1 ''sig'' = (Inr (), w')"
proof -
  let ?step = "wait_step sample_solana_rpc sample_solana_settler ''sig'' 0 settle_timeout millisecond"
  note samples = sample_solana_rpc_def poll_verdict_def tick_period_def millisecond_def second_def
    settle_timeout_def poll_time_def select_at_def next_tick_def fired_def
  have 1: "?step (Polling 0 0 1) (Polling 1 tick_period 2)"
    by (simp add: samples, rule exI [of _ 0], simp)
  have 2: "?step (Polling 1 tick_period 2) (Polling 2 (2 * tick_period) 3)"
    by (simp add: samples, rule exI [of _ "750000000"], simp)
  have 3: "?step (Polling 2 (2 * tick_period) 3) (Returned 3 (2 * tick_period) (Inr ()) 4)"
    by (simp add: samples sample_solana_settler_def)
  have run: "(?step ^^ 3) (Polling 0 0 1) (Returned 3 (2 * tick_period) (Inr ()) 4)"
  proof -
    have "(?step ^^ 1) (Polling 0 0 1) (Polling 1 tick_period 2)" using 1 by (simp only: relpowp_1)
    then have "(?step ^^ Suc 1) (Polling 0 0 1) (Polling 2 (2 * tick_period) 3)" using 2 by (rule relpowp_Suc_I)
    then have "(?step ^^ Suc (Suc 1)) (Polling 0 0 1) (Returned 3 (2 * tick_period) (Inr ()) 4)" using 3 by (rule relpowp_Suc_I)
    then show ?thesis by (simp only: numeral_3_eq_3 One_nat_def)
  qed
  have "(0::int) \<le> millisecond" "2 * millisecond \<le> tick_period" "settle_timeout \<le> 0 + settle_timeout" by code_simp+
  from wait_ends [OF this run] run show ?thesis by auto
qed

end
