(* ===== verification/Deadlines.thy ===== *)
theory Deadlines
  imports Serving Waiting
begin

section \<open>The deadlines of the server\<close>

text \<open>
  The durations the program derives from \<open>UPSTREAM_TIMEOUT_SECS\<close>: the timeout of the relay's HTTP
  client (\<open>NewRelay\<close> of \<open>internal/handler/relay.go\<close>) and the listener's \<open>ReadTimeout\<close> and \<open>WriteTimeout\<close>
  (\<open>cmd/server/main.go\<close>). A \<open>time.Duration\<close> is an \<open>int64\<close> of nanoseconds, and the products wrap.
\<close>

definition upstream_timeout :: "Config \<Rightarrow> int" where
  "upstream_timeout c = wrap64 (UpstreamTimeoutSecs c * second)"

text \<open>The largest number of seconds that still fits with the minute added for \<open>WriteTimeout\<close>.\<close>

definition max_upstream_secs :: int where
  "max_upstream_secs = (2 ^ 63 - 1) div second - 60"

lemma seconds_fit:
  assumes "0 < n" "n \<le> (2 ^ 63 - 1) div second"
  shows "wrap64 n = n" "wrap64 (n * second) = n * second"
proof -
  have "n * second \<le> 2 ^ 63 - 1" "n \<le> n * second"
    using assms by (simp_all add: second_def)
  then show "wrap64 n = n" "wrap64 (n * second) = n * second"
    using assms(1) by (auto intro!: wrap64_id simp: int64_range_def second_def)
qed

text \<open>C30: The deadlines nest: for every accepted configuration up to \<open>max_upstream_secs\<close>, the upstream
  client gives up before the listener's read deadline, and an answer that took all of its time, and
  even a settlement of 45 seconds on top, can still be written. One second more is accepted by \<open>Load\<close>
  too, but then the write deadline wraps to a negative duration, which \<open>net/http\<close> takes for none.\<close>

theorem deadlines_nest:
  assumes "Load g sol url_path env = Inr c"
  shows "(UpstreamTimeoutSecs c \<le> max_upstream_secs \<longrightarrow>
       0 < upstream_timeout c \<and> upstream_timeout c < ReadTimeout (http_server c) \<and>
       upstream_timeout c + settle_timeout < WriteTimeout (http_server c)) \<and>
     (UpstreamTimeoutSecs c = max_upstream_secs + 1 \<longrightarrow> WriteTimeout (http_server c) < 0)"
proof (intro conjI impI)
  let ?n = "UpstreamTimeoutSecs c"
  assume n: "?n \<le> max_upstream_secs"
  have "0 < ?n" using Load_config_ok [OF assms] by (simp add: config_ok_def)
  then have "upstream_timeout c = ?n * second" "ReadTimeout (http_server c) = (?n + 10) * second"
    "WriteTimeout (http_server c) = (?n + 60) * second"
    using n by (simp_all add: upstream_timeout_def http_server_def max_upstream_secs_def seconds_fit)
  then show "0 < upstream_timeout c" "upstream_timeout c < ReadTimeout (http_server c)"
    "upstream_timeout c + settle_timeout < WriteTimeout (http_server c)"
    using \<open>0 < ?n\<close> by (simp_all add: second_def settle_timeout_def)
next
  assume "UpstreamTimeoutSecs c = max_upstream_secs + 1"
  then have "WriteTimeout (http_server c) = wrap64 (wrap64 (max_upstream_secs + 1 + 60) * second)"
    by (simp add: http_server_def)
  also have "\<dots> < 0" by code_simp
  finally show "WriteTimeout (http_server c) < 0" .
qed

definition long_env :: Env where
  "long_env k = (if k = ''UPSTREAM_TIMEOUT_SECS'' then itoa (max_upstream_secs + 1) else sample_env k)"

theorem deadlines_nest_witness:
  "\<exists>c. Load sample_geth sample_solana (\<lambda>_. None) long_env = Inr c \<and> WriteTimeout (http_server c) < 0 \<and>
     upstream_timeout sample_config + settle_timeout < WriteTimeout (http_server sample_config)"
proof -
  define c where "c = projr (Load sample_geth sample_solana (\<lambda>_. None) long_env)"
  have "is_ok (Load sample_geth sample_solana (\<lambda>_. None) long_env)" by code_simp
  then have c: "Load sample_geth sample_solana (\<lambda>_. None) long_env = Inr c" unfolding c_def by (rule is_ok_projr)
  have "UpstreamTimeoutSecs c = max_upstream_secs + 1" unfolding c_def by code_simp
  moreover have "UpstreamTimeoutSecs sample_config \<le> max_upstream_secs" by code_simp
  ultimately show ?thesis
    using c deadlines_nest [OF c] deadlines_nest [OF sample_config_loads] by blast
qed

end
