(* ===== verification/Panics.thy ===== *)
theory Panics
  imports Relay
begin

section \<open>A transfer with too few accounts\<close>

text \<open>
  The one way a request can make a handler panic that the model has: \<open>validateTransaction\<close>
  (\<open>internal/settler/solana.go\<close>) reads the owner of a decoded transfer without looking whether the
  instruction lists that many accounts. What \<open>handlePayment\<close> and gin's \<open>Recovery\<close> make of it.
\<close>

text \<open>An instruction of the token program that decodes to a transfer without an owner account.\<close>

definition short_transfer :: "'w solana_rpc \<Rightarrow> Transaction \<Rightarrow> Instruction \<Rightarrow> bool" where
  "short_transfer rpc tx ix \<longleftrightarrow>
     ResolveProgramIDIndex rpc tx (ProgramIDIndex ix) = Some (TokenProgramID rpc) \<and>
     TokenProgramID rpc \<noteq> ComputeBudget rpc \<and> TokenProgramID rpc \<noteq> MemoProgramID rpc \<and>
     (\<exists>accounts tc. ResolveInstructionAccounts rpc tx ix = Some accounts \<and>
        token_DecodeInstruction rpc accounts (ixData ix) = Some (TokenTransferChecked tc) \<and> OwnerAccount tc = None)"

lemma instruction_step_short:
  "short_transfer rpc tx ix \<Longrightarrow> instruction_step rpc tx m i ix st = Inl AccountPanic"
  by (auto simp: short_transfer_def instruction_step_def)

lemma instruction_loop_short:
  assumes "effects rpc tx pre = Some es" "short_transfer rpc tx ix"
  shows "instruction_loop rpc tx m i (pre @ ix # post) st = Inl AccountPanic"
  using assms(1)
proof (induction pre arbitrary: i st es)
  case Nil
  then show ?case using instruction_step_short [OF assms(2)] by (simp add: and_then_def)
next
  case (Cons x pre)
  then obtain e es' where e: "effect_of rpc tx x = Some e" "effects rpc tx pre = Some es'"
    by (auto split: option.splits)
  then have "instruction_step rpc tx m i x st = Inr (apply_effect m st e)" by (simp add: instruction_step_Inr)
  then show ?case using Cons.IH [OF e(2)] by (simp add: and_then_def)
qed

lemma validateTransaction_short:
  assumes "Signatures tx \<noteq> []" "AddressTableLookups tx = []" "VerifySignatures rpc tx" "0 < cost" "cost < 2 ^ 63"
    and "Instructions tx = pre @ ix # post" "effects rpc tx pre = Some es" "short_transfer rpc tx ix"
  shows "validateTransaction rpc s tx cost rid = Inl AccountPanic"
proof -
  have "unat (uint64_of cost) = nat cost"
    using assms(4,5) by (simp add: uint64_of_def unat_eq_nat_uint word_of_int_inverse take_bit_int_eq_self)
  moreover have "\<not> 2 ^ 63 - 1 < nat cost" using assms(4,5) by simp
  ultimately show ?thesis
    using assms(1-6) instruction_loop_short [OF assms(7,8)]
    by (simp add: validateTransaction_def and_then_def guard_def)
qed

text \<open>C22: A signed transaction can make the handler panic. If the payment request is otherwise in order and
  its transaction has, after any instructions the settler supports, a transfer that lists too few
  accounts, the client gets gin's empty 500 instead of an error that says what is wrong; nothing was
  sent to the chain, and the staged answer, the ledger and everything else are as before.\<close>

theorem short_transfer_panics:
  assumes "open_payment s t_get req = Inr (rid, e, p)" "settler s = SOL sl" "solana_client (libs_of out) = rpc"
    and "solana_payload rpc p rid tx"
    and "Signatures tx \<noteq> []" "AddressTableLookups tx = []" "VerifySignatures rpc tx" "0 < Cost e" "Cost e < 2 ^ 63"
    and "Instructions tx = pre @ ix # post" "effects rpc tx pre = Some es" "short_transfer rpc tx ix"
  shows "handlePayment out s t_get t_settle t_record req = (respond 500 Empty, s)"
proof -
  have "Settle (libs_of out) (settler s) (world s) now p (Cost e) rid = (Inl (TxInvalid AccountPanic), world s)" for now
    using assms(2-4) validateTransaction_short [OF assms(5-12)]
    by (auto simp: Settle_def Solana_Settle_def solana_payload_def)
  then show ?thesis using assms(1) by (simp add: handlePayment_def settle_payment_def panicked_def)
qed

text \<open>The sample transaction without its last account, for an answer staged under \<open>r\<close>.\<close>

definition short_tx :: Transaction where
  "short_tx = sample_tx\<lparr>Instructions := butlast (Instructions sample_tx) @
     [(last (Instructions sample_tx))\<lparr>AccountIndices := [6, 4, 5]\<rparr>]\<rparr>"

definition short_outside :: "nat outside" where
  "short_outside = sample_outside\<lparr>libs_of := sample_libs\<lparr>solana_client := sample_solana_rpc
     \<lparr>TransactionFromBase64 := (\<lambda>s. Some short_tx)\<rparr>\<rparr>\<rparr>"

definition solana_config :: Config where
  "solana_config = sample_live_config\<lparr>PaymentChain := ''solana'', Network := ''solana:devnet''\<rparr>"

definition solana_server :: "nat Server" where
  "solana_server = sample_server\<lparr>cfg := solana_config, settler := SOL (sample_solana_settler\<lparr>scfg := solana_config\<rparr>),
     cache := Store (New 0) 5 ''r'' (sample_entry\<lparr>Cost := 5\<rparr>)\<rparr>"

definition solana_request :: "string \<Rightarrow> Request" where
  "solana_request rid = paid_request rid
     (EncodeToString (Marshal_payment 1 ''exact'' ''solana:devnet'' (Payload (solana_payment rid))))"

lemma solana_request_decodes:
  assumes "utf8_valid rid"
  shows "decodePaymentHeader (GetHeader (solana_request rid) HeaderPayment) = Inr (solana_payment rid)"
proof -
  let ?ms = "[(''type'', json_quote SolanaPayType, JStr SolanaPayType), (''transaction'', json_quote ''AQID'', JStr ''AQID''),
    (''requestId'', json_quote rid, JStr rid)]"
  have "utf8_valid ''type''" "utf8_valid ''transaction''" "utf8_valid ''requestId''" "utf8_valid SolanaPayType"
    "utf8_valid ''AQID''" and net: "utf8_valid ''solana:devnet''" by code_simp+
  then have "encodes (Suc 0) (json_object (map (\<lambda>(k, t, v). (k, t)) ?ms)) (JObj ?ms)"
    using assms by (intro encodes_object) (simp_all add: encodes_string del: utf8_valid.simps)
  then have "encodes (Suc 0) (Payload (solana_payment rid)) (JObj ?ms)" by (simp add: solana_payment_def)
  from decodePaymentHeader_client [OF net this] show ?thesis
    by (simp add: solana_payment_def solana_request_def paid_request_def HeaderPayment_def HeaderRequest_def max_nesting_def)
qed

theorem short_transfer_panics_witness:
  "handlePayment short_outside solana_server 6 7 8 (solana_request ''r'') = (respond 500 Empty, solana_server)"
proof -
  let ?rpc = "solana_client (libs_of short_outside)" and ?e = "sample_entry\<lparr>Cost := 5, CreatedAt := 5\<rparr>"
  let ?ix = "\<lparr>ProgramIDIndex = 3, AccountIndices = [6, 4, 5], ixData = ''12345''\<rparr>"
  have "utf8_valid ''r''" by code_simp
  moreover have "Get (cache solana_server) 6 ''r'' = Some ?e" by code_simp
  moreover have "GetHeader (solana_request ''r'') HeaderRequest = ''r''" by (simp add: solana_request_def paid_request_def)
  ultimately have o: "open_payment solana_server 6 (solana_request ''r'') = Inr (''r'', ?e, solana_payment ''r'')"
    using solana_request_decodes
    by (simp add: open_payment_Inr solana_payment_def solana_server_def solana_config_def X402Version_def)
  have s: "settler solana_server = SOL (sample_solana_settler\<lparr>scfg := solana_config\<rparr>)" by (simp add: solana_server_def)
  have "Unmarshal decode_ExactSolanaPayload (Payload (solana_payment ''r'')) zero_solana_payload =
      (\<lparr>SolType = SolanaPayType, Transaction = ''AQID'', SolRequestID = ''r''\<rparr>, False)" by code_simp
  then have p: "solana_payload ?rpc (solana_payment ''r'') ''r'' short_tx"
    by (simp add: solana_payload_def short_outside_def)
  have ixs: "Instructions short_tx = butlast (Instructions sample_tx) @ ?ix # []" by (simp add: short_tx_def sample_tx_def)
  have pre: "effects ?rpc short_tx (butlast (Instructions sample_tx)) = Some [NoEffect, MemoText ''x402:r'']" by code_simp
  have "short_transfer ?rpc short_tx ?ix"
    by (simp add: short_transfer_def short_outside_def short_tx_def sample_tx_def sample_solana_rpc_def account_at_def)
  from short_transfer_panics [OF o s refl p _ _ _ _ _ ixs pre this]
  show ?thesis by (simp add: short_tx_def sample_tx_def short_outside_def sample_solana_rpc_def)
qed

end
