(* ===== verification/Origins.thy ===== *)
theory Origins
  imports Server
begin

section \<open>Which origins may read the answers\<close>

text \<open>
  The CORS headers of every answer: no handler sets \<open>Access-Control-Allow-Origin\<close> itself, so what the
  middleware of \<open>cmd/server/main.go\<close> puts there is what the client gets.
\<close>

definition allow_origin :: string where
  "allow_origin = ''Access-Control-Allow-Origin''"

definition silent :: "Response \<Rightarrow> bool" where
  "silent r \<longleftrightarrow> allow_origin \<notin> fst ` set (RHeaders r)"

lemma silent_respond [simp]: "silent (respond n b)" "silent (fail n f)"
  by (simp_all add: silent_def respond_def fail_def)


















end
